(* ===== verification/Prelude.thy ===== *)
theory Prelude
  imports Main
begin

text \<open>
  The vocabulary shared by every component of the development.

  \<^item> Results: a Go function returning \<open>(value, error)\<close> is a function into \<open>err + 'a\<close>; \<open>Inl\<close> is
    the error.  \<open>bindE\<close> is the \<open>if err != nil { return err }\<close> idiom.
  \<^item> Transactions: \<open>run_tx\<close> runs the body of a database transaction.  Its first argument says what
    the database driver does: nothing goes wrong, some statement (or the commit) fails and the
    transaction is rolled back, or the commit happens and its acknowledgement is lost.
  \<^item> Tables: a table is the list of its rows.  \<open>upd_where\<close>, \<open>del_where\<close> and the library's \<open>list_ex\<close>,
    \<open>find\<close> and \<open>filter\<close> are the SQL statements \<open>UPDATE\<close>, \<open>DELETE\<close>, \<open>EXISTS\<close> and \<open>SELECT\<close>.
  \<^item> Time is an integer number of microseconds, the resolution of a PostgreSQL timestamp.
\<close>

section \<open>Errors and results\<close>

text \<open>
  The SQLSTATE classes the store distinguishes: 23505, 23503, 23514 and the \<open>P0001\<close> of a plain
  \<open>RAISE EXCEPTION\<close>, plus \<open>P0002\<close> of a \<open>SELECT INTO STRICT\<close> that finds no row, \<open>22021\<close>, the refusal of
  text that is not valid UTF-8, \<open>22P05\<close> of a NUL character in a JSON value, \<open>22P02\<close> of malformed JSON and
  \<open>22003\<close> of a number beyond 64 bits.
\<close>

datatype sqlstate = UniqueViolation | ForeignKeyViolation | CheckViolation | RaisedException | NoDataFound
  | CharacterNotInRepertoire | UntranslatableCharacter | InvalidText | NumericOutOfRange

text \<open>
  The errors of package \<open>store\<close>: its four sentinels, an \<open>errors.New\<close> with a fixed message, an SQL
  error passed on as it is, and a failure of the database driver.
\<close>

datatype err =
    ErrNotFound
  | ErrAlreadyInitialized
  | ErrAlreadyLeased
  | ErrConflict
  | ErrMsg string
  | SqlErr sqlstate
  | DriverErr

type_synonym time = int

abbreviation seconds :: "int \<Rightarrow> time" where
  "seconds n \<equiv> n * 1000000"

abbreviation max_int64 :: int where
  "max_int64 \<equiv> 9223372036854775807"

definition bindE :: "'e + 'a \<Rightarrow> ('a \<Rightarrow> 'e + 'b) \<Rightarrow> 'e + 'b" where
  "bindE m f = (case m of Inl e \<Rightarrow> Inl e | Inr x \<Rightarrow> f x)"

definition mapErr :: "('e \<Rightarrow> 'f) \<Rightarrow> 'e + 'a \<Rightarrow> 'f + 'a" where
  "mapErr h m = (case m of Inl e \<Rightarrow> Inl (h e) | Inr x \<Rightarrow> Inr x)"

definition guardE :: "'e \<Rightarrow> bool \<Rightarrow> 'e + unit" where
  "guardE e b = (if b then Inr () else Inl e)"

text \<open>What the database driver does to one transaction (or one autocommitted statement).\<close>

datatype tx_fault = NoFault | TxFails | CommitLost

definition run_tx ::
  "tx_fault \<Rightarrow> ('s \<Rightarrow> err + ('a \<times> 's)) \<Rightarrow> 's \<Rightarrow> 's \<times> (err + 'a)" where
  "run_tx fault body s =
     (if fault = TxFails then (s, Inl DriverErr)
      else case body s of
             Inl e \<Rightarrow> (s, Inl e)
           | Inr (x, s') \<Rightarrow> (s', if fault = CommitLost then Inl DriverErr else Inr x))"

text \<open>A query that changes nothing: it answers, or the driver fails.\<close>

definition run_query :: "tx_fault \<Rightarrow> ('s \<Rightarrow> err + 'a) \<Rightarrow> 's \<Rightarrow> err + 'a" where
  "run_query fault q s = (if fault = NoFault then q s else Inl DriverErr)"

definition upd_where :: "('r \<Rightarrow> bool) \<Rightarrow> ('r \<Rightarrow> 'r) \<Rightarrow> 'r list \<Rightarrow> 'r list" where
  "upd_where p f t = map (\<lambda>r. if p r then f r else r) t"

definition del_where :: "('r \<Rightarrow> bool) \<Rightarrow> 'r list \<Rightarrow> 'r list" where
  "del_where p t = filter (\<lambda>r. \<not> p r) t"

text \<open>\<open>QueryRow(...).Scan\<close>: the first row that matches, or the given error for \<open>pgx.ErrNoRows\<close>.\<close>

definition query_row :: "err \<Rightarrow> ('r \<Rightarrow> bool) \<Rightarrow> 'r list \<Rightarrow> err + 'r" where
  "query_row e p t = (case find p t of None \<Rightarrow> Inl e | Some r \<Rightarrow> Inr r)"

text \<open>
  Row by row processing that stops at the first error, threading a state: a statement whose rows
  fire a trigger.
\<close>

fun foldE :: "('r \<Rightarrow> 's \<Rightarrow> 'e + 's) \<Rightarrow> 'r list \<Rightarrow> 's \<Rightarrow> 'e + 's" where
  "foldE f [] s = Inr s"
| "foldE f (r # rs) s = bindE (f r s) (foldE f rs)"

fun mapE :: "('r \<Rightarrow> 's \<Rightarrow> 'e + ('q \<times> 's)) \<Rightarrow> 'r list \<Rightarrow> 's \<Rightarrow> 'e + ('q list \<times> 's)" where
  "mapE f [] s = Inr ([], s)"
| "mapE f (r # rs) s =
     bindE (f r s) (\<lambda>(q, s1). bindE (mapE f rs s1) (\<lambda>(qs, s2). Inr (q # qs, s2)))"

text \<open>What Go does with the outcome of a statement that has already been committed.\<close>

definition then_check :: "'s \<times> (err + 'a) \<Rightarrow> ('a \<Rightarrow> err + 'b) \<Rightarrow> 's \<times> (err + 'b)" where
  "then_check x f = (fst x, bindE (snd x) f)"

text \<open>
  The row a \<open>RETURNING\<close> gives to \<open>QueryRow\<close>: the first one, or the error for no row; and the check that
  exactly one row was affected.
\<close>

definition first_row :: "'e \<Rightarrow> 'r list \<times> 's \<Rightarrow> 'e + ('r \<times> 's)" where
  "first_row e x = (case fst x of [] \<Rightarrow> Inl e | r # _ \<Rightarrow> Inr (r, snd x))"

definition one_row :: "'e \<Rightarrow> 'r list \<times> 's \<Rightarrow> 'e + ('r \<times> 's)" where
  "one_row e x = (if length (fst x) = 1 then Inr (hd (fst x), snd x) else Inl e)"

text \<open>\<open>ORDER BY\<close>, for an order given as a comparison.\<close>

fun insort_by :: "('r \<Rightarrow> 'r \<Rightarrow> bool) \<Rightarrow> 'r \<Rightarrow> 'r list \<Rightarrow> 'r list" where
  "insort_by le x [] = [x]"
| "insort_by le x (y # ys) = (if le x y then x # y # ys else y # insort_by le x ys)"

definition order_by :: "('r \<Rightarrow> 'r \<Rightarrow> bool) \<Rightarrow> 'r list \<Rightarrow> 'r list" where
  "order_by le xs = foldr (insort_by le) xs []"

section \<open>Lemmas on results and transactions\<close>

named_theorems result_simps \<open>unfolding a computation that succeeded\<close>

lemma bindE_Inl [simp]: "bindE (Inl e) f = Inl e"
  by (simp add: bindE_def)

lemma bindE_Inr [simp]: "bindE (Inr x) f = f x"
  by (simp add: bindE_def)

lemma bindE_eq_Inr [result_simps]: "bindE m f = Inr y \<longleftrightarrow> (\<exists>x. m = Inr x \<and> f x = Inr y)"
  by (cases m) simp_all

lemma bindE_eq_Inl: "bindE m f = Inl e \<longleftrightarrow> m = Inl e \<or> (\<exists>x. m = Inr x \<and> f x = Inl e)"
  by (cases m) simp_all

lemma mapErr_Inr [simp]: "mapErr h (Inr x) = Inr x"
  by (simp add: mapErr_def)

lemma mapErr_Inl [simp]: "mapErr h (Inl e) = Inl (h e)"
  by (simp add: mapErr_def)

lemma mapErr_eq_Inr [result_simps]: "mapErr h m = Inr y \<longleftrightarrow> m = Inr y"
  by (cases m) simp_all

lemma guardE_True [simp]: "guardE e True = Inr ()"
  by (simp add: guardE_def)

lemma guardE_False [simp]: "guardE e False = Inl e"
  by (simp add: guardE_def)

lemma guardE_eq_Inr [result_simps]: "guardE e b = Inr u \<longleftrightarrow> b"
  by (simp add: guardE_def)

lemma query_row_eq_Inr [result_simps]: "query_row e p t = Inr r \<longleftrightarrow> find p t = Some r"
  by (simp add: query_row_def split: option.splits)

lemma first_row_eq_Inr [result_simps]: "first_row e (rs, d) = Inr (r, d') \<longleftrightarrow> (\<exists>q. rs = r # q) \<and> d' = d"
  by (cases rs) (auto simp: first_row_def)

lemma first_row_eq_Inl: "first_row e (rs, d) = Inl x \<longleftrightarrow> rs = [] \<and> x = e"
  by (cases rs) (auto simp: first_row_def)

lemma one_row_eq_Inr [result_simps]: "one_row e (rs, d) = Inr (r, d') \<longleftrightarrow> rs = [r] \<and> d' = d"
  by (auto simp: one_row_def length_Suc_conv)

lemma run_tx_eq_Inr [result_simps]:
  "run_tx fault body s = (s', Inr x) \<longleftrightarrow> fault = NoFault \<and> body s = Inr (x, s')"
  by (cases fault) (auto simp: run_tx_def split: sum.splits prod.splits)

lemma run_tx_NoFault [simp]:
  "run_tx NoFault body s =
     (case body s of Inl e \<Rightarrow> (s, Inl e) | Inr (x, s') \<Rightarrow> (s', Inr x))"
  by (simp add: run_tx_def split: sum.splits prod.splits)

lemma run_tx_TxFails [simp]: "run_tx TxFails body s = (s, Inl DriverErr)"
  by (simp add: run_tx_def)

text \<open>Whatever the driver does, the state after a transaction is the old one or the body's.\<close>

lemma run_tx_state:
  "fst (run_tx fault body s) = s \<or> (\<exists>x. body s = Inr (x, fst (run_tx fault body s)))"
  by (cases fault) (auto simp: run_tx_def split: sum.splits prod.splits)

lemma run_tx_changed: "d1 = fst (run_tx fault body s) \<Longrightarrow> d1 \<noteq> s \<Longrightarrow> \<exists>x. body s = Inr (x, d1)"
  using run_tx_state [of fault body s] by auto

lemma run_tx_preserves:
  assumes "P s" and "\<And>x s'. body s = Inr (x, s') \<Longrightarrow> P s'"
  shows "P (fst (run_tx fault body s))"
  using run_tx_state [of fault body s] assms by auto

lemma then_check_simps [simp]:
  "fst (then_check x f) = fst x"
  "snd (then_check x f) = bindE (snd x) f"
  by (simp_all add: then_check_def)

lemma then_check_eq_Inr [result_simps]:
  "then_check x f = (s, Inr y) \<longleftrightarrow> (\<exists>v. x = (s, Inr v) \<and> f v = Inr y)"
  by (cases x) (auto simp: then_check_def bindE_eq_Inr)

section \<open>Lemmas on ordered results\<close>

lemma set_insort_by [simp]: "set (insort_by le x xs) = insert x (set xs)"
  by (induction xs) auto

lemma set_order_by [simp]: "set (order_by le xs) = set xs"
  by (induction xs) (auto simp: order_by_def)

lemma length_order_by [simp]: "length (order_by le xs) = length xs"
proof -
  have "length (insort_by le x ys) = Suc (length ys)" for x and ys :: "'a list" by (induction ys) auto
  then show ?thesis by (induction xs) (auto simp: order_by_def)
qed

lemma sorted_wrt_order_by:
  assumes "\<And>x y. le x y \<or> le y x" "\<And>x y z. le x y \<Longrightarrow> le y z \<Longrightarrow> le x z"
  shows "sorted_wrt le (order_by le xs)"
proof -
  have "sorted_wrt le (insort_by le x ys)" if "sorted_wrt le ys" for x ys
    using that assms(1) by (induction ys) (auto intro: assms(2))
  then show ?thesis by (induction xs) (auto simp: order_by_def)
qed

section \<open>Lemmas on tables\<close>

lemma length_upd_where [simp]: "length (upd_where p f t) = length t"
  by (simp add: upd_where_def)

lemma upd_where_Nil [simp]: "upd_where p f [] = []"
  by (simp add: upd_where_def)

lemma upd_where_Cons [simp]:
  "upd_where p f (r # t) = (if p r then f r else r) # upd_where p f t"
  by (simp add: upd_where_def)

lemma set_upd_where: "set (upd_where p f t) = (\<lambda>r. if p r then f r else r) ` set t"
  by (simp add: upd_where_def)

lemma in_upd_where:
  "r \<in> set (upd_where p f t) \<longleftrightarrow> (r \<in> set t \<and> \<not> p r) \<or> (\<exists>q \<in> set t. p q \<and> r = f q)"
  by (auto simp: upd_where_def)

lemma upd_where_none: "(\<And>r. r \<in> set t \<Longrightarrow> \<not> p r) \<Longrightarrow> upd_where p f t = t"
  by (auto simp: upd_where_def intro: map_idI)

lemma map_upd_where_key:
  "(\<And>r. r \<in> set t \<Longrightarrow> k (f r) = k r) \<Longrightarrow> map k (upd_where p f t) = map k t"
  by (simp add: upd_where_def)

lemma in_del_where [simp]: "r \<in> set (del_where p t) \<longleftrightarrow> r \<in> set t \<and> \<not> p r"
  by (simp add: del_where_def)

lemma del_where_Nil [simp]: "del_where p [] = []"
  by (simp add: del_where_def)

lemma del_where_Cons [simp]:
  "del_where p (r # t) = (if p r then del_where p t else r # del_where p t)"
  by (simp add: del_where_def)

lemma distinct_map_del_where: "distinct (map k t) \<Longrightarrow> distinct (map k (del_where p t))"
  by (simp add: del_where_def distinct_map_filter)

lemma find_SomeD: "find p t = Some r \<Longrightarrow> r \<in> set t \<and> p r"
  by (auto simp: find_Some_iff)

lemma find_NoneD: "find p t = None \<Longrightarrow> r \<in> set t \<Longrightarrow> \<not> p r"
  by (auto simp: find_None_iff)

lemma foldE_append: "foldE f (xs @ ys) s = bindE (foldE f xs s) (foldE f ys)"
  by (induction xs arbitrary: s) (auto simp: bindE_def split: sum.splits)

text \<open>An invariant of the row step is an invariant of the whole statement.\<close>

lemma foldE_preserves:
  assumes "\<And>r s s'. r \<in> set rs \<Longrightarrow> P s \<Longrightarrow> f r s = Inr s' \<Longrightarrow> P s'"
    and "P s" and "foldE f rs s = Inr s'"
  shows "P s'"
  using assms
proof (induction rs arbitrary: s)
  case Nil
  then show ?case by simp
next
  case (Cons r rs)
  from Cons.prems(3) obtain s1 where s1: "f r s = Inr s1" "foldE f rs s1 = Inr s'"
    by (auto simp: bindE_eq_Inr)
  with Cons.prems have "P s1" by (metis list.set_intros(1))
  with s1(2) show ?case
    using Cons.IH [of s1] Cons.prems(1) by (metis list.set_intros(2))
qed

text \<open>The row step never fails under an invariant: neither does the statement.\<close>

lemma foldE_total:
  assumes "\<And>r s. r \<in> set rs \<Longrightarrow> P s \<Longrightarrow> \<exists>s'. f r s = Inr s' \<and> P s'" and "P s"
  shows "\<exists>s'. foldE f rs s = Inr s' \<and> P s'"
  using assms
proof (induction rs arbitrary: s)
  case Nil
  then show ?case by simp
next
  case (Cons r rs)
  from Cons.prems obtain s1 where "f r s = Inr s1" "P s1"
    by (metis list.set_intros(1))
  with Cons.IH [of s1] Cons.prems(1) show ?case
    by (simp add: bindE_eq_Inr)
qed

section \<open>Keyed tables\<close>

text \<open>
  Primary keys and unique indexes: what a unique key gives (two rows with one key are one row, a
  lookup finds the row) and what keeps it unique.
\<close>

abbreviation unique_by :: "('r \<Rightarrow> 'k) \<Rightarrow> 'r list \<Rightarrow> bool" where
  "unique_by key t \<equiv> distinct (map key t)"

lemma unique_by_same:
  "unique_by key t \<Longrightarrow> r \<in> set t \<Longrightarrow> q \<in> set t \<Longrightarrow> key r = key q \<Longrightarrow> r = q"
  by (metis inj_onD distinct_map)

lemma unique_by_find:
  assumes "unique_by key t" "r \<in> set t" "p r" "\<And>q. q \<in> set t \<Longrightarrow> p q \<Longrightarrow> key q = key r"
  shows "find p t = Some r"
proof (cases "find p t")
  case None
  with assms show ?thesis by (auto simp: find_None_iff)
next
  case (Some q)
  with assms show ?thesis by (metis find_SomeD unique_by_same)
qed

lemma unique_by_upd_where:
  "(\<And>r. r \<in> set t \<Longrightarrow> key (f r) = key r) \<Longrightarrow> unique_by key t \<Longrightarrow> unique_by key (upd_where p f t)"
  by (simp add: map_upd_where_key)

end
