(* ===== verification/Go_Strings.thy ===== *)
theory Go_Strings
  imports Prelude "HOL-Library.Sublist"
begin

text \<open>
  The parts of Go's \<open>strings\<close>, \<open>strconv\<close>, \<open>unicode\<close> and \<open>regexp\<close> packages that the code uses.  A Go
  string is its list of bytes.  White space is Unicode's: the six ASCII characters and the UTF-8
  encodings of the other white-space runes.  Lower-casing is Go's two-way split: an ASCII string is
  mapped byte by byte; any other string goes through the Unicode tables, which are the parameter
  \<open>ulower\<close> of every definition that lower-cases.
\<close>

section \<open>Bytes and classes of bytes\<close>

abbreviation byte_of :: "char \<Rightarrow> nat" where
  "byte_of c \<equiv> of_char c"

definition in_range :: "nat \<Rightarrow> nat \<Rightarrow> char \<Rightarrow> bool" where
  "in_range lo hi c \<longleftrightarrow> lo \<le> byte_of c \<and> byte_of c \<le> hi"

definition is_digit :: "char \<Rightarrow> bool" where
  "is_digit c \<longleftrightarrow> in_range 48 57 c"

definition is_lower :: "char \<Rightarrow> bool" where
  "is_lower c \<longleftrightarrow> in_range 97 122 c"

definition is_upper :: "char \<Rightarrow> bool" where
  "is_upper c \<longleftrightarrow> in_range 65 90 c"

definition is_lower_hex :: "char \<Rightarrow> bool" where
  "is_lower_hex c \<longleftrightarrow> is_digit c \<or> in_range 97 102 c"

text \<open>The classes \<open>[A-Za-z0-9_-]\<close> and \<open>[a-z0-9_-]\<close>.\<close>

definition is_token_char :: "char \<Rightarrow> bool" where
  "is_token_char c \<longleftrightarrow> is_lower c \<or> is_upper c \<or> is_digit c \<or> c = CHR ''_'' \<or> c = CHR ''-''"

definition is_lower_token_char :: "char \<Rightarrow> bool" where
  "is_lower_token_char c \<longleftrightarrow> is_lower c \<or> is_digit c \<or> c = CHR ''_'' \<or> c = CHR ''-''"

lemmas byte_class_defs = in_range_def is_digit_def is_lower_def is_upper_def is_lower_hex_def
  is_token_char_def is_lower_token_char_def

text \<open>A regular expression \<open>^pre[cls]{lo,hi}$\<close>.\<close>

definition matches_class :: "string \<Rightarrow> (char \<Rightarrow> bool) \<Rightarrow> nat \<Rightarrow> nat \<Rightarrow> string \<Rightarrow> bool" where
  "matches_class pre cls lo hi s \<longleftrightarrow>
     take (length pre) s = pre \<and> list_all cls (drop (length pre) s) \<and>
     lo \<le> length (drop (length pre) s) \<and> length (drop (length pre) s) \<le> hi"

section \<open>Package strings\<close>

definition HasPrefix :: "string \<Rightarrow> string \<Rightarrow> bool" where
  "HasPrefix s pre \<longleftrightarrow> take (length pre) s = pre"

definition HasSuffix :: "string \<Rightarrow> string \<Rightarrow> bool" where
  "HasSuffix s suf \<longleftrightarrow> length suf \<le> length s \<and> drop (length s - length suf) s = suf"

text \<open>\<open>CutPrefix\<close> and \<open>TrimPrefix\<close>: the rest, or the whole string when the prefix is not there.\<close>

definition CutPrefix :: "string \<Rightarrow> string \<Rightarrow> string \<times> bool" where
  "CutPrefix s pre = (if HasPrefix s pre then (drop (length pre) s, True) else (s, False))"

definition TrimPrefix :: "string \<Rightarrow> string \<Rightarrow> string" where
  "TrimPrefix s pre = fst (CutPrefix s pre)"

text \<open>\<open>Cut\<close> and \<open>Split\<close> at a one-byte separator.\<close>

fun Cut :: "char \<Rightarrow> string \<Rightarrow> string \<times> string \<times> bool" where
  "Cut c [] = ([], [], False)"
| "Cut c (x # xs) =
     (if x = c then ([], xs, True)
      else let (before, after, found) = Cut c xs in (x # before, after, found))"

fun Split :: "char \<Rightarrow> string \<Rightarrow> string list" where
  "Split c [] = [[]]"
| "Split c (x # xs) =
     (if x = c then [] # Split c xs
      else case Split c xs of [] \<Rightarrow> [[x]] | w # ws \<Rightarrow> (x # w) # ws)"

fun Join :: "char \<Rightarrow> string list \<Rightarrow> string" where
  "Join c [] = []"
| "Join c [w] = w"
| "Join c (w # v # ws) = w @ c # Join c (v # ws)"

text \<open>\<open>Contains\<close>: a substring at some position.\<close>

fun Contains :: "string \<Rightarrow> string \<Rightarrow> bool" where
  "Contains [] sub = (sub = [])"
| "Contains (x # xs) sub = (HasPrefix (x # xs) sub \<or> Contains xs sub)"

definition ascii_lower :: "char \<Rightarrow> char" where
  "ascii_lower c = (if is_upper c then char_of (byte_of c + 32) else c)"

definition is_ascii :: "string \<Rightarrow> bool" where
  "is_ascii s = list_all (\<lambda>c. byte_of c < 128) s"

definition ToLower :: "(string \<Rightarrow> string) \<Rightarrow> string \<Rightarrow> string" where
  "ToLower ulower s = (if is_ascii s then map ascii_lower s else ulower s)"

text \<open>The white-space runes of Unicode beyond ASCII, as UTF-8.\<close>

definition wide_spaces :: "string list" where
  "wide_spaces =
     [[CHR 0xC2, CHR 0x85], [CHR 0xC2, CHR 0xA0], [CHR 0xE1, CHR 0x9A, CHR 0x80],
      [CHR 0xE2, CHR 0x80, CHR 0x80], [CHR 0xE2, CHR 0x80, CHR 0x81], [CHR 0xE2, CHR 0x80, CHR 0x82],
      [CHR 0xE2, CHR 0x80, CHR 0x83], [CHR 0xE2, CHR 0x80, CHR 0x84], [CHR 0xE2, CHR 0x80, CHR 0x85],
      [CHR 0xE2, CHR 0x80, CHR 0x86], [CHR 0xE2, CHR 0x80, CHR 0x87], [CHR 0xE2, CHR 0x80, CHR 0x88],
      [CHR 0xE2, CHR 0x80, CHR 0x89], [CHR 0xE2, CHR 0x80, CHR 0x8A], [CHR 0xE2, CHR 0x80, CHR 0xA8],
      [CHR 0xE2, CHR 0x80, CHR 0xA9], [CHR 0xE2, CHR 0x80, CHR 0xAF], [CHR 0xE2, CHR 0x81, CHR 0x9F],
      [CHR 0xE3, CHR 0x80, CHR 0x80]]"

definition ascii_space :: "char \<Rightarrow> bool" where
  "ascii_space c \<longleftrightarrow> in_range 9 13 c \<or> c = CHR '' ''"

text \<open>The number of bytes of the white-space rune at the start (at the end) of a string.\<close>

definition space_len :: "string \<Rightarrow> nat" where
  "space_len s =
     (case s of [] \<Rightarrow> 0
      | c # _ \<Rightarrow> if ascii_space c then 1
                else case find (\<lambda>w. HasPrefix s w) wide_spaces of None \<Rightarrow> 0 | Some w \<Rightarrow> length w)"

definition space_len_end :: "string \<Rightarrow> nat" where
  "space_len_end s =
     (if s = [] then 0
      else if ascii_space (last s) then 1
      else case find (\<lambda>w. HasSuffix s w) wide_spaces of None \<Rightarrow> 0 | Some w \<Rightarrow> length w)"

lemma space_len_le: "space_len s \<le> length s"
  by (auto simp: space_len_def HasPrefix_def split: list.splits option.splits dest!: find_SomeD)
    (metis length_Cons length_take min.cobounded1)

lemma space_len_end_le: "space_len_end s \<le> length s"
  by (auto simp: space_len_end_def HasSuffix_def Suc_le_eq split: option.splits dest!: find_SomeD)

function TrimLeftSpace :: "string \<Rightarrow> string" where
  "TrimLeftSpace s =
     (if space_len s = 0 then s else TrimLeftSpace (drop (space_len s) s))"
  by pat_completeness auto
termination
  by (relation "measure length") (use space_len_le in \<open>auto simp: space_len_def split: list.splits\<close>)

function TrimRightSpace :: "string \<Rightarrow> string" where
  "TrimRightSpace s =
     (if space_len_end s = 0 then s else TrimRightSpace (take (length s - space_len_end s) s))"
  by pat_completeness auto
termination
  by (relation "measure length") (use space_len_end_le in \<open>auto simp: space_len_end_def\<close>)

declare TrimLeftSpace.simps [simp del] TrimRightSpace.simps [simp del]

definition TrimSpace :: "string \<Rightarrow> string" where
  "TrimSpace s = TrimRightSpace (TrimLeftSpace s)"

text \<open>\<open>Fields\<close>: the maximal runs of bytes between white space; \<open>cur\<close> is the current run, reversed.\<close>

function fields_from :: "string \<Rightarrow> string \<Rightarrow> string list" where
  "fields_from cur s =
     (case s of
        [] \<Rightarrow> (if cur = [] then [] else [rev cur])
      | c # s' \<Rightarrow>
          (if space_len s = 0 then fields_from (c # cur) s'
           else (if cur = [] then [] else [rev cur]) @ fields_from [] (drop (space_len s) s)))"
  by pat_completeness auto
termination
  by (relation "measure (\<lambda>(cur, s). length s)") (use space_len_le in auto)

declare fields_from.simps [simp del]

definition Fields :: "string \<Rightarrow> string list" where
  "Fields s = fields_from [] s"

section \<open>Package strconv\<close>

definition digit_char :: "nat \<Rightarrow> char" where
  "digit_char d = char_of (if d < 10 then 48 + d else 87 + d)"

definition digit_value :: "char \<Rightarrow> nat option" where
  "digit_value c =
     (if is_digit c then Some (byte_of c - 48)
      else if in_range 97 102 c then Some (byte_of c - 87)
      else if in_range 65 70 c then Some (byte_of c - 55)
      else None)"

text \<open>\<open>FormatUint\<close> in base 10 and 16 (lower-case digits), and \<open>Itoa\<close>.\<close>

function FormatBase :: "nat \<Rightarrow> nat \<Rightarrow> string" where
  "FormatBase b n =
     (if b < 2 \<or> n < b then [digit_char n] else FormatBase b (n div b) @ [digit_char (n mod b)])"
  by pat_completeness auto
termination
  by (relation "measure snd") auto

declare FormatBase.simps [simp del]

definition FormatUint :: "nat \<Rightarrow> string" where
  "FormatUint n = FormatBase 10 n"

definition Itoa :: "int \<Rightarrow> string" where
  "Itoa i = (if i < 0 then CHR ''-'' # FormatUint (nat (- i)) else FormatUint (nat i))"

text \<open>
  \<open>ParseUint(s, base, bits)\<close>: the empty string, a byte that is no digit of the base and a value of
  \<open>bits\<close> bits or more are errors.
\<close>

fun parse_from :: "nat \<Rightarrow> nat \<Rightarrow> string \<Rightarrow> nat option" where
  "parse_from b acc [] = Some acc"
| "parse_from b acc (c # s) =
     (case digit_value c of
        None \<Rightarrow> None
      | Some d \<Rightarrow> if d < b then parse_from b (acc * b + d) s else None)"

definition ParseUint :: "nat \<Rightarrow> nat \<Rightarrow> string \<Rightarrow> nat option" where
  "ParseUint b bits s =
     (if s = [] then None
      else case parse_from b 0 s of None \<Rightarrow> None | Some n \<Rightarrow> if n < 2 ^ bits then Some n else None)"

text \<open>\<open>Atoi\<close>: an optional sign and decimal digits, within 64 bits.\<close>

definition Atoi :: "string \<Rightarrow> int option" where
  "Atoi s =
     (case s of
        [] \<Rightarrow> None
      | c # r \<Rightarrow>
          let neg = (c = CHR ''-'');
              ds = (if c = CHR ''-'' \<or> c = CHR ''+'' then r else s)
          in if ds = [] then None
             else case parse_from 10 0 ds of
                    None \<Rightarrow> None
                  | Some n \<Rightarrow>
                      if neg then (if int n \<le> 9223372036854775808 then Some (- int n) else None)
                      else (if int n \<le> max_int64 then Some (int n) else None))"

section \<open>Facts about strings\<close>

lemma HasPrefix_append [simp]: "HasPrefix (p @ s) p"
  by (simp add: HasPrefix_def)

lemma HasPrefixD: "HasPrefix s p \<Longrightarrow> \<exists>r. s = p @ r"
  unfolding HasPrefix_def by (metis append_take_drop_id)

lemma HasPrefix_iff: "HasPrefix s p \<longleftrightarrow> (\<exists>r. s = p @ r)"
  by (auto dest: HasPrefixD)

lemma matches_class_append:
  "matches_class pre cls lo hi (pre @ s) \<longleftrightarrow> list_all cls s \<and> lo \<le> length s \<and> length s \<le> hi"
  by (simp add: matches_class_def)

lemma matches_classD:
  "matches_class pre cls lo hi s \<Longrightarrow>
     \<exists>r. s = pre @ r \<and> list_all cls r \<and> lo \<le> length r \<and> length r \<le> hi"
  unfolding matches_class_def by (metis append_take_drop_id)

lemma Contains_iff: "Contains s sub \<longleftrightarrow> (\<exists>a b. s = a @ sub @ b)"
proof (induction s)
  case Nil
  then show ?case by auto
next
  case (Cons x xs)
  show ?case
  proof
    assume "Contains (x # xs) sub"
    then consider "HasPrefix (x # xs) sub" | "Contains xs sub" by auto
    then show "\<exists>a b. x # xs = a @ sub @ b"
    proof cases
      case 1
      then show ?thesis by (metis HasPrefixD append_Nil)
    next
      case 2
      with Cons.IH show ?thesis by (metis append_Cons)
    qed
  next
    assume "\<exists>a b. x # xs = a @ sub @ b"
    then obtain a b where ab: "x # xs = a @ sub @ b" by blast
    show "Contains (x # xs) sub"
    proof (cases a)
      case Nil
      with ab have "HasPrefix (x # xs) sub" by (auto simp: HasPrefix_iff)
      then show ?thesis by simp
    next
      case (Cons a1 as)
      with ab have "xs = as @ sub @ b" by simp
      with Cons.IH show ?thesis by auto
    qed
  qed
qed

lemma Split_not_Nil [simp]: "Split c s \<noteq> []"
  by (induction s) (auto split: list.splits)

lemma Split_parts: "w \<in> set (Split c s) \<Longrightarrow> c \<notin> set w"
  by (induction s arbitrary: w) (auto split: list.splits if_splits)

lemma Join_Split [simp]: "Join c (Split c s) = s"
proof (induction s)
  case Nil
  then show ?case by simp
next
  case (Cons x xs)
  obtain w ws where w: "Split c xs = w # ws"
    by (cases "Split c xs") auto
  with Cons show ?case by (cases ws) auto
qed

lemma Split_no_sep: "c \<notin> set w \<Longrightarrow> Split c w = [w]"
  by (induction w) auto

lemma Split_append_sep: "c \<notin> set w \<Longrightarrow> Split c (w @ c # s) = w # Split c s"
  by (induction w) auto

lemma Split_Join: "ws \<noteq> [] \<Longrightarrow> \<forall>w \<in> set ws. c \<notin> set w \<Longrightarrow> Split c (Join c ws) = ws"
  by (induction ws rule: Join.induct) (auto simp: Split_no_sep Split_append_sep)

lemma Cut_no_sep: "c \<notin> set w \<Longrightarrow> Cut c w = (w, [], False)"
  by (induction w) auto

lemma Cut_append_sep [simp]: "c \<notin> set w \<Longrightarrow> Cut c (w @ c # s) = (w, s, True)"
  by (induction w) auto

lemma CutD: "Cut c s = (a, b, True) \<Longrightarrow> s = a @ c # b \<and> c \<notin> set a"
  by (induction s arbitrary: a) (auto split: if_splits prod.splits)


section \<open>Facts about numbers and their decimal form\<close>

lemma of_char_digit_char: "d < 16 \<Longrightarrow> byte_of (digit_char d) = (if d < 10 then 48 + d else 87 + d)"
  by (simp add: digit_char_def)

lemma digit_value_digit_char [simp]: "d < 16 \<Longrightarrow> digit_value (digit_char d) = Some d"
  by (auto simp: digit_value_def is_digit_def in_range_def of_char_digit_char)

lemma is_digit_digit_char [simp]: "d < 10 \<Longrightarrow> is_digit (digit_char d)"
  by (simp add: is_digit_def in_range_def of_char_digit_char)

lemma is_lower_hex_digit_char [simp]: "d < 16 \<Longrightarrow> is_lower_hex (digit_char d)"
  by (auto simp: is_lower_hex_def is_digit_def in_range_def of_char_digit_char)

lemma parse_from_append:
  "parse_from b acc (s @ t) = (case parse_from b acc s of None \<Rightarrow> None | Some n \<Rightarrow> parse_from b n t)"
  by (induction s arbitrary: acc) (auto split: option.splits)

lemma parse_from_FormatBase:
  assumes "2 \<le> b" "b \<le> 16"
  shows "parse_from b 0 (FormatBase b n) = Some n"
  using assms
proof (induction b n rule: FormatBase.induct)
  case (1 b n)
  show ?case
  proof (cases "n < b")
    case True
    with 1 show ?thesis by (subst FormatBase.simps) simp
  next
    case False
    with 1 have "parse_from b 0 (FormatBase b (n div b)) = Some (n div b)" by simp
    moreover have "n mod b < b" "n mod b < 16"
      using 1 mod_less_divisor [of b n] by (auto simp del: mod_less_divisor)
    ultimately show ?thesis
      using 1 False by (subst FormatBase.simps) (simp add: parse_from_append)
  qed
qed

lemma FormatBase_not_Nil [simp]: "FormatBase b n \<noteq> []"
  by (subst FormatBase.simps) simp

lemma FormatUint_not_Nil [simp]: "FormatUint n \<noteq> []"
  by (simp add: FormatUint_def)

lemma FormatUint_digits: "list_all is_digit (FormatUint n)"
proof -
  have "b = 10 \<Longrightarrow> list_all is_digit (FormatBase b n)" for b
  proof (induction b n rule: FormatBase.induct)
    case (1 b n)
    then show ?case by (subst FormatBase.simps) auto
  qed
  then show ?thesis by (simp add: FormatUint_def)
qed

lemma parse_from_FormatUint [simp]: "parse_from 10 0 (FormatUint n) = Some n"
  by (simp add: FormatUint_def parse_from_FormatBase)

lemma ParseUint_FormatUint [simp]: "n < 2 ^ bits \<Longrightarrow> ParseUint 10 bits (FormatUint n) = Some n"
  by (simp add: ParseUint_def)

lemma FormatUint_inject [simp]: "FormatUint m = FormatUint n \<longleftrightarrow> m = n"
  by (metis option.inject parse_from_FormatUint)

lemma FormatUint_no_char: "\<not> is_digit c \<Longrightarrow> c \<notin> set (FormatUint n)"
  using FormatUint_digits [of n] by (auto simp: list_all_iff)

lemma minus_not_digit: "\<not> is_digit (CHR ''-'')"
  by (simp add: is_digit_def in_range_def)

text \<open>\<open>vmid::text\<close> and \<open>strconv.Itoa(vmid)\<close> name one desktop.\<close>

lemma Itoa_inject [simp]: "Itoa i = Itoa j \<longleftrightarrow> i = j"
proof -
  have no_minus: "FormatUint m \<noteq> CHR ''-'' # s" for m s
    using FormatUint_no_char [OF minus_not_digit, of m] by auto
  show ?thesis
    using no_minus no_minus [symmetric] by (auto simp: Itoa_def eq_nat_nat_iff)
qed

lemma ParseUint_bound: "ParseUint b bits s = Some n \<Longrightarrow> n < 2 ^ bits"
  by (auto simp: ParseUint_def split: option.splits if_splits)

lemma Atoi_Itoa: "- 9223372036854775808 \<le> i \<Longrightarrow> i \<le> max_int64 \<Longrightarrow> Atoi (Itoa i) = Some i"
proof (cases "i < 0")
  case True
  then show "- 9223372036854775808 \<le> i \<Longrightarrow> Atoi (Itoa i) = Some i"
    by (simp add: Atoi_def Itoa_def Let_def)
next
  case False
  obtain c r where cr: "FormatUint (nat i) = c # r"
    by (cases "FormatUint (nat i)") auto
  have "is_digit c" using FormatUint_digits [of "nat i"] cr by simp
  then have c: "c \<noteq> CHR ''-''" "c \<noteq> CHR ''+''"
    by (auto simp: is_digit_def in_range_def)
  have "parse_from 10 0 (c # r) = Some (nat i)"
    using cr parse_from_FormatUint [of "nat i"] by simp
  then show "i \<le> max_int64 \<Longrightarrow> Atoi (Itoa i) = Some i"
    using False c cr by (simp add: Atoi_def Itoa_def Let_def del: parse_from.simps)
qed

end
