(* ===== verification/Guest_Identity.thy ===== *)
theory Guest_Identity
  imports Go_Strings "HOL-Library.Word"
begin

text \<open>
  Package \<open>guestidentity\<close> (src/internal/guestidentity/session.go): the validators of native OS
  identities shared by the store and by the session protocol, and the SQL function
  \<open>vcw_valid_windows_account_sid\<close> that the store's constraints use for the same purpose.
  A Go \<open>uint32\<close> is a 32-bit word.  The lemmas characterise each validator by the identities it
  accepts, and show that the Go and the SQL check of a Windows SID are one predicate.
\<close>

section \<open>Definitions\<close>

definition managedUser :: "string \<Rightarrow> bool" where
  "managedUser s \<longleftrightarrow> matches_class ''vca'' is_lower_hex 12 12 s \<or> matches_class ''vcw'' is_lower_hex 12 12 s"

definition instance_re :: "string \<Rightarrow> bool" where
  "instance_re s \<longleftrightarrow> matches_class [] is_lower_hex 64 64 s"

text \<open>\<open>^:[0-9]+(\.[0-9]+)?$\<close>\<close>

definition linuxDisplay :: "string \<Rightarrow> bool" where
  "linuxDisplay s \<longleftrightarrow>
     (case s of
        [] \<Rightarrow> False
      | c # r \<Rightarrow> c = CHR '':'' \<and>
          (case Cut (CHR ''.'') r of (a, b, found) \<Rightarrow>
             a \<noteq> [] \<and> list_all is_digit a \<and> (found \<longrightarrow> b \<noteq> [] \<and> list_all is_digit b)))"

definition ValidWindowsAccountSID :: "string \<Rightarrow> bool" where
  "ValidWindowsAccountSID sid \<longleftrightarrow>
     length sid \<le> 56 \<and>
     (let parts = Split (CHR ''-'') sid in
        length parts = 8 \<and> Join (CHR ''-'') (take 4 parts) = ''S-1-5-21'' \<and>
        list_all (\<lambda>(index, part).
            case ParseUint 10 32 part of
              None \<Rightarrow> False
            | Some value \<Rightarrow> FormatUint value = part \<and> \<not> (index = 3 \<and> value < 1000))
          (zip [0..<4] (drop 4 parts)))"

definition ValidAccount :: "string \<Rightarrow> 32 word \<Rightarrow> string \<Rightarrow> bool" where
  "ValidAccount platform uid sid \<longleftrightarrow>
     (if platform = ''linux'' then 1000 \<le> uid \<and> sid = []
      else if platform = ''windows'' then uid = 0 \<and> ValidWindowsAccountSID sid
      else False)"

text \<open>\<open>fmt.Sprintf("%016x", v)\<close>\<close>

definition hex16 :: "nat \<Rightarrow> string" where
  "hex16 v = (let h = FormatBase 16 v in replicate (16 - length h) (CHR ''0'') @ h)"

definition ValidWindowsLogonBinding :: "string \<Rightarrow> bool" where
  "ValidWindowsLogonBinding sessionID \<longleftrightarrow>
     length sessionID \<le> 128 \<and>
     (let (rest, ok) = CutPrefix sessionID ''windows:'';
          parts = Split (CHR '':'') rest
      in ok \<and> length parts = 2 \<and> length (parts ! 1) = 16 \<and> parts ! 1 \<noteq> ''0000000000000000'' \<and>
         (case ParseUint 10 32 (parts ! 0) of
            None \<Rightarrow> False
          | Some i \<Rightarrow> i \<noteq> 0 \<and> FormatUint i = parts ! 0 \<and>
              (case ParseUint 16 64 (parts ! 1) of
                 None \<Rightarrow> False
               | Some luid \<Rightarrow> hex16 luid = parts ! 1)))"

definition linux_session_prefix :: "32 word \<Rightarrow> string" where
  "linux_session_prefix uid = ''linux:'' @ FormatUint (unat uid) @ '':''"

definition ValidSession ::
  "string \<Rightarrow> string \<Rightarrow> 32 word \<Rightarrow> string \<Rightarrow> string \<Rightarrow> string \<Rightarrow> bool" where
  "ValidSession platform username uid sid sessionID instanceID \<longleftrightarrow>
     (if \<not> managedUser username \<or> \<not> instance_re instanceID \<or> \<not> ValidAccount platform uid sid \<or>
         length sessionID > 128 then False
      else if platform = ''windows'' then ValidWindowsLogonBinding sessionID
      else let (rest, ok) = CutPrefix sessionID (linux_session_prefix uid);
               (pid, display, found) = Cut (CHR '':'') rest
           in case ParseUint 10 32 pid of
                None \<Rightarrow> False
              | Some i \<Rightarrow> ok \<and> found \<and> i > 0 \<and> FormatUint i = pid \<and>
                  length display \<le> 16 \<and> linuxDisplay display)"

text \<open>The decimal form \<open>(0|[1-9][0-9]{0,9})\<close> of the SQL function, and its last part without the zero.\<close>

definition sql_decimal :: "string \<Rightarrow> bool" where
  "sql_decimal p \<longleftrightarrow>
     p = ''0'' \<or> (p \<noteq> [] \<and> in_range 49 57 (hd p) \<and> list_all is_digit p \<and> length p \<le> 10)"

definition vcw_valid_windows_account_sid :: "string \<Rightarrow> bool" where
  "vcw_valid_windows_account_sid v \<longleftrightarrow>
     (let parts = Split (CHR ''-'') v in
        length parts = 8 \<and> take 4 parts = [''S'', ''1'', ''5'', ''21''] \<and>
        list_all sql_decimal (drop 4 parts) \<and> parts ! 7 \<noteq> ''0'' \<and>
        list_all (\<lambda>p. case parse_from 10 0 p of None \<Rightarrow> False | Some n \<Rightarrow> n \<le> 4294967295) (drop 4 parts) \<and>
        (case parse_from 10 0 (parts ! 7) of None \<Rightarrow> False | Some n \<Rightarrow> 1000 \<le> n))"

section \<open>Canonical decimal numbers\<close>

text \<open>The test \<open>FormatUint(v) == part\<close> after \<open>ParseUint\<close> accepts the canonical decimal forms only.\<close>

definition canonical32 :: "string \<Rightarrow> nat option" where
  "canonical32 p =
     (case ParseUint 10 32 p of None \<Rightarrow> None | Some v \<Rightarrow> if FormatUint v = p then Some v else None)"

lemma canonical32_iff: "canonical32 p = Some v \<longleftrightarrow> p = FormatUint v \<and> v < 2 ^ 32"
proof
  assume "canonical32 p = Some v"
  then show "p = FormatUint v \<and> v < 2 ^ 32"
    by (auto simp: canonical32_def dest: ParseUint_bound split: option.splits if_splits)
next
  assume "p = FormatUint v \<and> v < 2 ^ 32"
  then show "canonical32 p = Some v"
    by (simp add: canonical32_def del: power_numeral)
qed

lemma FormatUint_step: "10 \<le> n \<Longrightarrow> FormatUint n = FormatUint (n div 10) @ [digit_char (n mod 10)]"
  unfolding FormatUint_def by (subst FormatBase.simps) simp

lemma FormatUint_small: "n < 10 \<Longrightarrow> FormatUint n = [digit_char n]"
  unfolding FormatUint_def by (subst FormatBase.simps) simp

lemma length_FormatBase: "2 \<le> b \<Longrightarrow> n < b ^ Suc k \<Longrightarrow> length (FormatBase b n) \<le> Suc k"
proof (induction k arbitrary: n)
  case 0
  then show ?case by (subst FormatBase.simps) simp
next
  case (Suc k)
  show ?case
  proof (cases "n < b")
    case True
    then show ?thesis by (subst FormatBase.simps) simp
  next
    case False
    have "n div b < b ^ Suc k" using Suc.prems by (simp add: less_mult_imp_div_less mult.commute)
    then have "length (FormatBase b (n div b)) \<le> Suc k" using Suc by blast
    with False Suc.prems show ?thesis by (subst FormatBase.simps) simp
  qed
qed

lemma length_FormatUint: "n < 10 ^ Suc k \<Longrightarrow> length (FormatUint n) \<le> Suc k"
  by (simp add: FormatUint_def length_FormatBase del: power_Suc)

lemma is_digit_char: "is_digit c \<Longrightarrow> \<exists>d < 10. c = digit_char d"
  by (rule exI [of _ "byte_of c - 48"]) (auto simp: is_digit_def in_range_def digit_char_def)

lemma digit_value_is_digit: "is_digit c \<Longrightarrow> digit_value c = Some (byte_of c - 48) \<and> byte_of c - 48 < 10"
  by (auto simp: digit_value_def is_digit_def in_range_def)

text \<open>Digits without a leading zero are the decimal form of their value.\<close>

lemma digits_canonical:
  assumes "p \<noteq> []" "list_all is_digit p" "in_range 49 57 (hd p)"
  shows "\<exists>v > 0. parse_from 10 0 p = Some v \<and> FormatUint v = p"
  using assms
proof (induction p rule: rev_induct)
  case Nil
  then show ?case by simp
next
  case (snoc c q)
  from snoc.prems obtain d where d: "d < 10" "c = digit_char d"
    by (auto dest: is_digit_char)
  show ?case
  proof (cases "q = []")
    case True
    with snoc.prems d have "d \<noteq> 0" by (auto simp: in_range_def of_char_digit_char)
    with True d show ?thesis by (auto simp: FormatUint_small)
  next
    case False
    with snoc obtain v where v: "v > 0" "parse_from 10 0 q = Some v" "FormatUint v = q"
      by auto
    then have "parse_from 10 0 (q @ [c]) = Some (v * 10 + d)"
      using d by (simp add: parse_from_append)
    moreover have "FormatUint (v * 10 + d) = q @ [c]"
      using v d by (subst FormatUint_step) auto
    moreover have "v * 10 + d > 0" using v by simp
    ultimately show ?thesis by blast
  qed
qed

lemma FormatUint_hd: "0 < n \<Longrightarrow> in_range 49 57 (hd (FormatUint n))"
proof (induction n rule: less_induct)
  case (less n)
  show ?case
  proof (cases "n < 10")
    case True
    with less.prems show ?thesis
      by (simp add: FormatUint_small in_range_def of_char_digit_char)
  next
    case False
    with less.IH [of "n div 10"] show ?thesis
      by (simp add: FormatUint_step)
  qed
qed

lemma digit_char_0: "digit_char 0 = CHR ''0''"
  by code_simp

lemma FormatUint_0 [simp]: "FormatUint 0 = ''0''"
  by (simp add: FormatUint_small digit_char_0)

lemma sql_decimal_canonical:
  "sql_decimal p \<and> (case parse_from 10 0 p of None \<Rightarrow> False | Some n \<Rightarrow> n \<le> 4294967295) \<longleftrightarrow>
     (\<exists>v < 2 ^ 32. p = FormatUint v)"
proof
  assume "\<exists>v < 2 ^ 32. p = FormatUint v"
  then obtain v where v: "v < 2 ^ 32" "p = FormatUint v" by blast
  have "length p \<le> 10" using v length_FormatUint [of v 9] by simp
  then have "sql_decimal p"
    using v FormatUint_hd [of v] FormatUint_digits [of v]
    by (cases "v = 0") (auto simp: sql_decimal_def)
  with v show "sql_decimal p \<and> (case parse_from 10 0 p of None \<Rightarrow> False | Some n \<Rightarrow> n \<le> 4294967295)"
    by simp
next
  assume L: "sql_decimal p \<and> (case parse_from 10 0 p of None \<Rightarrow> False | Some n \<Rightarrow> n \<le> 4294967295)"
  show "\<exists>v < 2 ^ 32. p = FormatUint v"
  proof (cases "p = ''0''")
    case True
    then show ?thesis by (intro exI [of _ 0]) simp
  next
    case False
    with L obtain v where "parse_from 10 0 p = Some v" "FormatUint v = p"
      using digits_canonical [of p] by (auto simp: sql_decimal_def)
    with L show ?thesis by (intro exI [of _ v]) auto
  qed
qed


section \<open>Windows account SIDs\<close>

text \<open>The text of the domain account SID with sub-authorities \<open>a\<close>, \<open>b\<close>, \<open>c\<close> and RID \<open>d\<close>.\<close>

definition sid_text :: "nat \<Rightarrow> nat \<Rightarrow> nat \<Rightarrow> nat \<Rightarrow> string" where
  "sid_text a b c d =
     Join (CHR ''-'') ([''S'', ''1'', ''5'', ''21''] @ map FormatUint [a, b, c, d])"

lemma Split_sid_text:
  "Split (CHR ''-'') (sid_text a b c d) = [''S'', ''1'', ''5'', ''21''] @ map FormatUint [a, b, c, d]"
  unfolding sid_text_def
  by (rule Split_Join) (auto simp: FormatUint_no_char [OF minus_not_digit])

lemma length_FormatUint32: "v < 2 ^ 32 \<Longrightarrow> length (FormatUint v) \<le> 10"
  using length_FormatUint [of v 9] by simp

lemma length_sid_text:
  "a < 2 ^ 32 \<Longrightarrow> b < 2 ^ 32 \<Longrightarrow> c < 2 ^ 32 \<Longrightarrow> d < 2 ^ 32 \<Longrightarrow> length (sid_text a b c d) \<le> 52"
  using length_FormatUint32 [of a] length_FormatUint32 [of b] length_FormatUint32 [of c]
    length_FormatUint32 [of d]
  by (simp add: sid_text_def)

lemma list8_cases: "length ps = 8 \<Longrightarrow> \<exists>a b c d e f g h. ps = [a, b, c, d, e, f, g, h]"
  by (auto simp: length_Suc_conv eval_nat_numeral)

lemma Split_prefix4:
  assumes "Join (CHR ''-'') (take 4 (Split (CHR ''-'') s)) = ''S-1-5-21''"
  shows "take 4 (Split (CHR ''-'') s) = [''S'', ''1'', ''5'', ''21'']"
proof -
  let ?ps = "take 4 (Split (CHR ''-'') s)"
  have ne: "?ps \<noteq> []" by simp
  have ok: "\<forall>w \<in> set ?ps. CHR ''-'' \<notin> set w"
    by (auto dest: in_set_takeD Split_parts)
  have "?ps = Split (CHR ''-'') (Join (CHR ''-'') ?ps)"
    using Split_Join [OF ne ok] by simp
  also have "\<dots> = [''S'', ''1'', ''5'', ''21'']"
    using assms by simp
  finally show ?thesis .
qed

lemma sid_parts:
  assumes "length (Split (CHR ''-'') s) = 8"
    and "take 4 (Split (CHR ''-'') s) = [''S'', ''1'', ''5'', ''21'']"
    and "drop 4 (Split (CHR ''-'') s) = map FormatUint [a, b, c, d]"
  shows "s = sid_text a b c d"
proof -
  have "Split (CHR ''-'') s = [''S'', ''1'', ''5'', ''21''] @ map FormatUint [a, b, c, d]"
    using assms by (metis append_take_drop_id)
  then show ?thesis
    unfolding sid_text_def by (metis Join_Split)
qed

text \<open>
  The two validators look at the same eight parts; this is what either asks of the last four.
\<close>

definition sid_shape :: "string \<Rightarrow> bool" where
  "sid_shape s \<longleftrightarrow>
     (\<exists>a b c d. a < 2 ^ 32 \<and> b < 2 ^ 32 \<and> c < 2 ^ 32 \<and> 1000 \<le> d \<and> d < 2 ^ 32 \<and> s = sid_text a b c d)"

lemma ValidWindowsAccountSID_shape: "ValidWindowsAccountSID sid \<longleftrightarrow> sid_shape sid"
proof
  assume R: "sid_shape sid"
  then obtain a b c d where "a < 2 ^ 32" "b < 2 ^ 32" "c < 2 ^ 32" "1000 \<le> d" "d < 2 ^ 32"
    and s: "sid = sid_text a b c d" unfolding sid_shape_def by blast
  then show "ValidWindowsAccountSID sid"
    using length_sid_text [of a b c d]
    by (simp add: ValidWindowsAccountSID_def s Split_sid_text upt_rec del: power_numeral)
next
  assume L: "ValidWindowsAccountSID sid"
  then have len: "length (Split (CHR ''-'') sid) = 8"
    by (simp add: ValidWindowsAccountSID_def Let_def)
  have pre: "take 4 (Split (CHR ''-'') sid) = [''S'', ''1'', ''5'', ''21'']"
    using L by (intro Split_prefix4) (simp add: ValidWindowsAccountSID_def Let_def)
  from list8_cases [OF len] obtain q0 q1 q2 q3 p1 p2 p3 p4 where
    sp: "Split (CHR ''-'') sid = [q0, q1, q2, q3, p1, p2, p3, p4]" by blast
  from L sp obtain a b c d where
    abcd: "canonical32 p1 = Some a" "canonical32 p2 = Some b" "canonical32 p3 = Some c"
      "canonical32 p4 = Some d" "1000 \<le> d"
    by (auto simp: ValidWindowsAccountSID_def canonical32_def upt_rec split: option.splits)
  then have "sid = sid_text a b c d"
    using len pre sp by (intro sid_parts) (auto simp: canonical32_iff)
  with abcd show "sid_shape sid"
    unfolding sid_shape_def canonical32_iff by blast
qed

lemma vcw_valid_windows_account_sid_shape: "vcw_valid_windows_account_sid sid \<longleftrightarrow> sid_shape sid"
proof
  assume R: "sid_shape sid"
  then obtain a b c d where bd: "a < 2 ^ 32" "b < 2 ^ 32" "c < 2 ^ 32" "1000 \<le> d" "d < 2 ^ 32"
    and s: "sid = sid_text a b c d" unfolding sid_shape_def by blast
  have dec: "sql_decimal (FormatUint v) \<and> v \<le> 4294967295" if "v < 2 ^ 32" for v
    using sql_decimal_canonical [of "FormatUint v"] that by auto
  have "FormatUint d \<noteq> ''0''"
    using bd FormatUint_inject [of d 0] by simp
  with bd dec [of a] dec [of b] dec [of c] dec [of d]
  show "vcw_valid_windows_account_sid sid"
    by (simp add: vcw_valid_windows_account_sid_def s Split_sid_text del: power_numeral FormatUint_inject)
next
  assume L: "vcw_valid_windows_account_sid sid"
  then have len: "length (Split (CHR ''-'') sid) = 8"
    and pre: "take 4 (Split (CHR ''-'') sid) = [''S'', ''1'', ''5'', ''21'']"
    by (simp_all add: vcw_valid_windows_account_sid_def Let_def)
  from list8_cases [OF len] obtain q0 q1 q2 q3 p1 p2 p3 p4 where
    sp: "Split (CHR ''-'') sid = [q0, q1, q2, q3, p1, p2, p3, p4]" by blast
  from L sp have "\<exists>v < 2 ^ 32. p = FormatUint v" if "p \<in> {p1, p2, p3, p4}" for p
    using that sql_decimal_canonical [of p]
    by (auto simp: vcw_valid_windows_account_sid_def simp del: power_numeral)
  then obtain a b c d where
    abcd: "a < 2 ^ 32" "p1 = FormatUint a" "b < 2 ^ 32" "p2 = FormatUint b"
      "c < 2 ^ 32" "p3 = FormatUint c" "d < 2 ^ 32" "p4 = FormatUint d"
    by (metis insertI1 insertI2)
  have "sid = sid_text a b c d"
    using len pre sp abcd by (intro sid_parts) auto
  moreover have "1000 \<le> d"
    using L sp abcd by (simp add: vcw_valid_windows_account_sid_def)
  ultimately show "sid_shape sid"
    using abcd unfolding sid_shape_def by blast
qed


section \<open>Session identifiers\<close>

lemma colon_not_digit: "\<not> is_digit (CHR '':'')"
  by (simp add: is_digit_def in_range_def)

definition linux_session_text :: "32 word \<Rightarrow> nat \<Rightarrow> string \<Rightarrow> string" where
  "linux_session_text uid pid display = linux_session_prefix uid @ FormatUint pid @ CHR '':'' # display"

lemma linux_session_text_valid:
  assumes "0 < pid" "pid < 2 ^ 32" "length display \<le> 16" "linuxDisplay display"
    "managedUser u" "instance_re i" "1000 \<le> uid" "length (linux_session_text uid pid display) \<le> 128"
  shows "ValidSession ''linux'' u uid [] (linux_session_text uid pid display) i"
  using assms
  by (simp add: ValidSession_def ValidAccount_def linux_session_text_def CutPrefix_def
      FormatUint_no_char [OF colon_not_digit] del: power_numeral)

lemma ValidSession_linux_shape:
  "ValidSession ''linux'' u uid sid s i \<longleftrightarrow>
     managedUser u \<and> instance_re i \<and> 1000 \<le> uid \<and> sid = [] \<and> length s \<le> 128 \<and>
     (\<exists>pid display. 0 < pid \<and> pid < 2 ^ 32 \<and> length display \<le> 16 \<and> linuxDisplay display \<and>
        s = linux_session_text uid pid display)"
proof (intro iffI)
  assume L: "ValidSession ''linux'' u uid sid s i"
  then obtain rest where rest: "s = linux_session_prefix uid @ rest"
    by (auto simp: ValidSession_def CutPrefix_def Let_def dest: HasPrefixD
        split: prod.splits option.splits if_splits)
  obtain pid display found where cut: "Cut (CHR '':'') rest = (pid, display, found)"
    by (cases "Cut (CHR '':'') rest")
  from L rest cut obtain v where
    v: "found" "canonical32 pid = Some v" "0 < v" "length display \<le> 16" "linuxDisplay display"
    by (auto simp: ValidSession_def CutPrefix_def canonical32_def split: option.splits if_splits)
  then have "s = linux_session_text uid v display"
    using rest cut by (auto simp: linux_session_text_def canonical32_iff dest: CutD)
  with v L show "managedUser u \<and> instance_re i \<and> 1000 \<le> uid \<and> sid = [] \<and> length s \<le> 128 \<and>
     (\<exists>pid display. 0 < pid \<and> pid < 2 ^ 32 \<and> length display \<le> 16 \<and> linuxDisplay display \<and>
        s = linux_session_text uid pid display)"
    by (auto simp: ValidSession_def ValidAccount_def canonical32_iff split: if_splits)
qed (auto intro: linux_session_text_valid)

lemma append_colon_inject:
  "c \<notin> set a \<Longrightarrow> c \<notin> set b \<Longrightarrow> a @ c # s = b @ c # t \<longleftrightarrow> a = b \<and> s = t"
proof (induction a arbitrary: b)
  case Nil
  then show ?case by (cases b) auto
next
  case (Cons x a)
  then show ?case by (cases b) auto
qed

text \<open>A Linux session identifier names one UID, one process and one display.\<close>

lemma linux_session_text_inject:
  "linux_session_text uid pid d = linux_session_text uid' pid' d' \<longleftrightarrow> uid = uid' \<and> pid = pid' \<and> d = d'"
  using FormatUint_no_char [OF colon_not_digit]
  by (auto simp: linux_session_text_def linux_session_prefix_def append_colon_inject
      word_unat_eq_iff)

lemma hex16_facts:
  assumes "v < 2 ^ 64"
  shows "length (hex16 v) = 16" "ParseUint 16 64 (hex16 v) = Some v" "CHR '':'' \<notin> set (hex16 v)"
proof -
  have len: "length (FormatBase 16 v) \<le> 16"
    using length_FormatBase [of 16 v 15] assms by simp
  then show l16: "length (hex16 v) = 16"
    by (simp add: hex16_def Let_def)
  have zeros: "parse_from 16 0 (replicate n (CHR ''0'') @ s) = parse_from 16 0 s" for n s
    by (induction n) (auto simp: digit_value_def is_digit_def in_range_def)
  have "parse_from 16 0 (hex16 v) = Some v"
    by (simp add: hex16_def Let_def zeros parse_from_FormatBase)
  then show "ParseUint 16 64 (hex16 v) = Some v"
    using assms l16 by (auto simp: ParseUint_def simp del: power_numeral)
  have "b = 16 \<Longrightarrow> list_all is_lower_hex (FormatBase b n)" for b n
  proof (induction b n rule: FormatBase.induct)
    case (1 b n)
    then show ?case by (subst FormatBase.simps) auto
  qed
  then have "list_all is_lower_hex (FormatBase 16 v)" by simp
  moreover have "\<not> is_lower_hex (CHR '':'')"
    by (simp add: is_lower_hex_def is_digit_def in_range_def)
  ultimately show "CHR '':'' \<notin> set (hex16 v)"
    by (auto simp: hex16_def Let_def list_all_iff)
qed

definition windows_session_text :: "nat \<Rightarrow> nat \<Rightarrow> string" where
  "windows_session_text i luid = ''windows:'' @ FormatUint i @ CHR '':'' # hex16 luid"

lemma hex16_0: "hex16 0 = ''0000000000000000''"
  by (simp add: hex16_def FormatBase.simps digit_char_0 Let_def numeral_eq_Suc)

lemma Split2_cases: "length ps = 2 \<Longrightarrow> \<exists>a b. ps = [a, b]"
  by (auto simp: length_Suc_conv eval_nat_numeral)

lemma windows_session_text_valid:
  assumes "0 < i" "i < 2 ^ 32" "0 < luid" "luid < 2 ^ 64"
  shows "ValidWindowsLogonBinding (windows_session_text i luid)"
proof -
  have sp: "Split (CHR '':'') (FormatUint i @ CHR '':'' # hex16 luid) = [FormatUint i, hex16 luid]"
    using hex16_facts [OF assms(4)] FormatUint_no_char [OF colon_not_digit, of i]
    by (simp add: Split_append_sep Split_no_sep)
  have nz: "hex16 luid \<noteq> ''0000000000000000''"
    using hex16_facts(2) [OF assms(4)] hex16_facts(2) [of 0] assms(3) hex16_0 by auto
  have "length (FormatUint i) \<le> 10" using length_FormatUint32 assms by blast
  then show ?thesis
    using assms sp nz hex16_facts [OF assms(4)]
    by (simp add: ValidWindowsLogonBinding_def windows_session_text_def CutPrefix_def HasPrefix_def
        del: power_numeral)
qed

lemma ValidWindowsLogonBinding_shape:
  "ValidWindowsLogonBinding s \<longleftrightarrow>
     (\<exists>i luid. 0 < i \<and> i < 2 ^ 32 \<and> 0 < luid \<and> luid < 2 ^ 64 \<and> s = windows_session_text i luid)"
proof
  assume L: "ValidWindowsLogonBinding s"
  then obtain rest where rest: "s = ''windows:'' @ rest"
    by (auto simp: ValidWindowsLogonBinding_def CutPrefix_def Let_def dest: HasPrefixD
        split: prod.splits option.splits if_splits)
  from L rest have two: "length (Split (CHR '':'') rest) = 2"
    by (simp add: ValidWindowsLogonBinding_def CutPrefix_def HasPrefix_def Let_def)
  from Split2_cases [OF two] obtain a b where ab: "Split (CHR '':'') rest = [a, b]" by blast
  from L rest ab obtain i luid where
    il: "canonical32 a = Some i" "i \<noteq> 0" "ParseUint 16 64 b = Some luid" "hex16 luid = b"
      "b \<noteq> ''0000000000000000''"
    by (auto simp: ValidWindowsLogonBinding_def CutPrefix_def HasPrefix_def canonical32_def
        split: option.splits)
  have "luid \<noteq> 0" using il by (metis hex16_0)
  moreover have "rest = a @ CHR '':'' # b" using Join_Split [of "CHR '':''" rest] ab by simp
  moreover have "luid < 2 ^ 64" using il(3) by (rule ParseUint_bound)
  ultimately show "\<exists>i luid. 0 < i \<and> i < 2 ^ 32 \<and> 0 < luid \<and> luid < 2 ^ 64 \<and> s = windows_session_text i luid"
    using il rest by (intro exI [of _ i] exI [of _ luid])
      (auto simp: canonical32_iff windows_session_text_def)
qed (auto intro: windows_session_text_valid)

section \<open>Properties\<close>

text \<open>
  C39. The Go validator of Windows account SIDs and the PL/pgSQL function behind the database's CHECK
  constraints accept the same strings: the canonical texts of four 32-bit numbers after
  the prefix S-1-5-21, the last of them at least 1000.
\<close>

theorem sid_validators_agree:
  "(ValidWindowsAccountSID sid \<longleftrightarrow> vcw_valid_windows_account_sid sid) \<and>
   (ValidWindowsAccountSID sid \<longleftrightarrow>
     (\<exists>a b c d. a < 2 ^ 32 \<and> b < 2 ^ 32 \<and> c < 2 ^ 32 \<and> 1000 \<le> d \<and> d < 2 ^ 32 \<and> sid = sid_text a b c d))"
  by (simp add: ValidWindowsAccountSID_shape vcw_valid_windows_account_sid_shape sid_shape_def)

lemma ValidSession_platform: "ValidSession p u uid sid s i \<Longrightarrow> p = ''linux'' \<or> p = ''windows''"
  by (auto simp: ValidSession_def ValidAccount_def split: if_splits)

lemma ValidSession_windows:
  "ValidSession ''windows'' u uid sid s i \<Longrightarrow> uid = 0 \<and> (\<exists>k luid. s = windows_session_text k luid)"
  by (auto simp: ValidSession_def ValidAccount_def ValidWindowsLogonBinding_shape split: if_splits)

lemma session_text_platform: "linux_session_text uid pid display \<noteq> windows_session_text k luid"
  by (simp add: linux_session_text_def linux_session_prefix_def windows_session_text_def)

text \<open>
  A session identifier that passes validation names one platform and one Linux account: the same
  identifier is never valid for a Linux and a Windows session, nor for two different user ids.
\<close>

theorem session_id_identifies_account:
  assumes "ValidSession p u uid sid s i" "ValidSession p' u' uid' sid' s i'"
  shows "p = p' \<and> uid = uid'"
proof -
  have linux: "\<exists>pid display. s = linux_session_text uid pid display"
    if "ValidSession ''linux'' u uid sid s i" for u uid sid i
    using that unfolding ValidSession_linux_shape by blast
  consider "p = ''linux''" "p' = ''linux''" | "p = ''windows''" "p' = ''windows''"
    | "p = ''linux''" "p' = ''windows''" | "p = ''windows''" "p' = ''linux''"
    using ValidSession_platform assms by blast
  then show ?thesis
  proof cases
    case 1
    then obtain a b c e where "s = linux_session_text uid a b" "s = linux_session_text uid' c e"
      using linux assms by blast
    with 1 show ?thesis by (simp add: linux_session_text_inject)
  next
    case 2
    then show ?thesis using ValidSession_windows assms by blast
  next
    case 3
    then show ?thesis
      using ValidSession_windows [of u' uid' sid' s i'] linux [of u uid sid i] session_text_platform assms by auto
  next
    case 4
    then show ?thesis
      using ValidSession_windows [of u uid sid s i] linux [of u' uid' sid' i'] session_text_platform assms by auto
  qed
qed

theorem session_id_identifies_account_witness:
  "ValidSession ''linux'' ''vca0123456789ab'' 1200 [] ''linux:1200:77::1'' (replicate 64 (CHR ''a'')) \<and>
   (\<forall>uid'. ValidSession ''linux'' ''vca0123456789ab'' uid' [] ''linux:1200:77::1'' (replicate 64 (CHR ''a''))
      = (uid' = 1200))"
proof -
  have ok: "ValidSession ''linux'' ''vca0123456789ab'' 1200 [] ''linux:1200:77::1'' (replicate 64 (CHR ''a''))"
  proof -
    have "managedUser ''vca0123456789ab''" "instance_re (replicate 64 (CHR ''a''))" "linuxDisplay '':1''"
      "linux_session_text 1200 77 '':1'' = ''linux:1200:77::1''" "(1000 :: 32 word) \<le> 1200"
      by code_simp+
    then show ?thesis
      by (auto simp: ValidSession_linux_shape intro!: exI [of _ 77] exI [of _ "'':1''"])
  qed
  then show ?thesis using session_id_identifies_account [OF ok] by blast
qed

end
