(* ===== verification/Store_Schema.thy ===== *)
theory Store_Schema
  imports Guest_Identity
begin

text \<open>
  The relational state of the control plane (src/internal/store): one record per table row, with the
  columns of the migrations, and the record \<open>db\<close> of all tables.  The Go structs of store.go are these
  rows; a column a struct leaves out is bookkeeping no caller reads.  A text column with a CHECK
  list, or one that only ever holds constants of the code, is a datatype; a nullable column is an
  option; a \<open>bigint\<close> is an \<open>int\<close>; a \<open>bytea\<close> is its list of bytes.  The views and the access
  predicates that the statements of several components share are here too.
\<close>

section \<open>Column types\<close>

datatype user_role = PlatformAdmin | RoleUser
datatype os_family = OsLinux | OsWindows | OsUnknown
datatype access_mode = Personal | Shared
datatype identity_state = IdentityPending | IdentityApplied | IdentityRestartRequired | IdentityFailed
datatype group_source = SourceLocal | SourceOidc | SourceScim
datatype profile_mode = ManagedLocal | LinuxSssdAd | LinuxSssdFreeipa | LinuxSssdLdap | LinuxSssdOidc
  | WindowsAd | WindowsEntra
datatype binding_state = BindProvisioning | BindReady | BindFailed | BindDisabled
datatype conn_state = ConnActive | ConnRevoking | ConnRevoked | ConnExpired
datatype revoke_reason = AccessRemoved | CredentialRevoked | ExpiredReason
datatype lease_state = LeaseActive | LeaseReleased | LeaseRevoked | LeaseExpired
datatype agent_session_state = AgentProvisioning | AgentReady | AgentRevoking | AgentDisabled
datatype native_op = OpNone | OpIssue | OpRetire | OpRevoke
datatype native_state = NativeIdle | NativePending | NativeApplied
datatype policy_state = PolicyPending | PolicyApplied | PolicyFailed
datatype privilege_mode = PrivStandard | PrivLocalAdmin

fun os_text :: "os_family \<Rightarrow> string" where
  "os_text OsLinux = ''linux''"
| "os_text OsWindows = ''windows''"
| "os_text OsUnknown = ''unknown''"

section \<open>Rows\<close>

record User =
  u_id :: string
  u_username :: string
  u_username_normalized :: string
  u_display_name :: string
  u_password_hash :: "string option"
  u_role :: user_role
  u_disabled :: bool
  u_created_at :: time
  u_updated_at :: time

record WebSession =
  ws_token_digest :: string
  ws_user_id :: string
  ws_csrf_token :: string
  ws_expires_at :: time
  ws_created_at :: time
  ws_last_seen_at :: time

record NativeSession =
  ns_token_digest :: string
  ns_user_id :: string
  ns_expires_at :: time
  ns_created_at :: time
  ns_last_seen_at :: time

record NativeAuthCode =
  nc_code_digest :: string
  nc_user_id :: string
  nc_expires_at :: time
  nc_created_at :: time

record APIToken =
  at_id :: string
  at_user_id :: string
  at_name :: string
  at_token_digest :: string
  at_expires_at :: time
  at_created_at :: time
  at_last_used_at :: "time option"

record ManagedDesktop =
  md_vmid :: int
  md_display_name :: string
  md_node :: string
  md_os_family :: os_family
  md_present :: bool
  md_enabled :: bool
  md_access_mode :: access_mode
  md_owner_user_id :: "string option"
  md_identity_profile_id :: "string option"
  md_identity_state :: identity_state
  md_applied_identity_profile_id :: "string option"
  md_identity_last_error :: string
  md_identity_updated_at :: time
  md_first_seen_at :: time
  md_last_seen_at :: time
  md_updated_at :: time

record AgentPrincipal =
  ap_id :: string
  ap_display_name :: string
  ap_token_digest :: "string option"
  ap_enabled :: bool
  ap_created_by :: "string option"
  ap_created_at :: time
  ap_updated_at :: time
  ap_last_used_at :: "time option"

text \<open>A row of the user, agent or group assignment table: the subject and the desktop.\<close>

record Assignment =
  as_subject_id :: string
  as_desktop_vmid :: int
  as_created_by :: "string option"
  as_created_at :: time

record IdentityGroup =
  g_id :: string
  g_provider_id :: "string option"
  g_external_id :: "string option"
  g_display_name :: string
  g_source :: group_source
  g_enabled :: bool
  g_created_by :: "string option"
  g_created_at :: time
  g_updated_at :: time

record IdentityGroupMembership =
  m_group_id :: string
  m_user_id :: string
  m_source :: group_source
  m_created_at :: time
  m_updated_at :: time

record IdentityProfile =
  ip_id :: string
  ip_display_name :: string
  ip_platform :: os_family
  ip_mode :: profile_mode
  ip_enabled :: bool
  ip_experimental :: bool
  ip_config :: string
  ip_created_by :: "string option"
  ip_created_at :: time
  ip_updated_at :: time

record GuestIdentityBinding =
  b_desktop_vmid :: int
  b_user_id :: string
  b_profile_id :: "string option"
  b_guest_username :: string
  b_state :: binding_state
  b_last_error :: string
  b_session_expires_at :: "time option"
  b_created_at :: time
  b_updated_at :: time

record DesktopConnectionSession =
  c_id :: string
  c_user_id :: string
  c_desktop_vmid :: int
  c_guest_username :: string
  c_state :: conn_state
  c_expires_at :: time
  c_created_at :: time
  c_updated_at :: time
  c_closed_at :: "time option"
  c_termination_required :: bool
  c_native_session_digest :: "string option"

record GuestIdentityRevocation =
  r_desktop_vmid :: int
  r_user_id :: string
  r_guest_username :: string
  r_requested_revision :: int
  r_completed_revision :: int
  r_reason :: revoke_reason
  r_last_error :: string
  r_updated_at :: time

record DesktopLease =
  l_id :: string
  l_agent_id :: string
  l_desktop_id :: string
  l_state :: lease_state
  l_control_epoch :: int
  l_expires_at :: time
  l_created_at :: time
  l_updated_at :: time

record ComputerEpoch =
  e_desktop_vmid :: int
  e_control_epoch :: int
  e_updated_at :: time

record ComputerRevocation =
  cr_desktop_vmid :: int
  cr_requested_revision :: int
  cr_completed_revision :: int
  cr_control_epoch :: int
  cr_updated_at :: time

record AgentGuestSession =
  s_desktop_vmid :: int
  s_agent_id :: string
  s_guest_username :: string
  s_os_family :: os_family
  s_lease_id :: string
  s_control_epoch :: int
  s_generation :: int
  s_login_generation :: int
  s_state :: agent_session_state
  s_guest_uid :: "32 word"
  s_guest_sid :: string
  s_session_id :: string
  s_instance_id :: string
  s_expires_at :: time
  s_updated_at :: time

record NativeGuestAccount =
  na_desktop_vmid :: int
  na_user_id :: string
  na_guest_username :: string
  na_os_family :: os_family
  na_guest_uid :: "32 word"
  na_guest_sid :: string
  na_revision :: int
  na_operation :: native_op
  na_state :: native_state
  na_connection_id :: string
  na_expires_at :: "time option"
  na_native_session_digest :: "string option"
  na_created_at :: time
  na_updated_at :: time

record NativeCredentialId =
  ci_connection_id :: string
  ci_desktop_vmid :: int
  ci_user_id :: string
  ci_revision :: int

record NativeGuestRecovery =
  rc_id :: string
  rc_desktop_vmid :: int
  rc_user_id :: string
  rc_actor_user_id :: string
  rc_reason :: string
  rc_previous_revision :: int
  rc_previous_connection_id :: string
  rc_recovered_revision :: int
  rc_recovered_connection_id :: string
  rc_created_at :: time

record GatewayTicketRow =
  t_token_digest :: string
  t_connection_id :: string
  t_gateway_id :: string
  t_target_host :: "32 word"
  t_target_port :: int
  t_certificate_sha256 :: string
  t_policy_revision :: int
  t_created_at :: time
  t_expires_at :: time
  t_session_deadline :: time
  t_tunnel_id :: "string option"
  t_consumed_at :: "time option"
  t_lease_until :: "time option"
  t_closed_at :: "time option"

record DesktopAccessPolicy =
  p_vmid :: int
  p_privilege_mode :: privilege_mode
  p_clipboard_redirection :: bool
  p_drive_redirection :: bool
  p_managed_background :: bool
  p_desired_revision :: int
  p_applied_revision :: int
  p_state :: policy_state
  p_os_family :: os_family
  p_last_error :: string
  p_updated_by :: "string option"
  p_created_at :: time
  p_updated_at :: time

record Job =
  j_id :: string
  j_idempotency_key :: string
  j_operation :: string
  j_state :: string
  j_source_vmid :: "int option"
  j_target_vmid :: "int option"
  j_target_node :: "string option"
  j_task_node :: "string option"
  j_upid :: "string option"
  j_request :: string
  j_progress :: int
  j_detail :: string
  j_error :: "string option"
  j_created_by :: "string option"
  j_request_fingerprint :: string
  j_created_at :: time
  j_updated_at :: time

record OIDCRequestRow =
  oq_state_digest :: string
  oq_nonce :: string
  oq_pkce_verifier :: string
  oq_client_kind :: string
  oq_expires_at :: time

record OIDCProvider =
  op_id :: string
  op_name :: string
  op_issuer :: string
  op_client_id :: string
  op_enabled :: bool

record ExternalIdentity =
  xi_provider_id :: string
  xi_subject :: string
  xi_user_id :: string

text \<open>
  An audit event: the actor, the type, whether it reports success, the target and the detail, a
  JSON value (objects as lists of fields, numbers as the integers the callers put there).
\<close>

datatype audit_value = ANull | ABool bool | AInt int | AText string | AList "audit_value list" | AObj "(string \<times> audit_value) list"

record AuditEvent =
  ae_id :: int
  ae_actor_id :: "string option"
  ae_event_type :: string
  ae_outcome :: string
  ae_target_type :: "string option"
  ae_target_id :: "string option"
  ae_detail :: audit_value
  ae_occurred_at :: time

section \<open>The database\<close>

record db =
  users :: "User list"
  web_sessions :: "WebSession list"
  native_sessions :: "NativeSession list"
  native_auth_codes :: "NativeAuthCode list"
  api_tokens :: "APIToken list"
  oidc_auth_requests :: "OIDCRequestRow list"
  oidc_providers :: "OIDCProvider list"
  external_identities :: "ExternalIdentity list"
  managed_desktops :: "ManagedDesktop list"
  agent_principals :: "AgentPrincipal list"
  user_desktop_assignments :: "Assignment list"
  agent_desktop_assignments :: "Assignment list"
  group_desktop_assignments :: "Assignment list"
  identity_groups :: "IdentityGroup list"
  identity_group_memberships :: "IdentityGroupMembership list"
  identity_profiles :: "IdentityProfile list"
  guest_identity_bindings :: "GuestIdentityBinding list"
  desktop_connection_sessions :: "DesktopConnectionSession list"
  guest_identity_revocations :: "GuestIdentityRevocation list"
  desktop_leases :: "DesktopLease list"
  desktop_computer_epochs :: "ComputerEpoch list"
  desktop_computer_revocations :: "ComputerRevocation list"
  agent_guest_sessions :: "AgentGuestSession list"
  native_guest_accounts :: "NativeGuestAccount list"
  native_guest_credential_ids :: "NativeCredentialId list"
  native_guest_recoveries :: "NativeGuestRecovery list"
  gateway_session_tickets :: "GatewayTicketRow list"
  desktop_access_policies :: "DesktopAccessPolicy list"
  pve_jobs :: "Job list"
  audit_events :: "AuditEvent list"

definition empty_db :: db where
  "empty_db = \<lparr>users = [], web_sessions = [], native_sessions = [], native_auth_codes = [],
     api_tokens = [], oidc_auth_requests = [], oidc_providers = [], external_identities = [],
     managed_desktops = [], agent_principals = [], user_desktop_assignments = [],
     agent_desktop_assignments = [], group_desktop_assignments = [], identity_groups = [],
     identity_group_memberships = [], identity_profiles = [], guest_identity_bindings = [],
     desktop_connection_sessions = [], guest_identity_revocations = [], desktop_leases = [],
     desktop_computer_epochs = [], desktop_computer_revocations = [], agent_guest_sessions = [],
     native_guest_accounts = [], native_guest_credential_ids = [], native_guest_recoveries = [],
     gateway_session_tickets = [], desktop_access_policies = [], pve_jobs = [], audit_events = []\<rparr>"

text \<open>\<open>INSERT INTO audit_events\<close>: the identifier is the next of the sequence.\<close>

definition insert_audit ::
  "time \<Rightarrow> string option \<Rightarrow> string \<Rightarrow> string \<Rightarrow> string option \<Rightarrow> string option \<Rightarrow>
   audit_value \<Rightarrow> db \<Rightarrow> db" where
  "insert_audit now actor event_type outcome target_type target_id detail d =
     d\<lparr>audit_events := audit_events d @
         [\<lparr>ae_id = int (length (audit_events d)) + 1, ae_actor_id = actor, ae_event_type = event_type,
           ae_outcome = outcome, ae_target_type = target_type, ae_target_id = target_id,
           ae_detail = detail, ae_occurred_at = now\<rparr>]\<rparr>"

section \<open>Access predicates\<close>

text \<open>\<open>desktop_clone_ready\<close> (031_clone_access_fence.sql).\<close>

definition desktop_clone_ready :: "db \<Rightarrow> int \<Rightarrow> bool" where
  "desktop_clone_ready d vmid \<longleftrightarrow>
     \<not> list_ex (\<lambda>j. j_target_vmid j = Some vmid \<and> j_operation j = ''pve.template_clone'' \<and>
                    j_state j \<noteq> ''succeeded'') (pve_jobs d)"

text \<open>The view \<open>effective_user_desktop_access\<close> (031_clone_access_fence.sql).\<close>

definition group_grants :: "db \<Rightarrow> string \<Rightarrow> int \<Rightarrow> bool" where
  "group_grants d uid vmid \<longleftrightarrow>
     list_ex (\<lambda>a. as_desktop_vmid a = vmid \<and>
       list_ex (\<lambda>g. g_id g = as_subject_id a \<and> g_enabled g \<and>
         list_ex (\<lambda>m. m_group_id m = g_id g \<and> m_user_id m = uid) (identity_group_memberships d))
       (identity_groups d)) (group_desktop_assignments d)"

definition desktop_grants :: "db \<Rightarrow> string \<Rightarrow> ManagedDesktop \<Rightarrow> bool" where
  "desktop_grants d uid m \<longleftrightarrow>
     (md_access_mode m = Personal \<and> md_owner_user_id m = Some uid) \<or>
     (md_access_mode m = Shared \<and>
       (list_ex (\<lambda>a. as_subject_id a = uid \<and> as_desktop_vmid a = md_vmid m) (user_desktop_assignments d) \<or>
        group_grants d uid (md_vmid m)))"

definition effective_user_desktop_access :: "db \<Rightarrow> string \<Rightarrow> int \<Rightarrow> bool" where
  "effective_user_desktop_access d uid vmid \<longleftrightarrow>
     list_ex (\<lambda>u. u_id u = uid \<and> \<not> u_disabled u) (users d) \<and>
     list_ex (\<lambda>m. md_vmid m = vmid \<and> md_present m \<and> md_enabled m \<and> desktop_clone_ready d vmid \<and>
                  desktop_grants d uid m) (managed_desktops d)"

text \<open>
  The join that guards every agent operation: an assignment of an enabled agent to a desktop that is
  enabled, present and not the target of an unsettled clone.
\<close>

definition agent_desktop_access :: "db \<Rightarrow> string \<Rightarrow> (ManagedDesktop \<Rightarrow> bool) \<Rightarrow> bool" where
  "agent_desktop_access d aid on_desktop \<longleftrightarrow>
     list_ex (\<lambda>a. as_subject_id a = aid \<and>
       list_ex (\<lambda>p. ap_id p = aid \<and> ap_enabled p) (agent_principals d) \<and>
       list_ex (\<lambda>m. md_vmid m = as_desktop_vmid a \<and> on_desktop m \<and> md_enabled m \<and> md_present m \<and>
                    desktop_clone_ready d (md_vmid m)) (managed_desktops d))
     (agent_desktop_assignments d)"

definition identity_revocation_pending :: "db \<Rightarrow> int \<Rightarrow> bool" where
  "identity_revocation_pending d vmid \<longleftrightarrow>
     list_ex (\<lambda>q. r_desktop_vmid q = vmid \<and> r_completed_revision q < r_requested_revision q)
       (guest_identity_revocations d)"

definition computer_revocation_pending :: "db \<Rightarrow> int \<Rightarrow> bool" where
  "computer_revocation_pending d vmid \<longleftrightarrow>
     list_ex (\<lambda>q. cr_desktop_vmid q = vmid \<and> cr_completed_revision q < cr_requested_revision q)
       (desktop_computer_revocations d)"

definition conn_open :: "DesktopConnectionSession \<Rightarrow> bool" where
  "conn_open c \<longleftrightarrow> c_state c = ConnActive \<or> c_state c = ConnRevoking"

text \<open>A native account that reserves its desktop: work pending, or a credential issued.\<close>

definition native_reserves :: "NativeGuestAccount \<Rightarrow> bool" where
  "native_reserves a \<longleftrightarrow>
     na_state a = NativePending \<or> (na_operation a = OpIssue \<and> na_state a = NativeApplied)"

definition managed_local_profile :: "os_family \<Rightarrow> string" where
  "managed_local_profile os = ''managed-local-'' @ os_text os"

text \<open>\<open>COALESCE(x, 'managed-local-' || os_family)\<close>\<close>

definition profile_or_default :: "string option \<Rightarrow> os_family \<Rightarrow> string" where
  "profile_or_default x os = (case x of Some p \<Rightarrow> p | None \<Rightarrow> managed_local_profile os)"

end
