(* ===== verification/Sha256.thy ===== *)
theory Sha256
  imports Go_Strings "HOL-Library.Word"
begin

unbundle bit_operations_syntax

text \<open>
  \<open>crypto/sha256.Sum256\<close> and \<open>encoding/hex.EncodeToString\<close> of Go's standard library, on lists of
  bytes: the hash of FIPS 180-4 over 32-bit words, and lower-case hexadecimal.  The code derives
  guest account names and token digests from them.
\<close>

section \<open>The hash function\<close>

type_synonym u32 = "32 word"

text \<open>
  The standard derives its constants: the round constants are the first 32 bits of the fractional parts
  of the cube roots of the first 64 primes, the initial state those of the square roots of the first
  eight.  \<open>frac_root k p\<close> computes them, one bit of the root at a time.
\<close>

definition small_primes :: "nat list" where
  "small_primes = filter (\<lambda>n. list_all (\<lambda>d. n mod d \<noteq> 0) [2..<n]) [2..<312]"

definition frac_root :: "nat \<Rightarrow> nat \<Rightarrow> u32" where
  "frac_root k p =
     word_of_nat (fold (\<lambda>i r. if (r + 2 ^ i) ^ k \<le> p * 2 ^ (32 * k) then r + 2 ^ i else r) (rev [0..<37]) 0)"

definition sha_k :: "u32 list" where
  "sha_k = map (frac_root 3) small_primes"

type_synonym sha_state = "u32 \<times> u32 \<times> u32 \<times> u32 \<times> u32 \<times> u32 \<times> u32 \<times> u32"

definition sha_init :: sha_state where
  "sha_init =
     (frac_root 2 2, frac_root 2 3, frac_root 2 5, frac_root 2 7,
      frac_root 2 11, frac_root 2 13, frac_root 2 17, frac_root 2 19)"

definition byte_word :: "char \<Rightarrow> u32" where
  "byte_word c = word_of_nat (byte_of c)"

fun be_words :: "string \<Rightarrow> u32 list" where
  "be_words (a # b # c # d # s) =
     (push_bit 24 (byte_word a) OR push_bit 16 (byte_word b) OR push_bit 8 (byte_word c) OR byte_word d)
       # be_words s"
| "be_words _ = []"

definition be_bytes :: "u32 \<Rightarrow> string" where
  "be_bytes w = map (\<lambda>k. char_of (unat (drop_bit k w) mod 256)) [24, 16, 8, 0]"

text \<open>The message, the byte 0x80, zero bytes to 56 modulo 64, and the bit length in eight bytes.\<close>

definition sha_pad :: "string \<Rightarrow> string" where
  "sha_pad m =
     (let n = length m; z = (119 - n mod 64) mod 64; bits = 8 * n
      in m @ [CHR 0x80] @ replicate z (CHR 0x00) @
         map (\<lambda>k. char_of (bits div 2 ^ k mod 256)) [56, 48, 40, 32, 24, 16, 8, 0])"

text \<open>The message schedule, newest word first.\<close>

fun sha_schedule :: "nat \<Rightarrow> u32 list \<Rightarrow> u32 list" where
  "sha_schedule 0 ws = ws"
| "sha_schedule (Suc k) ws =
     (let w2 = ws ! 1; w7 = ws ! 6; w15 = ws ! 14; w16 = ws ! 15;
          s0 = word_rotr 7 w15 XOR word_rotr 18 w15 XOR drop_bit 3 w15;
          s1 = word_rotr 17 w2 XOR word_rotr 19 w2 XOR drop_bit 10 w2
      in sha_schedule k ((w16 + s0 + w7 + s1) # ws))"

definition sha_round :: "u32 \<times> u32 \<Rightarrow> sha_state \<Rightarrow> sha_state" where
  "sha_round kw st =
     (case kw of (k, w) \<Rightarrow> case st of (a, b, c, d, e, f, g, h) \<Rightarrow>
       let s1 = word_rotr 6 e XOR word_rotr 11 e XOR word_rotr 25 e;
           ch = (e AND f) XOR (NOT e AND g);
           t1 = h + s1 + ch + k + w;
           s0 = word_rotr 2 a XOR word_rotr 13 a XOR word_rotr 22 a;
           maj = (a AND b) XOR (a AND c) XOR (b AND c);
           t2 = s0 + maj
       in (t1 + t2, a, b, c, d + t1, e, f, g))"

definition sha_block :: "string \<Rightarrow> sha_state \<Rightarrow> sha_state" where
  "sha_block blk st =
     (let ws = rev (sha_schedule 48 (rev (be_words blk)))
      in case fold sha_round (zip sha_k ws) st of (a, b, c, d, e, f, g, h) \<Rightarrow>
         case st of (a0, b0, c0, d0, e0, f0, g0, h0) \<Rightarrow>
           (a0 + a, b0 + b, c0 + c, d0 + d, e0 + e, f0 + f, g0 + g, h0 + h))"

function sha_blocks :: "string \<Rightarrow> sha_state \<Rightarrow> sha_state" where
  "sha_blocks m st = (if m = [] then st else sha_blocks (drop 64 m) (sha_block (take 64 m) st))"
  by pat_completeness auto
termination
  by (relation "measure (length \<circ> fst)") auto

declare sha_blocks.simps [simp del]

definition Sum256 :: "string \<Rightarrow> string" where
  "Sum256 m =
     (case sha_blocks (sha_pad m) sha_init of (a, b, c, d, e, f, g, h) \<Rightarrow>
        concat (map be_bytes [a, b, c, d, e, f, g, h]))"

section \<open>Hexadecimal text\<close>

definition hex_byte :: "char \<Rightarrow> string" where
  "hex_byte c = [digit_char (byte_of c div 16), digit_char (byte_of c mod 16)]"

definition hex_encode :: "string \<Rightarrow> string" where
  "hex_encode s = concat (map hex_byte s)"

fun hex_decode :: "string \<Rightarrow> string option" where
  "hex_decode [] = Some []"
| "hex_decode [x] = None"
| "hex_decode (x # y # s) =
     (case (digit_value x, digit_value y, hex_decode s) of
        (Some a, Some b, Some r) \<Rightarrow> Some (char_of (a * 16 + b) # r)
      | _ \<Rightarrow> None)"

section \<open>Facts\<close>

lemma length_Sum256 [simp]: "length (Sum256 m) = 32"
  by (simp add: Sum256_def be_bytes_def split: prod.splits)

lemma length_hex_encode [simp]: "length (hex_encode s) = 2 * length s"
  by (induction s) (simp_all add: hex_encode_def hex_byte_def)

lemma hex_encode_lower_hex: "list_all is_lower_hex (hex_encode s)"
proof (induction s)
  case Nil
  then show ?case by (simp add: hex_encode_def)
next
  case (Cons c s)
  have "byte_of c div 16 < 16" "byte_of c mod 16 < 16"
    using nat_of_char_less_256 [of c] by (auto simp: less_mult_imp_div_less)
  with Cons show ?case by (simp add: hex_encode_def hex_byte_def)
qed

lemma hex_decode_encode [simp]: "hex_decode (hex_encode s) = Some s"
proof (induction s)
  case Nil
  then show ?case by (simp add: hex_encode_def)
next
  case (Cons c s)
  have "byte_of c div 16 < 16" "byte_of c mod 16 < 16"
    using nat_of_char_less_256 [of c] by (auto simp: less_mult_imp_div_less)
  moreover have "byte_of c div 16 * 16 + byte_of c mod 16 = byte_of c" by simp
  ultimately show ?case using Cons by (simp add: hex_encode_def hex_byte_def)
qed

end
