(* ===== verification/Computer_Authority.thy ===== *)
theory Computer_Authority
  imports Store_Schema Sha256
begin

text \<open>
  The authority of an agent over a desktop: leases (\<open>desktop_leases\<close>), the per-VM epoch counters
  (\<open>desktop_computer_epochs\<close>), the queue of Guest fencing work (\<open>desktop_computer_revocations\<close>) and
  the agent OS sessions (\<open>agent_guest_sessions\<close>), with the triggers of migrations 023 to 028 that tie
  the four tables together.

  \<open>update_leases\<close> is an \<open>UPDATE desktop_leases\<close>: the BEFORE triggers run row by row in the order of
  their names and see the epochs assigned to the rows before; the unique indexes are checked; then the
  AFTER triggers run for every row that was updated.  \<open>insert_lease\<close> and \<open>update_ags\<close> are the other two
  statements.  The invariant \<open>authority_inv\<close> holds in the empty database and is kept by all of them;
  under it closing leases cannot fail.
\<close>

section \<open>Agent guest sessions\<close>

text \<open>\<open>AgentGuestUsername\<close>: \<open>fmt.Sprintf("vca%x", digest[:6])\<close>.\<close>

definition AgentGuestUsername :: "string \<Rightarrow> string" where
  "AgentGuestUsername agentID = ''vca'' @ hex_encode (take 6 (Sum256 agentID))"

definition ags_open :: "AgentGuestSession \<Rightarrow> bool" where
  "ags_open s \<longleftrightarrow> s_state s = AgentProvisioning \<or> s_state s = AgentReady"

text \<open>
  The CHECK constraints on a row: those of 024_agent_guest_sessions.sql, the two that replaced its last
  one in 026, and \<open>agent_guest_ready_login\<close> of 027.
\<close>

definition sql_windows_session :: "string \<Rightarrow> bool" where
  "sql_windows_session s \<longleftrightarrow>
     (case Split (CHR '':'') s of
        [a, b, c] \<Rightarrow> a = ''windows'' \<and> b \<noteq> [] \<and> in_range 49 57 (hd b) \<and> list_all is_digit b \<and>
                     length c = 16 \<and> list_all is_lower_hex c
      | _ \<Rightarrow> False)"

definition agent_guest_account_identity :: "AgentGuestSession \<Rightarrow> bool" where
  "agent_guest_account_identity s \<longleftrightarrow>
     (s_os_family s = OsLinux \<and> s_guest_sid s = []) \<or>
     (s_os_family s = OsWindows \<and> s_guest_uid s = 0 \<and>
        (s_guest_sid s = [] \<or> vcw_valid_windows_account_sid (s_guest_sid s)))"

definition agent_guest_ready_identity :: "AgentGuestSession \<Rightarrow> bool" where
  "agent_guest_ready_identity s \<longleftrightarrow>
     s_state s \<noteq> AgentReady \<or>
     (s_session_id s \<noteq> [] \<and> instance_re (s_instance_id s) \<and>
       ((s_os_family s = OsLinux \<and> 1000 \<le> s_guest_uid s \<and>
           HasPrefix (s_session_id s) (linux_session_prefix (s_guest_uid s))) \<or>
        (s_os_family s = OsWindows \<and> vcw_valid_windows_account_sid (s_guest_sid s) \<and>
           sql_windows_session (s_session_id s))))"

definition ags_check :: "AgentGuestSession \<Rightarrow> bool" where
  "ags_check s \<longleftrightarrow>
     matches_class ''vca'' is_lower_hex 12 12 (s_guest_username s) \<and>
     0 < s_control_epoch s \<and> 0 < s_generation s \<and> 0 \<le> s_login_generation s \<and>
     (s_guest_uid s = 0 \<or> 1000 \<le> s_guest_uid s) \<and>
     agent_guest_account_identity s \<and> agent_guest_ready_identity s \<and>
     (s_state s \<noteq> AgentReady \<or> 0 < s_login_generation s)"

text \<open>The primary key and the three unique indexes of the table.\<close>

definition ags_unique :: "AgentGuestSession list \<Rightarrow> bool" where
  "ags_unique t \<longleftrightarrow>
     unique_by (\<lambda>s. (s_desktop_vmid s, s_agent_id s)) t \<and>
     unique_by (\<lambda>s. (s_desktop_vmid s, s_guest_username s)) t \<and>
     unique_by (\<lambda>s. (s_desktop_vmid s, s_guest_uid s)) (filter (\<lambda>s. 1000 \<le> s_guest_uid s) t) \<and>
     unique_by (\<lambda>s. (s_desktop_vmid s, s_guest_sid s)) (filter (\<lambda>s. s_guest_sid s \<noteq> []) t)"

text \<open>\<open>protect_agent_guest_account_binding\<close> (026)\<close>

definition protect_agent_guest_account_binding ::
  "AgentGuestSession \<Rightarrow> AgentGuestSession \<Rightarrow> err + unit" where
  "protect_agent_guest_account_binding old new =
     bindE (guardE (SqlErr CheckViolation)
       (s_desktop_vmid new = s_desktop_vmid old \<and> s_agent_id new = s_agent_id old \<and>
        s_guest_username new = s_guest_username old \<and> s_os_family new = s_os_family old)) (\<lambda>_.
     guardE (SqlErr CheckViolation)
       (\<not> ((s_guest_uid old \<noteq> 0 \<or> s_guest_sid old \<noteq> []) \<and>
           (s_guest_uid new \<noteq> s_guest_uid old \<or> s_guest_sid new \<noteq> s_guest_sid old))))"

text \<open>\<open>protect_cross_subject_guest_account\<close> (028), fired on \<open>agent_guest_sessions\<close>\<close>

definition same_os_identity :: "AgentGuestSession \<Rightarrow> NativeGuestAccount \<Rightarrow> bool" where
  "same_os_identity s a \<longleftrightarrow>
     na_desktop_vmid a = s_desktop_vmid s \<and>
     ((1000 \<le> s_guest_uid s \<and> na_guest_uid a = s_guest_uid s) \<or>
      (s_guest_sid s \<noteq> [] \<and> na_guest_sid a = s_guest_sid s))"

definition protect_cross_subject_agent :: "db \<Rightarrow> AgentGuestSession \<Rightarrow> err + unit" where
  "protect_cross_subject_agent d new =
     (if s_guest_uid new = 0 \<and> s_guest_sid new = [] then Inr ()
      else guardE (SqlErr UniqueViolation) (\<not> list_ex (same_os_identity new) (native_guest_accounts d)))"

text \<open>\<open>protect_agent_login_generation\<close> (027)\<close>

definition protect_agent_login_generation ::
  "AgentGuestSession \<Rightarrow> AgentGuestSession \<Rightarrow> err + unit" where
  "protect_agent_login_generation old new =
     (if s_lease_id new = s_lease_id old then
        bindE (guardE (SqlErr CheckViolation)
          (\<not> (s_control_epoch new \<noteq> s_control_epoch old \<or> s_generation new \<noteq> s_generation old \<or>
              s_login_generation new < s_login_generation old \<or>
              s_login_generation new - s_login_generation old > 1))) (\<lambda>_.
        guardE (SqlErr CheckViolation)
          (\<not> (s_login_generation new > s_login_generation old \<and>
              (\<not> ags_open old \<or> s_state new \<noteq> AgentProvisioning \<or> s_session_id new \<noteq> [] \<or>
               s_instance_id new \<noteq> [] \<or> (s_guest_uid new = 0 \<and> s_guest_sid new = [])))))
      else
        guardE (SqlErr CheckViolation)
          (\<not> (s_state old \<noteq> AgentDisabled \<or> s_state new \<noteq> AgentProvisioning \<or>
              s_login_generation new \<noteq> 0 \<or> s_control_epoch new \<le> s_control_epoch old \<or>
              s_generation new - s_generation old \<noteq> 1)))"

text \<open>One updated row: the three BEFORE triggers in the order of their names, then the CHECKs.\<close>

definition ags_row_update :: "db \<Rightarrow> AgentGuestSession \<Rightarrow> AgentGuestSession \<Rightarrow> err + unit" where
  "ags_row_update d old new =
     bindE (protect_agent_guest_account_binding old new) (\<lambda>_.
     bindE (protect_cross_subject_agent d new) (\<lambda>_.
     bindE (protect_agent_login_generation old new) (\<lambda>_.
     guardE (SqlErr CheckViolation) (ags_check new))))"

definition update_ags ::
  "(AgentGuestSession \<Rightarrow> bool) \<Rightarrow> (AgentGuestSession \<Rightarrow> AgentGuestSession) \<Rightarrow> db \<Rightarrow>
   err + (AgentGuestSession list \<times> db)" where
  "update_ags p f d =
     (let hit = filter p (agent_guest_sessions d);
          t = upd_where p f (agent_guest_sessions d)
      in bindE (foldE (\<lambda>r _. ags_row_update d r (f r)) hit ()) (\<lambda>_.
         bindE (guardE (SqlErr UniqueViolation) (ags_unique t)) (\<lambda>_.
         Inr (map f hit, d\<lparr>agent_guest_sessions := t\<rparr>))))"

section \<open>Epochs and the fencing queue\<close>

text \<open>
  \<open>INSERT INTO desktop_computer_epochs ... ON CONFLICT DO UPDATE SET control_epoch=control_epoch+1\<close>
\<close>

definition bump_epoch :: "time \<Rightarrow> int \<Rightarrow> db \<Rightarrow> int \<times> db" where
  "bump_epoch now vmid d =
     (case find (\<lambda>e. e_desktop_vmid e = vmid) (desktop_computer_epochs d) of
        None \<Rightarrow> (1, d\<lparr>desktop_computer_epochs := desktop_computer_epochs d @
                     [\<lparr>e_desktop_vmid = vmid, e_control_epoch = 1, e_updated_at = now\<rparr>]\<rparr>)
      | Some e \<Rightarrow> (e_control_epoch e + 1,
                   d\<lparr>desktop_computer_epochs := upd_where (\<lambda>x. e_desktop_vmid x = vmid)
                       (\<lambda>x. x\<lparr>e_control_epoch := e_control_epoch x + 1, e_updated_at := now\<rparr>)
                       (desktop_computer_epochs d)\<rparr>))"

definition desktop_named :: "db \<Rightarrow> string \<Rightarrow> ManagedDesktop option" where
  "desktop_named d desktop_id = find (\<lambda>m. Itoa (md_vmid m) = desktop_id) (managed_desktops d)"

text \<open>\<open>assign_desktop_computer_epoch\<close> (025); there is no old row on INSERT.\<close>

definition assign_desktop_computer_epoch ::
  "time \<Rightarrow> DesktopLease option \<Rightarrow> DesktopLease \<Rightarrow> db \<Rightarrow> err + (DesktopLease \<times> db)" where
  "assign_desktop_computer_epoch now old new d =
     (let assign = (case desktop_named d (l_desktop_id new) of
                      None \<Rightarrow> Inl (SqlErr NoDataFound)
                    | Some m \<Rightarrow> let (epoch, d') = bump_epoch now (md_vmid m) d
                                 in Inr (new\<lparr>l_control_epoch := epoch\<rparr>, d'))
      in case old of
           None \<Rightarrow> assign
         | Some prev \<Rightarrow>
             if l_desktop_id new \<noteq> l_desktop_id prev \<or> l_agent_id new \<noteq> l_agent_id prev
             then Inl (SqlErr RaisedException)
             else if l_state new = l_state prev \<and> l_control_epoch new = l_control_epoch prev then Inr (new, d)
             else if l_state prev \<noteq> LeaseActive \<and> l_state new = LeaseActive
             then Inl (SqlErr RaisedException)
             else assign)"

text \<open>\<open>protect_agent_lease_from_native_reservation\<close> (028)\<close>

definition protect_agent_lease_from_native_reservation :: "db \<Rightarrow> DesktopLease \<Rightarrow> err + unit" where
  "protect_agent_lease_from_native_reservation d new =
     guardE (SqlErr UniqueViolation)
       (\<not> (l_state new = LeaseActive \<and>
           list_ex (\<lambda>a. Itoa (na_desktop_vmid a) = l_desktop_id new \<and> native_reserves a)
             (native_guest_accounts d)))"

definition lease_before ::
  "time \<Rightarrow> DesktopLease option \<Rightarrow> DesktopLease \<Rightarrow> db \<Rightarrow> err + (DesktopLease \<times> db)" where
  "lease_before now old new d =
     bindE (protect_agent_lease_from_native_reservation d new) (\<lambda>_.
       assign_desktop_computer_epoch now old new d)"

text \<open>\<open>revoke_agent_guest_session\<close> (024)\<close>

definition lease_closing :: "DesktopLease \<Rightarrow> DesktopLease \<Rightarrow> bool" where
  "lease_closing old new \<longleftrightarrow>
     l_state old = LeaseActive \<and> (l_state new \<noteq> LeaseActive \<or> l_control_epoch new \<noteq> l_control_epoch old)"

definition revoke_agent_guest_session ::
  "time \<Rightarrow> DesktopLease \<Rightarrow> DesktopLease \<Rightarrow> db \<Rightarrow> err + db" where
  "revoke_agent_guest_session now old new d =
     (if lease_closing old new
      then bindE (update_ags (\<lambda>s. s_lease_id s = l_id old \<and> ags_open s)
                    (\<lambda>s. s\<lparr>s_state := AgentRevoking, s_updated_at := now\<rparr>) d) (\<lambda>(_, d'). Inr d')
      else Inr d)"

text \<open>\<open>queue_desktop_computer_revocation\<close> (025)\<close>

definition queue_computer_revocation :: "time \<Rightarrow> int \<Rightarrow> int \<Rightarrow> db \<Rightarrow> db" where
  "queue_computer_revocation now vmid epoch d =
     (if list_ex (\<lambda>q. cr_desktop_vmid q = vmid) (desktop_computer_revocations d)
      then d\<lparr>desktop_computer_revocations := upd_where (\<lambda>q. cr_desktop_vmid q = vmid)
               (\<lambda>q. q\<lparr>cr_requested_revision := cr_requested_revision q + 1,
                      cr_control_epoch := max (cr_control_epoch q) epoch, cr_updated_at := now\<rparr>)
               (desktop_computer_revocations d)\<rparr>
      else d\<lparr>desktop_computer_revocations := desktop_computer_revocations d @
               [\<lparr>cr_desktop_vmid = vmid, cr_requested_revision = 1, cr_completed_revision = 0,
                 cr_control_epoch = epoch, cr_updated_at = now\<rparr>]\<rparr>)"

definition queue_desktop_computer_revocation ::
  "time \<Rightarrow> DesktopLease \<Rightarrow> DesktopLease \<Rightarrow> db \<Rightarrow> db" where
  "queue_desktop_computer_revocation now old new d =
     (if lease_closing old new
      then (case desktop_named d (l_desktop_id old) of
              None \<Rightarrow> d
            | Some m \<Rightarrow> queue_computer_revocation now (md_vmid m) (l_control_epoch new) d)
      else d)"

section \<open>Statements on leases\<close>

definition leases_unique :: "DesktopLease list \<Rightarrow> bool" where
  "leases_unique t \<longleftrightarrow>
     unique_by l_id t \<and> unique_by l_desktop_id (filter (\<lambda>l. l_state l = LeaseActive) t)"

definition lease_row ::
  "time \<Rightarrow> (DesktopLease \<Rightarrow> bool) \<Rightarrow> (DesktopLease \<Rightarrow> DesktopLease) \<Rightarrow> DesktopLease \<Rightarrow> db \<Rightarrow>
   err + ((DesktopLease \<times> DesktopLease option) \<times> db)" where
  "lease_row now p f r d =
     (if p r
      then bindE (lease_before now (Some r) (f r) d) (\<lambda>(n, d'). Inr ((r, Some n), d'))
      else Inr ((r, None), d))"

definition lease_after :: "time \<Rightarrow> DesktopLease \<times> DesktopLease \<Rightarrow> db \<Rightarrow> err + db" where
  "lease_after now change d =
     (case change of (old, new) \<Rightarrow>
        bindE (revoke_agent_guest_session now old new d) (\<lambda>d'.
          Inr (queue_desktop_computer_revocation now old new d')))"

definition row_value :: "DesktopLease \<times> DesktopLease option \<Rightarrow> DesktopLease" where
  "row_value x = (case x of (old, None) \<Rightarrow> old | (_, Some new) \<Rightarrow> new)"

fun changed_rows :: "(DesktopLease \<times> DesktopLease option) list \<Rightarrow> (DesktopLease \<times> DesktopLease) list" where
  "changed_rows [] = []"
| "changed_rows ((old, None) # xs) = changed_rows xs"
| "changed_rows ((old, Some new) # xs) = (old, new) # changed_rows xs"

definition update_leases ::
  "time \<Rightarrow> (DesktopLease \<Rightarrow> bool) \<Rightarrow> (DesktopLease \<Rightarrow> DesktopLease) \<Rightarrow> db \<Rightarrow>
   err + (DesktopLease list \<times> db)" where
  "update_leases now p f d =
     bindE (mapE (lease_row now p f) (desktop_leases d) d) (\<lambda>(rows, d1).
       let t = map row_value rows; changed = changed_rows rows in
       bindE (guardE (SqlErr UniqueViolation) (leases_unique t)) (\<lambda>_.
       bindE (foldE (lease_after now) changed (d1\<lparr>desktop_leases := t\<rparr>)) (\<lambda>d2.
       Inr (map snd changed, d2))))"

definition insert_lease :: "time \<Rightarrow> DesktopLease \<Rightarrow> db \<Rightarrow> err + (DesktopLease \<times> db)" where
  "insert_lease now row d =
     bindE (lease_before now None row d) (\<lambda>(new, d1).
       let t = desktop_leases d1 @ [new] in
       bindE (guardE (SqlErr UniqueViolation) (leases_unique t)) (\<lambda>_.
       Inr (new, d1\<lparr>desktop_leases := t\<rparr>)))"

end
