(* ===== verification/Authority_Laws.thy ===== *)
theory Authority_Laws
  imports Computer_Authority
begin

text \<open>
  What the statements of \<open>Computer_Authority\<close> do, as equations.  The BEFORE triggers of a statement
  that closes leases give every row the next epoch of its VM (\<open>mapE_close\<close>); the AFTER triggers revoke
  the agent sessions of the closed leases and queue the fencing of their epochs, and cannot fail when
  the rows of \<open>agent_guest_sessions\<close> obey the table's own constraints (\<open>foldE_lease_after\<close>).
\<close>

section \<open>Lookups\<close>

lemma find_upd_where:
  "(\<And>r. r \<in> set t \<Longrightarrow> key (f r) = key r) \<Longrightarrow>
   find (\<lambda>r. key r = k) (upd_where p f t) = map_option (\<lambda>r. if p r then f r else r) (find (\<lambda>r. key r = k) t)"
  by (induction t) auto

lemma find_snoc: "find p (t @ [r]) = (case find p t of None \<Rightarrow> if p r then Some r else None | Some x \<Rightarrow> Some x)"
  by (induction t) auto

lemma list_ex_find: "list_ex p t \<longleftrightarrow> find p t \<noteq> None"
  by (induction t) auto

lemma bex_upd_where: "(\<exists>r \<in> set (upd_where p f t). P r) \<longleftrightarrow> (\<exists>r \<in> set t. P (if p r then f r else r))"
  by (induction t) auto

lemma ball_upd_where: "(\<forall>r \<in> set (upd_where p f t). P r) \<longleftrightarrow> (\<forall>r \<in> set t. P (if p r then f r else r))"
  by (induction t) auto

lemma map_filter_upd_where:
  "(\<And>r. r \<in> set t \<Longrightarrow> q (f r) = q r \<and> k (f r) = k r) \<Longrightarrow>
   map k (filter q (upd_where p f t)) = map k (filter q t)"
  by (induction t) auto

definition epochs_wf :: "ComputerEpoch list \<Rightarrow> bool" where
  "epochs_wf t \<longleftrightarrow> unique_by e_desktop_vmid t \<and> (\<forall>e \<in> set t. 0 < e_control_epoch e)"

definition desk_epoch :: "db \<Rightarrow> string \<Rightarrow> int" where
  "desk_epoch d desktop_id =
     (case find (\<lambda>e. Itoa (e_desktop_vmid e) = desktop_id) (desktop_computer_epochs d) of
        None \<Rightarrow> 0 | Some e \<Rightarrow> e_control_epoch e)"

lemma desk_epoch_frame [simp]:
  "desk_epoch (d\<lparr>desktop_leases := x\<rparr>) = desk_epoch d"
  "desk_epoch (d\<lparr>agent_guest_sessions := y\<rparr>) = desk_epoch d"
  "desk_epoch (d\<lparr>desktop_computer_revocations := z\<rparr>) = desk_epoch d"
  by (simp_all add: desk_epoch_def fun_eq_iff)

lemma desk_epoch_cong: "desktop_computer_epochs d' = desktop_computer_epochs d \<Longrightarrow> desk_epoch d' = desk_epoch d"
  by (simp add: desk_epoch_def fun_eq_iff)

lemma bump_epoch_eq:
  assumes "bump_epoch now v d = (k, d')"
  shows "k = desk_epoch d (Itoa v) + 1"
    and "desk_epoch d' = (desk_epoch d)(Itoa v := k)"
    and "d' = d\<lparr>desktop_computer_epochs := desktop_computer_epochs d'\<rparr>"
    and "epochs_wf (desktop_computer_epochs d) \<Longrightarrow> epochs_wf (desktop_computer_epochs d')"
proof -
  let ?t = "desktop_computer_epochs d"
  let ?f = "\<lambda>x. x\<lparr>e_control_epoch := e_control_epoch x + 1, e_updated_at := now\<rparr>"
  show "k = desk_epoch d (Itoa v) + 1"
    using assms by (auto simp: bump_epoch_def desk_epoch_def split: option.splits)
  show "d' = d\<lparr>desktop_computer_epochs := desktop_computer_epochs d'\<rparr>"
    using assms by (auto simp: bump_epoch_def split: option.splits)
  show "epochs_wf (desktop_computer_epochs d')" if "epochs_wf ?t"
  proof (cases "find (\<lambda>e. e_desktop_vmid e = v) ?t")
    case None
    then have "v \<notin> e_desktop_vmid ` set ?t" by (auto simp: find_None_iff)
    with assms None that show ?thesis by (auto simp: bump_epoch_def epochs_wf_def)
  next
    case (Some e)
    with assms that show ?thesis
      by (fastforce simp: bump_epoch_def epochs_wf_def unique_by_upd_where in_upd_where)
  qed
  show "desk_epoch d' = (desk_epoch d)(Itoa v := k)"
  proof
    fix s
    show "desk_epoch d' s = ((desk_epoch d)(Itoa v := k)) s"
    proof (cases "find (\<lambda>e. e_desktop_vmid e = v) ?t")
      case None
      with assms have "k = 1" and d': "desktop_computer_epochs d' =
          ?t @ [\<lparr>e_desktop_vmid = v, e_control_epoch = 1, e_updated_at = now\<rparr>]"
        by (auto simp: bump_epoch_def)
      with None show ?thesis by (auto simp: desk_epoch_def find_snoc split: option.splits)
    next
      case (Some e)
      with assms have k: "k = e_control_epoch e + 1"
        and d': "desktop_computer_epochs d' = upd_where (\<lambda>x. e_desktop_vmid x = v) ?f ?t"
        by (auto simp: bump_epoch_def)
      have "find (\<lambda>x. Itoa (e_desktop_vmid x) = s) (desktop_computer_epochs d') =
            map_option (\<lambda>x. if e_desktop_vmid x = v then ?f x else x)
              (find (\<lambda>x. Itoa (e_desktop_vmid x) = s) ?t)"
        unfolding d' by (rule find_upd_where) simp
      with Some k show ?thesis
        by (auto simp: desk_epoch_def split: option.splits dest: find_SomeD)
    qed
  qed
qed

section \<open>The BEFORE triggers of a closing statement\<close>

text \<open>
  A closing statement: it changes active leases only, leaves their identity alone and moves them to
  another state.
\<close>

definition closes :: "(DesktopLease \<Rightarrow> bool) \<Rightarrow> (DesktopLease \<Rightarrow> DesktopLease) \<Rightarrow> bool" where
  "closes p f \<longleftrightarrow>
     (\<forall>l. p l \<longrightarrow> l_state l = LeaseActive \<and> l_state (f l) \<noteq> LeaseActive \<and> l_id (f l) = l_id l \<and>
               l_agent_id (f l) = l_agent_id l \<and> l_desktop_id (f l) = l_desktop_id l)"

definition closed_row :: "db \<Rightarrow> (DesktopLease \<Rightarrow> DesktopLease) \<Rightarrow> DesktopLease \<Rightarrow> DesktopLease" where
  "closed_row d f l = (f l)\<lparr>l_control_epoch := desk_epoch d (l_desktop_id l) + 1\<rparr>"

text \<open>From \<open>d\<close> to \<open>d'\<close> the counters of the desktops in \<open>S\<close> went up by one and nothing else happened.\<close>

definition epochs_bumped :: "string set \<Rightarrow> db \<Rightarrow> db \<Rightarrow> bool" where
  "epochs_bumped S d d' \<longleftrightarrow>
     (\<exists>t. d' = d\<lparr>desktop_computer_epochs := t\<rparr>) \<and>
     (\<forall>s. desk_epoch d' s = desk_epoch d s + (if s \<in> S then 1 else 0)) \<and>
     (epochs_wf (desktop_computer_epochs d) \<longrightarrow> epochs_wf (desktop_computer_epochs d'))"

lemma epochs_bumped_refl: "epochs_bumped {} d d"
  by (auto simp: epochs_bumped_def intro: exI [of _ "desktop_computer_epochs d"])

lemma epochs_bumped_epoch:
  "epochs_bumped S d d' \<Longrightarrow> desk_epoch d' s = desk_epoch d s + (if s \<in> S then 1 else 0)"
  by (simp add: epochs_bumped_def)

lemma epochs_bumped_trans:
  assumes "epochs_bumped S d d1" "epochs_bumped T d1 d2" "S \<inter> T = {}"
  shows "epochs_bumped (S \<union> T) d d2"
  using assms by (auto simp: epochs_bumped_def)

lemma epochs_bumped_managed: "epochs_bumped S d d' \<Longrightarrow> managed_desktops d' = managed_desktops d"
  by (auto simp: epochs_bumped_def)

lemma lease_before_assigned:
  assumes "\<not> (l_state new = LeaseActive \<and>
              list_ex (\<lambda>a. Itoa (na_desktop_vmid a) = l_desktop_id new \<and> native_reserves a) (native_guest_accounts d))"
    and "assign_desktop_computer_epoch now old new d =
         assign_desktop_computer_epoch now None new d"
    and "desktop_named d (l_desktop_id new) \<noteq> None"
  shows "\<exists>d'. lease_before now old new d =
               Inr (new\<lparr>l_control_epoch := desk_epoch d (l_desktop_id new) + 1\<rparr>, d') \<and>
             epochs_bumped {l_desktop_id new} d d'"
proof -
  from assms(3) obtain m where m: "desktop_named d (l_desktop_id new) = Some m" by auto
  then have mv: "Itoa (md_vmid m) = l_desktop_id new" by (auto simp: desktop_named_def dest: find_SomeD)
  obtain k d' where b: "bump_epoch now (md_vmid m) d = (k, d')" by (cases "bump_epoch now (md_vmid m) d")
  note * = bump_epoch_eq [OF b, unfolded mv]
  have "lease_before now old new d = Inr (new\<lparr>l_control_epoch := k\<rparr>, d')"
    using m b assms(1)
    by (simp add: lease_before_def protect_agent_lease_from_native_reservation_def assms(2))
      (simp add: assign_desktop_computer_epoch_def)
  moreover have "epochs_bumped {l_desktop_id new} d d'"
    using *(1,2,4) *(3) by (auto simp: epochs_bumped_def)
  ultimately show ?thesis using *(1) by auto
qed

lemma lease_before_close:
  assumes "closes p f" "p l" "desktop_named d (l_desktop_id l) \<noteq> None"
  shows "\<exists>d'. lease_before now (Some l) (f l) d = Inr (closed_row d f l, d') \<and>
              epochs_bumped {l_desktop_id l} d d'"
proof -
  have f: "l_state (f l) \<noteq> LeaseActive" "l_state l = LeaseActive" "l_agent_id (f l) = l_agent_id l"
    "l_desktop_id (f l) = l_desktop_id l"
    using assms(1,2) by (auto simp: closes_def)
  show ?thesis
    using lease_before_assigned [of "f l" d now "Some l"] f assms(3)
    by (simp add: assign_desktop_computer_epoch_def closed_row_def)
qed

definition close_pairs ::
  "db \<Rightarrow> (DesktopLease \<Rightarrow> bool) \<Rightarrow> (DesktopLease \<Rightarrow> DesktopLease) \<Rightarrow> DesktopLease list \<Rightarrow>
   (DesktopLease \<times> DesktopLease option) list" where
  "close_pairs d p f rs = map (\<lambda>r. (r, if p r then Some (closed_row d f r) else None)) rs"

lemma close_pairs_simps [simp]:
  "close_pairs d p f [] = []"
  "close_pairs d p f (r # rs) = (r, if p r then Some (closed_row d f r) else None) # close_pairs d p f rs"
  by (simp_all add: close_pairs_def)

lemma close_pairs_cong:
  "(\<And>r. r \<in> set rs \<Longrightarrow> p r \<Longrightarrow> desk_epoch d' (l_desktop_id r) = desk_epoch d (l_desktop_id r)) \<Longrightarrow>
   close_pairs d' p f rs = close_pairs d p f rs"
  by (auto simp: close_pairs_def closed_row_def)

lemma mapE_close:
  assumes "closes p f" "unique_by l_desktop_id (filter p rs)"
    and "\<And>r. r \<in> set rs \<Longrightarrow> p r \<Longrightarrow> desktop_named d (l_desktop_id r) \<noteq> None"
  shows "\<exists>d'. mapE (lease_row now p f) rs d = Inr (close_pairs d p f rs, d') \<and>
              epochs_bumped (l_desktop_id ` set (filter p rs)) d d'"
  using assms
proof (induction rs arbitrary: d)
  case Nil
  then show ?case by (simp add: epochs_bumped_refl)
next
  case (Cons r rs)
  let ?S = "l_desktop_id ` set (filter p rs)"
  show ?case
  proof (cases "p r")
    case False
    then have step: "lease_row now p f r d = Inr ((r, None), d)" by (simp add: lease_row_def)
    obtain d' where "mapE (lease_row now p f) rs d = Inr (close_pairs d p f rs, d')" "epochs_bumped ?S d d'"
      using Cons.IH [of d] Cons.prems False by auto
    with step False show ?thesis by simp
  next
    case True
    obtain d1 where d1: "lease_before now (Some r) (f r) d = Inr (closed_row d f r, d1)"
      "epochs_bumped {l_desktop_id r} d d1"
      using lease_before_close [OF Cons.prems(1) True, of d now] Cons.prems(3) [of r] True by auto
    have named: "desktop_named d1 = desktop_named d"
      using epochs_bumped_managed [OF d1(2)] by (simp add: desktop_named_def fun_eq_iff)
    have other: "l_desktop_id r \<notin> ?S" using Cons.prems(2) True by auto
    obtain d2 where d2: "mapE (lease_row now p f) rs d1 = Inr (close_pairs d1 p f rs, d2)"
      "epochs_bumped ?S d1 d2"
      using Cons.IH [of d1] Cons.prems True by (auto simp: named)
    have "close_pairs d1 p f rs = close_pairs d p f rs"
      by (rule close_pairs_cong) (use other in \<open>auto simp: epochs_bumped_epoch [OF d1(2)] image_iff\<close>)
    moreover have "epochs_bumped ({l_desktop_id r} \<union> ?S) d d2"
      using epochs_bumped_trans [OF d1(2) d2(2)] other by auto
    moreover have "lease_row now p f r d = Inr ((r, Some (closed_row d f r)), d1)"
      using True d1(1) by (simp add: lease_row_def)
    ultimately show ?thesis using True d2(1) by simp
  qed
qed

section \<open>The AFTER triggers of a closing statement\<close>

definition ags_wf :: "db \<Rightarrow> bool" where
  "ags_wf d \<longleftrightarrow>
     ags_unique (agent_guest_sessions d) \<and>
     (\<forall>s \<in> set (agent_guest_sessions d).
        ags_check s \<and> \<not> list_ex (same_os_identity s) (native_guest_accounts d))"

lemma foldE_unit:
  fixes g :: "'r \<Rightarrow> 'e + unit"
  shows "foldE (\<lambda>r _. g r) rs () = Inr u \<longleftrightarrow> (\<forall>r \<in> set rs. g r = Inr ())"
  by (induction rs) (auto simp: bindE_eq_Inr)

lemma update_ags_eq_Inr [result_simps]:
  "update_ags p f d = Inr (rs, d') \<longleftrightarrow>
     (\<forall>r \<in> set (filter p (agent_guest_sessions d)). ags_row_update d r (f r) = Inr ()) \<and>
     ags_unique (upd_where p f (agent_guest_sessions d)) \<and>
     rs = map f (filter p (agent_guest_sessions d)) \<and>
     d' = d\<lparr>agent_guest_sessions := upd_where p f (agent_guest_sessions d)\<rparr>"
  unfolding update_ags_def Let_def bindE_eq_Inr foldE_unit guardE_eq_Inr by auto

lemma ags_unique_upd_where:
  "(\<And>r. r \<in> set t \<Longrightarrow> s_desktop_vmid (f r) = s_desktop_vmid r \<and> s_agent_id (f r) = s_agent_id r \<and>
     s_guest_username (f r) = s_guest_username r \<and> s_guest_uid (f r) = s_guest_uid r \<and>
     s_guest_sid (f r) = s_guest_sid r) \<Longrightarrow>
   ags_unique (upd_where p f t) \<longleftrightarrow> ags_unique t"
  unfolding ags_unique_def
  by (simp add: map_upd_where_key map_filter_upd_where cong: filter_cong)

text \<open>Whatever an \<open>UPDATE\<close> of agent sessions does, the constraints of the table hold after it.\<close>

lemma update_ags_wf:
  assumes "ags_wf d" "update_ags p f d = Inr (rs, d')"
  shows "ags_wf d'"
proof -
  have "ags_check (f r) \<and> \<not> list_ex (same_os_identity (f r)) (native_guest_accounts d)"
    if "r \<in> set (agent_guest_sessions d)" "p r" for r
  proof -
    have "ags_row_update d r (f r) = Inr ()" using assms(2) that by (simp add: update_ags_eq_Inr)
    then have "ags_check (f r)" "protect_cross_subject_agent d (f r) = Inr ()"
      by (auto simp: ags_row_update_def bindE_eq_Inr guardE_eq_Inr)
    then show ?thesis
      by (auto simp: protect_cross_subject_agent_def guardE_eq_Inr same_os_identity_def list_ex_iff
          split: if_splits)
  qed
  with assms show ?thesis
    by (auto simp: ags_wf_def update_ags_eq_Inr in_upd_where)
qed

definition revoke_row :: "time \<Rightarrow> AgentGuestSession \<Rightarrow> AgentGuestSession" where
  "revoke_row now s = s\<lparr>s_state := AgentRevoking, s_updated_at := now\<rparr>"

lemma ags_row_update_revoke:
  assumes "ags_check s" "\<not> list_ex (same_os_identity s) (native_guest_accounts d)"
  shows "ags_row_update d s (revoke_row now s) = Inr ()"
proof -
  have "\<not> list_ex (same_os_identity (revoke_row now s)) (native_guest_accounts d)"
    using assms(2) by (simp add: list_ex_iff same_os_identity_def revoke_row_def)
  moreover have "ags_check (revoke_row now s)"
    using assms(1)
    by (simp add: ags_check_def agent_guest_account_identity_def agent_guest_ready_identity_def revoke_row_def)
  ultimately show ?thesis
    by (simp add: ags_row_update_def protect_agent_guest_account_binding_def protect_cross_subject_agent_def
        protect_agent_login_generation_def revoke_row_def)
qed

definition revoke_sessions :: "time \<Rightarrow> string set \<Rightarrow> AgentGuestSession list \<Rightarrow> AgentGuestSession list" where
  "revoke_sessions now ids t = upd_where (\<lambda>s. s_lease_id s \<in> ids \<and> ags_open s) (revoke_row now) t"

lemma revoke_sessions_step:
  "revoke_sessions now T (revoke_sessions now S t) = revoke_sessions now (S \<union> T) t"
  by (auto simp: revoke_sessions_def upd_where_def revoke_row_def ags_open_def)

lemma revoke_agent_guest_session_ok:
  assumes "ags_wf d" "lease_closing old new"
  shows "revoke_agent_guest_session now old new d =
           Inr (d\<lparr>agent_guest_sessions := revoke_sessions now {l_id old} (agent_guest_sessions d)\<rparr>)"
    and "ags_wf (d\<lparr>agent_guest_sessions := revoke_sessions now {l_id old} (agent_guest_sessions d)\<rparr>)"
proof -
  let ?p = "\<lambda>s. s_lease_id s = l_id old \<and> ags_open s"
  let ?d = "d\<lparr>agent_guest_sessions := revoke_sessions now {l_id old} (agent_guest_sessions d)\<rparr>"
  have "ags_unique (upd_where ?p (revoke_row now) (agent_guest_sessions d))"
    using assms(1) by (subst ags_unique_upd_where) (auto simp: ags_wf_def revoke_row_def)
  then have u: "\<exists>rs. update_ags ?p (revoke_row now) d = Inr (rs, ?d)"
    using assms(1) ags_row_update_revoke
    by (auto simp: update_ags_eq_Inr ags_wf_def revoke_sessions_def)
  then show "revoke_agent_guest_session now old new d = Inr ?d"
    using assms(2) by (auto simp: revoke_agent_guest_session_def revoke_row_def [abs_def])
  from u show "ags_wf ?d" using update_ags_wf [OF assms(1)] by blast
qed

section \<open>The fencing queue\<close>

definition revs_wf :: "(string \<Rightarrow> int) \<Rightarrow> ComputerRevocation list \<Rightarrow> bool" where
  "revs_wf limit t \<longleftrightarrow>
     unique_by cr_desktop_vmid t \<and>
     (\<forall>q \<in> set t. 0 \<le> cr_completed_revision q \<and> cr_completed_revision q \<le> cr_requested_revision q \<and>
                  cr_control_epoch q \<le> limit (Itoa (cr_desktop_vmid q)))"

definition revs_cover :: "ComputerRevocation list \<Rightarrow> DesktopLease \<Rightarrow> bool" where
  "revs_cover t l \<longleftrightarrow>
     (\<exists>q \<in> set t. Itoa (cr_desktop_vmid q) = l_desktop_id l \<and> l_control_epoch l \<le> cr_control_epoch q)"

text \<open>The queue holds work that has not been done yet and fences the epoch of the lease.\<close>

definition revs_fence :: "ComputerRevocation list \<Rightarrow> DesktopLease \<Rightarrow> bool" where
  "revs_fence t l \<longleftrightarrow>
     (\<exists>q \<in> set t. Itoa (cr_desktop_vmid q) = l_desktop_id l \<and> l_control_epoch l \<le> cr_control_epoch q \<and>
                  cr_completed_revision q < cr_requested_revision q)"

lemma revs_fence_cover: "revs_fence t l \<Longrightarrow> revs_cover t l"
  by (auto simp: revs_fence_def revs_cover_def)

lemma queue_revs_wf:
  assumes "revs_wf limit (desktop_computer_revocations d)" "epoch \<le> limit (Itoa v)"
  shows "revs_wf limit (desktop_computer_revocations (queue_computer_revocation now v epoch d))"
proof (cases "list_ex (\<lambda>q. cr_desktop_vmid q = v) (desktop_computer_revocations d)")
  case True
  have "cr_completed_revision q \<le> cr_requested_revision q + 1" if "q \<in> set (desktop_computer_revocations d)" for q
    using assms(1) that by (fastforce simp: revs_wf_def)
  with True show ?thesis
    using assms by (auto simp: revs_wf_def queue_computer_revocation_def in_upd_where unique_by_upd_where)
next
  case False
  then show ?thesis
    using assms by (auto simp: revs_wf_def queue_computer_revocation_def list_ex_iff)
qed

lemma queue_fences:
  assumes "revs_wf limit (desktop_computer_revocations d)" "l_desktop_id l = Itoa v" "l_control_epoch l \<le> epoch"
  shows "revs_fence (desktop_computer_revocations (queue_computer_revocation now v epoch d)) l"
proof (cases "list_ex (\<lambda>q. cr_desktop_vmid q = v) (desktop_computer_revocations d)")
  case True
  then obtain q where q: "q \<in> set (desktop_computer_revocations d)" "cr_desktop_vmid q = v"
    by (auto simp: list_ex_iff)
  then have "cr_completed_revision q \<le> cr_requested_revision q" using assms(1) by (auto simp: revs_wf_def)
  with True q assms(2,3) show ?thesis
    by (auto simp: revs_fence_def queue_computer_revocation_def bex_upd_where intro!: bexI [of _ q])
next
  case False
  with assms show ?thesis by (simp add: revs_fence_def queue_computer_revocation_def)
qed

lemma queue_keeps_cover:
  assumes "revs_cover (desktop_computer_revocations d) l"
  shows "revs_cover (desktop_computer_revocations (queue_computer_revocation now v epoch d)) l"
proof -
  from assms obtain q where "q \<in> set (desktop_computer_revocations d)"
    "Itoa (cr_desktop_vmid q) = l_desktop_id l" "l_control_epoch l \<le> cr_control_epoch q"
    by (auto simp: revs_cover_def)
  then show ?thesis
    by (auto simp: revs_cover_def queue_computer_revocation_def bex_upd_where intro!: bexI [of _ q])
qed

lemma queue_keeps_fence:
  assumes "revs_fence (desktop_computer_revocations d) l"
  shows "revs_fence (desktop_computer_revocations (queue_computer_revocation now v epoch d)) l"
proof -
  from assms obtain q where "q \<in> set (desktop_computer_revocations d)"
    "Itoa (cr_desktop_vmid q) = l_desktop_id l" "l_control_epoch l \<le> cr_control_epoch q"
    "cr_completed_revision q < cr_requested_revision q"
    by (auto simp: revs_fence_def)
  then show ?thesis
    by (auto simp: revs_fence_def queue_computer_revocation_def bex_upd_where intro!: bexI [of _ q])
qed

definition close_effect :: "time \<Rightarrow> DesktopLease \<times> DesktopLease \<Rightarrow> db \<Rightarrow> db" where
  "close_effect now change d =
     queue_desktop_computer_revocation now (fst change) (snd change)
       (d\<lparr>agent_guest_sessions := revoke_sessions now {l_id (fst change)} (agent_guest_sessions d)\<rparr>)"

lemma queue_frame [simp]:
  "\<exists>t. queue_computer_revocation now v epoch d = d\<lparr>desktop_computer_revocations := t\<rparr>"
  "\<exists>t. queue_desktop_computer_revocation now old new d = d\<lparr>desktop_computer_revocations := t\<rparr>"
proof -
  show q: "\<exists>t. queue_computer_revocation now v epoch d = d\<lparr>desktop_computer_revocations := t\<rparr>" for v epoch
    by (auto simp: queue_computer_revocation_def)
  have same: "\<exists>t. d = d\<lparr>desktop_computer_revocations := t\<rparr>"
    by (rule exI [of _ "desktop_computer_revocations d"]) simp
  show "\<exists>t. queue_desktop_computer_revocation now old new d = d\<lparr>desktop_computer_revocations := t\<rparr>"
    using q same by (auto simp: queue_desktop_computer_revocation_def split: option.splits)
qed

lemma close_effect_frame:
  "\<exists>t. close_effect now c d =
     d\<lparr>agent_guest_sessions := revoke_sessions now {l_id (fst c)} (agent_guest_sessions d),
       desktop_computer_revocations := t\<rparr>"
  unfolding close_effect_def by (rule queue_frame)

lemma fold_close_effect_frame:
  "\<exists>t. fold (close_effect now) cs d =
     d\<lparr>agent_guest_sessions := revoke_sessions now (l_id ` fst ` set cs) (agent_guest_sessions d),
       desktop_computer_revocations := t\<rparr>"
proof (induction cs arbitrary: d)
  case Nil
  have "revoke_sessions now {} (agent_guest_sessions d) = agent_guest_sessions d"
    by (simp add: revoke_sessions_def upd_where_none)
  then show ?case by (auto intro: exI [of _ "desktop_computer_revocations d"])
next
  case (Cons c cs)
  obtain t where t: "close_effect now c d =
     d\<lparr>agent_guest_sessions := revoke_sessions now {l_id (fst c)} (agent_guest_sessions d),
       desktop_computer_revocations := t\<rparr>" using close_effect_frame by blast
  show ?case using Cons [of "close_effect now c d"] by (auto simp: t revoke_sessions_step)
qed

lemma lease_after_closing:
  assumes "ags_wf d" "lease_closing (fst c) (snd c)"
  shows "lease_after now c d = Inr (close_effect now c d)" and "ags_wf (close_effect now c d)"
proof -
  obtain old new where c: "c = (old, new)" by (cases c)
  note * = revoke_agent_guest_session_ok [OF assms(1), of old new now]
  show "lease_after now c d = Inr (close_effect now c d)"
    using *(1) assms(2) by (simp add: lease_after_def close_effect_def c)
  obtain t where "close_effect now c d =
     d\<lparr>agent_guest_sessions := revoke_sessions now {l_id old} (agent_guest_sessions d),
       desktop_computer_revocations := t\<rparr>" using close_effect_frame [of now c d] c by auto
  then show "ags_wf (close_effect now c d)"
    using *(2) assms(2) by (simp add: c ags_wf_def)
qed

lemma foldE_lease_after:
  assumes "ags_wf d" "\<And>c. c \<in> set cs \<Longrightarrow> lease_closing (fst c) (snd c)"
  shows "foldE (lease_after now) cs d = Inr (fold (close_effect now) cs d) \<and>
         ags_wf (fold (close_effect now) cs d)"
  using assms by (induction cs arbitrary: d) (auto simp: lease_after_closing)

text \<open>
  What the queue looks like after a list of closings: every bound still holds, everything covered is
  still covered, and work is pending that fences the closed leases.
\<close>

lemma fold_close_effect_revs:
  assumes "revs_wf limit (desktop_computer_revocations d)"
    and "\<And>c. c \<in> set cs \<Longrightarrow> lease_closing (fst c) (snd c) \<and> l_desktop_id (snd c) = l_desktop_id (fst c) \<and>
            desktop_named d (l_desktop_id (fst c)) \<noteq> None \<and>
            l_control_epoch (snd c) \<le> limit (l_desktop_id (fst c))"
  shows "revs_wf limit (desktop_computer_revocations (fold (close_effect now) cs d)) \<and>
         (\<forall>l. revs_cover (desktop_computer_revocations d) l \<longrightarrow>
              revs_cover (desktop_computer_revocations (fold (close_effect now) cs d)) l) \<and>
         (\<forall>l. revs_fence (desktop_computer_revocations d) l \<or> l \<in> snd ` set cs \<longrightarrow>
              revs_fence (desktop_computer_revocations (fold (close_effect now) cs d)) l)"
  using assms
proof (induction cs arbitrary: d)
  case Nil
  then show ?case by simp
next
  case (Cons c cs)
  let ?d = "close_effect now c d"
  let ?e = "d\<lparr>agent_guest_sessions := revoke_sessions now {l_id (fst c)} (agent_guest_sessions d)\<rparr>"
  obtain t where t: "?d = ?e\<lparr>desktop_computer_revocations := t\<rparr>"
    using close_effect_frame [of now c d] by blast
  from Cons.prems(2) [of c] obtain m where m: "desktop_named d (l_desktop_id (fst c)) = Some m"
    and c: "lease_closing (fst c) (snd c)" "l_desktop_id (snd c) = l_desktop_id (fst c)"
      "l_control_epoch (snd c) \<le> limit (l_desktop_id (fst c))" by auto
  then have mv: "Itoa (md_vmid m) = l_desktop_id (fst c)" by (auto simp: desktop_named_def dest: find_SomeD)
  have "desktop_named ?e (l_desktop_id (fst c)) = Some m" using m by (simp add: desktop_named_def)
  then have d: "?d = queue_computer_revocation now (md_vmid m) (l_control_epoch (snd c)) ?e"
    using c(1) by (simp add: close_effect_def queue_desktop_computer_revocation_def)
  have "revs_wf limit (desktop_computer_revocations ?d)"
    using queue_revs_wf [of limit ?e] Cons.prems(1) c(3) mv by (simp add: d)
  moreover have "revs_cover (desktop_computer_revocations ?d) l" if "revs_cover (desktop_computer_revocations d) l" for l
    using that queue_keeps_cover [of ?e l] by (simp add: d)
  moreover have "revs_fence (desktop_computer_revocations ?d) l"
    if "revs_fence (desktop_computer_revocations d) l \<or> l = snd c" for l
    using that queue_fences [of limit ?e l "md_vmid m"] queue_keeps_fence [of ?e l] Cons.prems(1) c(2) mv
    by (auto simp: d)
  moreover have "desktop_named ?d = desktop_named d" by (simp add: t desktop_named_def fun_eq_iff)
  ultimately show ?case using Cons.IH [of ?d] Cons.prems(2) by auto
qed

end
