(* ===== verification/Authority_Invariant.thy ===== *)
theory Authority_Invariant
  imports Authority_Laws
begin

text \<open>
  The invariants of the authority tables.

  \<open>authority_inv\<close>: identifiers are unique, a desktop has one active lease at most and that lease holds
  the current epoch of its VM, no two leases of a VM share an epoch, the fencing queue never reaches the
  epoch of an active lease and always covers the epoch of a closed one.  \<open>session_inv\<close>: agent sessions
  obey the table's constraints, an open one hangs on its active lease, any other one on a closed lease
  of a later epoch.

  \<open>close_leases_ok\<close> is the main result: under the invariants closing leases succeeds and keeps them.
\<close>

section \<open>The invariants\<close>

definition active_on :: "db \<Rightarrow> string \<Rightarrow> bool" where
  "active_on d desktop_id \<longleftrightarrow>
     list_ex (\<lambda>l. l_state l = LeaseActive \<and> l_desktop_id l = desktop_id) (desktop_leases d)"

text \<open>The highest epoch the queue may fence: below the epoch of a lease that is active.\<close>

definition fence_limit :: "db \<Rightarrow> string \<Rightarrow> int" where
  "fence_limit d desktop_id = (if active_on d desktop_id then desk_epoch d desktop_id - 1 else desk_epoch d desktop_id)"

definition lease_inv :: "db \<Rightarrow> DesktopLease \<Rightarrow> bool" where
  "lease_inv d l \<longleftrightarrow>
     0 < l_control_epoch l \<and> l_control_epoch l \<le> desk_epoch d (l_desktop_id l) \<and>
     (if l_state l = LeaseActive
      then l_control_epoch l = desk_epoch d (l_desktop_id l) \<and> desktop_named d (l_desktop_id l) \<noteq> None
      else revs_cover (desktop_computer_revocations d) l)"

definition authority_inv :: "db \<Rightarrow> bool" where
  "authority_inv d \<longleftrightarrow>
     epochs_wf (desktop_computer_epochs d) \<and>
     leases_unique (desktop_leases d) \<and>
     unique_by (\<lambda>l. (l_desktop_id l, l_control_epoch l)) (desktop_leases d) \<and>
     (\<forall>l \<in> set (desktop_leases d). lease_inv d l) \<and>
     revs_wf (fence_limit d) (desktop_computer_revocations d)"

definition session_lease :: "DesktopLease list \<Rightarrow> AgentGuestSession \<Rightarrow> bool" where
  "session_lease leases s \<longleftrightarrow>
     (\<exists>l \<in> set leases. l_id l = s_lease_id s \<and> l_agent_id l = s_agent_id s \<and>
        l_desktop_id l = Itoa (s_desktop_vmid s) \<and>
        (if ags_open s then l_state l = LeaseActive \<and> l_control_epoch l = s_control_epoch s
         else l_state l \<noteq> LeaseActive \<and> s_control_epoch s < l_control_epoch l))"

definition session_inv :: "db \<Rightarrow> bool" where
  "session_inv d \<longleftrightarrow> ags_wf d \<and> (\<forall>s \<in> set (agent_guest_sessions d). session_lease (desktop_leases d) s)"

lemma desk_epoch_nonneg: "authority_inv d \<Longrightarrow> 0 \<le> desk_epoch d s"
  by (force simp: authority_inv_def epochs_wf_def desk_epoch_def split: option.splits dest!: find_SomeD)

lemma active_unique:
  assumes "leases_unique t" "l \<in> set t" "l' \<in> set t" "l_state l = LeaseActive" "l_state l' = LeaseActive"
    "l_desktop_id l = l_desktop_id l'"
  shows "l = l'"
  using assms unique_by_same [of l_desktop_id "filter (\<lambda>l. l_state l = LeaseActive) t" l l']
  by (auto simp: leases_unique_def)

section \<open>Closing leases\<close>

lemma changed_rows_close_pairs:
  "changed_rows (close_pairs d p f rs) = map (\<lambda>r. (r, closed_row d f r)) (filter p rs)"
  by (induction rs) auto

lemma row_value_close_pairs: "map row_value (close_pairs d p f rs) = upd_where p (closed_row d f) rs"
  by (induction rs) (auto simp: row_value_def)

lemma closed_row_simps:
  "closes p f \<Longrightarrow> p l \<Longrightarrow>
     l_id (closed_row d f l) = l_id l \<and> l_agent_id (closed_row d f l) = l_agent_id l \<and>
     l_desktop_id (closed_row d f l) = l_desktop_id l \<and> l_state (closed_row d f l) \<noteq> LeaseActive \<and>
     l_control_epoch (closed_row d f l) = desk_epoch d (l_desktop_id l) + 1 \<and> l_state l = LeaseActive"
  by (auto simp: closes_def closed_row_def)

lemma filter_active_close:
  "closes p f \<Longrightarrow> filter (\<lambda>l. l_state l = LeaseActive) (upd_where p (closed_row d f) t) =
     filter (\<lambda>l. l_state l = LeaseActive \<and> \<not> p l) t"
  by (induction t) (auto simp: closed_row_simps)

lemma unique_by_filter_mono:
  "unique_by k (filter q t) \<Longrightarrow> (\<And>r. q' r \<Longrightarrow> q r) \<Longrightarrow> unique_by k (filter q' t)"
  by (induction t) (auto split: if_splits)

lemma map_upd_where_key_on:
  "(\<And>r. r \<in> set t \<Longrightarrow> p r \<Longrightarrow> k (f r) = k r) \<Longrightarrow> map k (upd_where p f t) = map k t"
  by (induction t) auto

lemma leases_unique_close:
  assumes "closes p f" "leases_unique t"
  shows "leases_unique (upd_where p (closed_row d f) t)"
proof -
  have "map l_id (upd_where p (closed_row d f) t) = map l_id t"
    by (rule map_upd_where_key_on) (simp add: closed_row_simps [OF assms(1)])
  then show ?thesis
    using assms unique_by_filter_mono [of l_desktop_id "\<lambda>l. l_state l = LeaseActive" t
      "\<lambda>l. l_state l = LeaseActive \<and> \<not> p l"]
    by (auto simp: leases_unique_def filter_active_close)
qed

lemma closes_unique_desktop:
  "closes p f \<Longrightarrow> leases_unique t \<Longrightarrow> unique_by l_desktop_id (filter p t)"
  by (auto simp: leases_unique_def closes_def intro: unique_by_filter_mono)

lemma unique_epochs_close:
  assumes "closes p f" "authority_inv d"
  shows "unique_by (\<lambda>l. (l_desktop_id l, l_control_epoch l)) (upd_where p (closed_row d f) (desktop_leases d))"
proof -
  let ?t = "desktop_leases d"
  let ?k = "\<lambda>l. (l_desktop_id l, l_control_epoch l)"
  let ?g = "\<lambda>l. if p l then closed_row d f l else l"
  have u: "leases_unique ?t" "unique_by ?k ?t" and le: "\<forall>l \<in> set ?t. lease_inv d l"
    using assms(2) by (auto simp: authority_inv_def)
  have "r = q" if rq: "r \<in> set ?t" "q \<in> set ?t" and eq: "?k (?g r) = ?k (?g q)" for r q
  proof -
    have "l_control_epoch r \<le> desk_epoch d (l_desktop_id r)" "l_control_epoch q \<le> desk_epoch d (l_desktop_id q)"
      using le rq by (auto simp: lease_inv_def)
    moreover have "p r \<Longrightarrow> p q \<Longrightarrow> l_desktop_id r = l_desktop_id q \<Longrightarrow> r = q"
      using active_unique [OF u(1) rq] assms(1) by (auto simp: closes_def)
    moreover have "?k r = ?k q \<Longrightarrow> r = q" using unique_by_same [OF u(2) rq] by simp
    ultimately show ?thesis
      using eq by (auto simp: closed_row_simps [OF assms(1)] split: if_splits)
  qed
  then have "inj_on (\<lambda>l. ?k (?g l)) (set ?t)" by (auto simp: inj_on_def)
  moreover have "distinct ?t" using u(1) by (auto simp: leases_unique_def distinct_map)
  ultimately show ?thesis by (simp add: upd_where_def distinct_map comp_def)
qed

text \<open>
  Everything a closing statement does: the closed rows get the next epoch of their VM, their agent
  sessions are revoked, and only the four authority tables change.
\<close>

definition closed_as ::
  "time \<Rightarrow> (DesktopLease \<Rightarrow> bool) \<Rightarrow> (DesktopLease \<Rightarrow> DesktopLease) \<Rightarrow> db \<Rightarrow> db \<Rightarrow> bool" where
  "closed_as now p f d d' \<longleftrightarrow>
     (let S = l_desktop_id ` set (filter p (desktop_leases d)) in
      (\<exists>es qs. d' = d\<lparr>desktop_leases := upd_where p (closed_row d f) (desktop_leases d),
                       desktop_computer_epochs := es, desktop_computer_revocations := qs,
                       agent_guest_sessions :=
                         revoke_sessions now (l_id ` set (filter p (desktop_leases d))) (agent_guest_sessions d)\<rparr>) \<and>
      (\<forall>s. desk_epoch d' s = desk_epoch d s + (if s \<in> S then 1 else 0)))"

lemma active_on_close:
  assumes "closes p f" "leases_unique (desktop_leases d)" "closed_as now p f d d'"
  shows "active_on d' s \<longleftrightarrow> active_on d s \<and> s \<notin> l_desktop_id ` set (filter p (desktop_leases d))"
proof -
  let ?t = "desktop_leases d"
  have t: "desktop_leases d' = upd_where p (closed_row d f) ?t"
    using assms(3) by (auto simp: closed_as_def Let_def)
  have "active_on d' s \<longleftrightarrow> (\<exists>l \<in> set (filter (\<lambda>l. l_state l = LeaseActive) (desktop_leases d')). l_desktop_id l = s)"
    by (auto simp: active_on_def list_ex_iff)
  also have "\<dots> \<longleftrightarrow> (\<exists>l \<in> set ?t. l_state l = LeaseActive \<and> \<not> p l \<and> l_desktop_id l = s)"
    by (auto simp: t filter_active_close [OF assms(1)])
  also have "\<dots> \<longleftrightarrow> active_on d s \<and> s \<notin> l_desktop_id ` set (filter p ?t)"
    using active_unique [OF assms(2)] assms(1) by (fastforce simp: active_on_def list_ex_iff closes_def)
  finally show ?thesis .
qed

lemma update_leases_close:
  assumes "closes p f" "authority_inv d" "ags_wf d"
  shows "\<exists>d'. update_leases now p f d = Inr (map (closed_row d f) (filter p (desktop_leases d)), d') \<and>
              closed_as now p f d d' \<and> ags_wf d' \<and>
              epochs_wf (desktop_computer_epochs d') \<and>
              (\<forall>limit. revs_wf limit (desktop_computer_revocations d) \<and>
                 (\<forall>l \<in> set (desktop_leases d). p l \<longrightarrow> desk_epoch d (l_desktop_id l) + 1 \<le> limit (l_desktop_id l)) \<longrightarrow>
                 revs_wf limit (desktop_computer_revocations d') \<and>
                 (\<forall>l. revs_cover (desktop_computer_revocations d) l \<longrightarrow> revs_cover (desktop_computer_revocations d') l) \<and>
                 (\<forall>l \<in> closed_row d f ` set (filter p (desktop_leases d)).
                    revs_fence (desktop_computer_revocations d') l))"
proof -
  let ?t = "desktop_leases d"
  let ?t' = "upd_where p (closed_row d f) ?t"
  let ?cs = "map (\<lambda>r. (r, closed_row d f r)) (filter p ?t)"
  have lu: "leases_unique ?t" and named: "\<And>l. l \<in> set ?t \<Longrightarrow> p l \<Longrightarrow> desktop_named d (l_desktop_id l) \<noteq> None"
    using assms(1,2) by (auto simp: authority_inv_def lease_inv_def closes_def)
  obtain d1 where d1: "mapE (lease_row now p f) ?t d = Inr (close_pairs d p f ?t, d1)"
    "epochs_bumped (l_desktop_id ` set (filter p ?t)) d d1"
    using mapE_close [OF assms(1) closes_unique_desktop [OF assms(1) lu] named] by blast
  then obtain es where es: "d1 = d\<lparr>desktop_computer_epochs := es\<rparr>" by (auto simp: epochs_bumped_def)
  let ?e = "d1\<lparr>desktop_leases := ?t'\<rparr>"
  have wf: "ags_wf ?e" using assms(3) by (simp add: es ags_wf_def)
  have closing: "\<And>c. c \<in> set ?cs \<Longrightarrow> lease_closing (fst c) (snd c)"
    using closed_row_simps [OF assms(1)] by (auto simp: lease_closing_def)
  let ?d = "fold (close_effect now) ?cs ?e"
  have after: "foldE (lease_after now) ?cs ?e = Inr ?d \<and> ags_wf ?d"
    by (rule foldE_lease_after [OF wf closing])
  obtain qs where qs: "?d = ?e\<lparr>agent_guest_sessions := revoke_sessions now (l_id ` fst ` set ?cs) (agent_guest_sessions ?e),
       desktop_computer_revocations := qs\<rparr>" using fold_close_effect_frame by blast
  have "update_leases now p f d = Inr (map snd ?cs, ?d)"
    using d1(1) after leases_unique_close [OF assms(1) lu, of d]
    by (simp add: update_leases_def row_value_close_pairs changed_rows_close_pairs)
  moreover have "closed_as now p f d ?d"
  proof -
    have "?d = d\<lparr>desktop_leases := ?t', desktop_computer_epochs := es, desktop_computer_revocations := qs,
                agent_guest_sessions := revoke_sessions now (l_id ` set (filter p ?t)) (agent_guest_sessions d)\<rparr>"
      using qs by (simp add: es image_image)
    moreover have "desk_epoch ?d = desk_epoch d1" by (rule desk_epoch_cong) (simp add: qs)
    ultimately show ?thesis
      unfolding closed_as_def Let_def using epochs_bumped_epoch [OF d1(2)] by auto
  qed
  moreover have "epochs_wf (desktop_computer_epochs ?d)"
    using d1(2) assms(2) by (simp add: qs epochs_bumped_def authority_inv_def)
  moreover have "revs_wf limit (desktop_computer_revocations ?d) \<and>
      (\<forall>l. revs_cover (desktop_computer_revocations d) l \<longrightarrow> revs_cover (desktop_computer_revocations ?d) l) \<and>
      (\<forall>l \<in> closed_row d f ` set (filter p ?t). revs_fence (desktop_computer_revocations ?d) l)"
    if "revs_wf limit (desktop_computer_revocations d)"
      "\<forall>l \<in> set ?t. p l \<longrightarrow> desk_epoch d (l_desktop_id l) + 1 \<le> limit (l_desktop_id l)" for limit
  proof -
    have n: "desktop_named ?e = desktop_named d" by (simp add: es desktop_named_def fun_eq_iff)
    have "l_desktop_id (snd c) = l_desktop_id (fst c) \<and> desktop_named ?e (l_desktop_id (fst c)) \<noteq> None \<and>
          l_control_epoch (snd c) \<le> limit (l_desktop_id (fst c))" if "c \<in> set ?cs" for c
    proof -
      from that obtain r where r: "c = (r, closed_row d f r)" "r \<in> set ?t" "p r" by auto
      show ?thesis
        using named [OF r(2,3)] closed_row_simps [OF assms(1) r(3), of d]
          \<open>\<forall>l \<in> set ?t. p l \<longrightarrow> desk_epoch d (l_desktop_id l) + 1 \<le> limit (l_desktop_id l)\<close> r
        by (simp add: n)
    qed
    moreover have "desktop_computer_revocations ?e = desktop_computer_revocations d" by (simp add: es)
    moreover have "snd ` set ?cs = closed_row d f ` set (filter p ?t)" by (simp add: image_image)
    ultimately show ?thesis
      using fold_close_effect_revs [of limit ?e ?cs now] that(1) closing by simp
  qed
  ultimately show ?thesis using after by (intro exI [of _ ?d]) (auto simp: comp_def)
qed

lemma fence_limit_close:
  assumes "closes p f" "leases_unique (desktop_leases d)" "closed_as now p f d d'"
  shows "fence_limit d s \<le> fence_limit d' s"
    and "s \<in> l_desktop_id ` set (filter p (desktop_leases d)) \<Longrightarrow> fence_limit d' s = desk_epoch d s + 1"
proof -
  have e: "desk_epoch d' s = desk_epoch d s + (if s \<in> l_desktop_id ` set (filter p (desktop_leases d)) then 1 else 0)"
    using assms(3) unfolding closed_as_def Let_def by blast
  show "fence_limit d s \<le> fence_limit d' s"
    unfolding fence_limit_def active_on_close [OF assms] e by auto
  show "s \<in> l_desktop_id ` set (filter p (desktop_leases d)) \<Longrightarrow> fence_limit d' s = desk_epoch d s + 1"
    unfolding fence_limit_def active_on_close [OF assms] e by auto
qed

lemma revs_wf_mono: "revs_wf limit t \<Longrightarrow> (\<And>s. limit s \<le> limit' s) \<Longrightarrow> revs_wf limit' t"
  by (force simp: revs_wf_def intro: order_trans)

lemma lease_inv_close:
  assumes "closes p f" "authority_inv d" "closed_as now p f d d'"
    and cover: "\<forall>l. revs_cover (desktop_computer_revocations d) l \<or>
                     l \<in> closed_row d f ` set (filter p (desktop_leases d)) \<longrightarrow>
                     revs_cover (desktop_computer_revocations d') l"
    and "l' \<in> set (desktop_leases d')"
  shows "lease_inv d' l'"
proof -
  let ?t = "desktop_leases d"
  let ?S = "l_desktop_id ` set (filter p ?t)"
  have lu: "leases_unique ?t" and li: "\<And>l. l \<in> set ?t \<Longrightarrow> lease_inv d l"
    using assms(2) by (auto simp: authority_inv_def)
  have t': "desktop_leases d' = upd_where p (closed_row d f) ?t" "managed_desktops d' = managed_desktops d"
    using assms(3) by (auto simp: closed_as_def Let_def)
  have e: "desk_epoch d' s = desk_epoch d s + (if s \<in> ?S then 1 else 0)" for s
    using assms(3) unfolding closed_as_def Let_def by blast
  have named: "desktop_named d' = desktop_named d" by (simp add: desktop_named_def t' fun_eq_iff)
  consider (closed) l where "l \<in> set ?t" "p l" "l' = closed_row d f l" | (kept) "l' \<in> set ?t" "\<not> p l'"
    using assms(5) by (auto simp: t' in_upd_where)
  then show ?thesis
  proof cases
    case closed
    note * = closed_row_simps [OF assms(1) closed(2), of d]
    have "revs_cover (desktop_computer_revocations d') l'" using cover closed by auto
    moreover have "l_desktop_id l \<in> ?S" using closed by auto
    ultimately show ?thesis
      using * closed(3) desk_epoch_nonneg [OF assms(2), of "l_desktop_id l"] by (simp add: lease_inv_def e)
  next
    case kept
    have "l_state l' \<noteq> LeaseActive" if "l_desktop_id l' \<in> ?S"
    proof
      assume a: "l_state l' = LeaseActive"
      from that obtain l where l: "l \<in> set ?t" "p l" "l_desktop_id l' = l_desktop_id l" by auto
      then have "l_state l = LeaseActive" using assms(1) by (simp add: closes_def)
      from active_unique [OF lu kept(1) l(1) a this l(3)] kept(2) l(2) show False by simp
    qed
    then show ?thesis
      using li [OF kept(1)] cover by (auto simp: lease_inv_def e named split: if_splits)
  qed
qed

lemma session_inv_close:
  assumes "closes p f" "authority_inv d" "session_inv d" "closed_as now p f d d'" "ags_wf d'"
  shows "session_inv d'"
proof -
  let ?t = "desktop_leases d"
  let ?ids = "l_id ` set (filter p ?t)"
  have t': "desktop_leases d' = upd_where p (closed_row d f) ?t"
    "agent_guest_sessions d' = revoke_sessions now ?ids (agent_guest_sessions d)"
    using assms(4) by (auto simp: closed_as_def Let_def)
  have "session_lease (desktop_leases d') (if s_lease_id s \<in> ?ids \<and> ags_open s then revoke_row now s else s)"
    if "s \<in> set (agent_guest_sessions d)" for s
  proof -
    from assms(3) that obtain l where l: "l \<in> set ?t" "l_id l = s_lease_id s" "l_agent_id l = s_agent_id s"
      "l_desktop_id l = Itoa (s_desktop_vmid s)"
      "if ags_open s then l_state l = LeaseActive \<and> l_control_epoch l = s_control_epoch s
       else l_state l \<noteq> LeaseActive \<and> s_control_epoch s < l_control_epoch l"
      by (auto simp: session_inv_def session_lease_def)
    have "l_control_epoch l \<le> desk_epoch d (l_desktop_id l)"
      using assms(2) l(1) by (auto simp: authority_inv_def lease_inv_def)
    moreover have "s_lease_id s \<in> ?ids \<longleftrightarrow> p l"
    proof
      assume "s_lease_id s \<in> ?ids"
      then obtain l0 where "l0 \<in> set ?t" "p l0" "l_id l0 = s_lease_id s" by auto
      moreover have "unique_by l_id ?t" using assms(2) by (auto simp: authority_inv_def leases_unique_def)
      ultimately show "p l" using unique_by_same [of l_id ?t l l0] l by auto
    qed (use l in force)
    moreover have "p l \<Longrightarrow> l_state l = LeaseActive" using assms(1) by (simp add: closes_def)
    ultimately show ?thesis
      using l closed_row_simps [OF assms(1), of l d]
      unfolding session_lease_def t' bex_upd_where
      by (intro bexI [of _ l]) (auto simp: revoke_row_def ags_open_def split: if_splits)
  qed
  then show ?thesis
    unfolding session_inv_def t'(2) revoke_sessions_def ball_upd_where using assms(5) by blast
qed

theorem close_leases_ok:
  assumes "closes p f" "authority_inv d" "session_inv d"
  shows "\<exists>d'. update_leases now p f d = Inr (map (closed_row d f) (filter p (desktop_leases d)), d') \<and>
              closed_as now p f d d' \<and> authority_inv d' \<and> session_inv d' \<and>
              (\<forall>l \<in> set (filter p (desktop_leases d)). revs_fence (desktop_computer_revocations d') (closed_row d f l))"
proof -
  let ?t = "desktop_leases d"
  have wf: "ags_wf d" using assms(3) by (simp add: session_inv_def)
  have lu: "leases_unique ?t" and rw: "revs_wf (fence_limit d) (desktop_computer_revocations d)"
    using assms(2) by (auto simp: authority_inv_def)
  obtain d' where d': "update_leases now p f d = Inr (map (closed_row d f) (filter p ?t), d')"
    "closed_as now p f d d'" "ags_wf d'" "epochs_wf (desktop_computer_epochs d')"
    and revs: "\<And>limit. revs_wf limit (desktop_computer_revocations d) \<Longrightarrow>
       \<forall>l \<in> set ?t. p l \<longrightarrow> desk_epoch d (l_desktop_id l) + 1 \<le> limit (l_desktop_id l) \<Longrightarrow>
       revs_wf limit (desktop_computer_revocations d') \<and>
       (\<forall>l. revs_cover (desktop_computer_revocations d) l \<longrightarrow> revs_cover (desktop_computer_revocations d') l) \<and>
       (\<forall>l \<in> closed_row d f ` set (filter p ?t). revs_fence (desktop_computer_revocations d') l)"
    using update_leases_close [OF assms(1,2) wf, of now] by blast
  note limit = fence_limit_close [OF assms(1) lu d'(2)]
  have r': "revs_wf (fence_limit d') (desktop_computer_revocations d')"
    "\<forall>l. revs_cover (desktop_computer_revocations d) l \<or> l \<in> closed_row d f ` set (filter p ?t) \<longrightarrow>
         revs_cover (desktop_computer_revocations d') l"
    "\<forall>l \<in> set (filter p ?t). revs_fence (desktop_computer_revocations d') (closed_row d f l)"
    using revs [of "fence_limit d'"] revs_wf_mono [OF rw limit(1)] limit(2) revs_fence_cover by auto
  have t': "desktop_leases d' = upd_where p (closed_row d f) ?t"
    using d'(2) by (auto simp: closed_as_def Let_def)
  have "authority_inv d'"
    using assms(2) d'(4) r'(1) lease_inv_close [OF assms(1,2) d'(2) r'(2)]
      leases_unique_close [OF assms(1) lu, of d] unique_epochs_close [OF assms(1,2)]
    by (simp add: authority_inv_def t')
  then show ?thesis using d' r'(3) session_inv_close [OF assms d'(2,3)] by blast
qed

section \<open>Inserting a lease\<close>

lemma fence_limit_insert:
  assumes "\<not> active_on d (l_desktop_id l)" "l_state l = LeaseActive" "desktop_leases d' = desktop_leases d @ [l]"
    "desk_epoch d' = (desk_epoch d)(l_desktop_id l := desk_epoch d (l_desktop_id l) + 1)"
  shows "fence_limit d' = fence_limit d"
  using assms by (auto simp: fence_limit_def active_on_def fun_eq_iff)

lemma insert_lease_Inr:
  assumes "insert_lease now row d = Inr (l, d')" "l_state row = LeaseActive"
  shows "l = row\<lparr>l_control_epoch := desk_epoch d (l_desktop_id row) + 1\<rparr>"
    and "epochs_bumped {l_desktop_id row} d (d'\<lparr>desktop_leases := desktop_leases d\<rparr>)"
    and "desktop_leases d' = desktop_leases d @ [l]" "leases_unique (desktop_leases d')"
    and "desktop_named d (l_desktop_id row) \<noteq> None"
    and "\<not> list_ex (\<lambda>a. Itoa (na_desktop_vmid a) = l_desktop_id row \<and> native_reserves a) (native_guest_accounts d)"
proof -
  obtain d1 where before: "lease_before now None row d = Inr (l, d1)"
    and d': "d' = d1\<lparr>desktop_leases := desktop_leases d1 @ [l]\<rparr>" and u: "leases_unique (desktop_leases d1 @ [l])"
    using assms(1) by (auto simp: insert_lease_def bindE_eq_Inr guardE_eq_Inr Let_def)
  show named: "desktop_named d (l_desktop_id row) \<noteq> None"
    and guard: "\<not> list_ex (\<lambda>a. Itoa (na_desktop_vmid a) = l_desktop_id row \<and> native_reserves a) (native_guest_accounts d)"
    using before assms(2)
    by (auto simp: lease_before_def bindE_eq_Inr protect_agent_lease_from_native_reservation_def
        guardE_eq_Inr assign_desktop_computer_epoch_def split: option.splits)
  have "\<exists>d'. lease_before now None row d =
          Inr (row\<lparr>l_control_epoch := desk_epoch d (l_desktop_id row) + 1\<rparr>, d') \<and>
        epochs_bumped {l_desktop_id row} d d'"
    by (rule lease_before_assigned) (use named guard in auto)
  with before have l: "l = row\<lparr>l_control_epoch := desk_epoch d (l_desktop_id row) + 1\<rparr>"
    and b: "epochs_bumped {l_desktop_id row} d d1" by auto
  then obtain es where es: "d1 = d\<lparr>desktop_computer_epochs := es\<rparr>" by (auto simp: epochs_bumped_def)
  show "l = row\<lparr>l_control_epoch := desk_epoch d (l_desktop_id row) + 1\<rparr>" by (rule l)
  show "desktop_leases d' = desktop_leases d @ [l]" "leases_unique (desktop_leases d')"
    using u by (simp_all add: d' es)
  have "d'\<lparr>desktop_leases := desktop_leases d\<rparr> = d1" by (simp add: d' es)
  with b show "epochs_bumped {l_desktop_id row} d (d'\<lparr>desktop_leases := desktop_leases d\<rparr>)" by simp
qed

lemma lease_inv_mono:
  assumes "lease_inv d l" "desk_epoch d' (l_desktop_id l) = desk_epoch d (l_desktop_id l)"
    "\<And>s. desktop_named d s \<noteq> None \<Longrightarrow> desktop_named d' s \<noteq> None"
    "desktop_computer_revocations d' = desktop_computer_revocations d"
  shows "lease_inv d' l"
  using assms by (auto simp: lease_inv_def split: if_splits)

theorem insert_lease_inv:
  assumes "authority_inv d" "session_inv d" "l_state row = LeaseActive" "insert_lease now row d = Inr (l, d')"
  shows "authority_inv d'" and "session_inv d'" and "\<not> active_on d (l_desktop_id row)"
    and "\<exists>es. d' = d\<lparr>desktop_computer_epochs := es, desktop_leases := desktop_leases d @ [l]\<rparr>"
proof -
  note ins = insert_lease_Inr [OF assms(4,3)]
  let ?s = "l_desktop_id row"
  have ls: "l_state l = LeaseActive" "l_desktop_id l = ?s" "l_control_epoch l = desk_epoch d ?s + 1"
    using ins(1) assms(3) by auto
  have bumped: "epochs_wf (desktop_computer_epochs d')"
    and epoch: "\<And>s. desk_epoch d' s = desk_epoch d s + (if s = ?s then 1 else 0)"
    using ins(2) assms(1) by (auto simp: epochs_bumped_def authority_inv_def desk_epoch_def)
  from ins(2) obtain es where es: "d'\<lparr>desktop_leases := desktop_leases d\<rparr> = d\<lparr>desktop_computer_epochs := es\<rparr>"
    by (auto simp: epochs_bumped_def)
  have "d' = d'\<lparr>desktop_leases := desktop_leases d\<rparr>\<lparr>desktop_leases := desktop_leases d @ [l]\<rparr>"
    using ins(3) by simp
  then have d': "d' = d\<lparr>desktop_computer_epochs := es, desktop_leases := desktop_leases d @ [l]\<rparr>"
    unfolding es by simp
  then show "\<exists>es. d' = d\<lparr>desktop_computer_epochs := es, desktop_leases := desktop_leases d @ [l]\<rparr>" by blast
  show free: "\<not> active_on d ?s"
  proof
    assume "active_on d ?s"
    then obtain l0 where l0: "l0 \<in> set (desktop_leases d)" "l_state l0 = LeaseActive" "l_desktop_id l0 = ?s"
      by (auto simp: active_on_def list_ex_iff)
    have "leases_unique (desktop_leases d @ [l])" using ins(3,4) by simp
    then have "l_desktop_id l \<notin> l_desktop_id ` set (filter (\<lambda>l. l_state l = LeaseActive) (desktop_leases d))"
      using ls(1) by (auto simp: leases_unique_def)
    with l0 ls show False by (auto simp: image_iff)
  qed
  have old: "l_control_epoch l0 \<le> desk_epoch d ?s" if "l0 \<in> set (desktop_leases d)" "l_desktop_id l0 = ?s" for l0
    using assms(1) that by (auto simp: authority_inv_def lease_inv_def)
  have named: "desktop_named d' = desktop_named d" by (simp add: d' desktop_named_def fun_eq_iff)
  have revs: "desktop_computer_revocations d' = desktop_computer_revocations d" by (simp add: d')
  have "lease_inv d' l0" if l0: "l0 \<in> set (desktop_leases d)" for l0
  proof (cases "l_desktop_id l0 = ?s")
    case True
    then have "l_state l0 \<noteq> LeaseActive" using free l0 by (auto simp: active_on_def list_ex_iff)
    moreover have "lease_inv d l0" using assms(1) l0 by (simp add: authority_inv_def)
    ultimately show ?thesis using True by (simp add: lease_inv_def epoch revs)
  next
    case False
    have "lease_inv d l0" using assms(1) l0 by (simp add: authority_inv_def)
    then show ?thesis by (rule lease_inv_mono) (simp_all add: False epoch named revs)
  qed
  moreover have "lease_inv d' l"
    using ls ins(5) desk_epoch_nonneg [OF assms(1), of ?s] by (simp add: lease_inv_def epoch named)
  ultimately have all: "\<forall>x \<in> set (desktop_leases d'). lease_inv d' x" by (auto simp: ins(3))
  have "(l_desktop_id l, l_control_epoch l) \<noteq> (l_desktop_id l0, l_control_epoch l0)"
    if "l0 \<in> set (desktop_leases d)" for l0
    using old [OF that] ls by auto
  then have "unique_by (\<lambda>l. (l_desktop_id l, l_control_epoch l)) (desktop_leases d')"
    using assms(1) unfolding ins(3) authority_inv_def by auto
  moreover have "fence_limit d' = fence_limit d"
    by (rule fence_limit_insert [of _ l]) (use free ls ins(3) epoch in auto)
  ultimately show "authority_inv d'"
    using assms(1) bumped ins(4) all unfolding authority_inv_def revs by simp
  have "session_lease (desktop_leases d @ [l]) s" if "session_lease (desktop_leases d) s" for s
    using that by (auto simp: session_lease_def)
  then show "session_inv d'"
    using assms(2) by (simp add: session_inv_def d' ags_wf_def)
qed

section \<open>Frames\<close>

text \<open>
  The invariants read seven tables only.  A change elsewhere keeps them, and so does a change of the
  managed desktops that loses none of them.
\<close>

lemma authority_inv_frame:
  assumes "authority_inv d"
    and "desktop_leases d' = desktop_leases d" "desktop_computer_epochs d' = desktop_computer_epochs d"
    and "desktop_computer_revocations d' = desktop_computer_revocations d"
    and "md_vmid ` set (managed_desktops d) \<subseteq> md_vmid ` set (managed_desktops d')"
  shows "authority_inv d'"
proof -
  have e: "desk_epoch d' = desk_epoch d" using assms(3) by (rule desk_epoch_cong)
  have "active_on d' = active_on d" by (simp add: active_on_def assms(2) fun_eq_iff)
  then have "fence_limit d' = fence_limit d" by (simp add: fence_limit_def e fun_eq_iff)
  moreover have "desktop_named d' s \<noteq> None" if "desktop_named d s \<noteq> None" for s
  proof -
    from that obtain m where "m \<in> set (managed_desktops d)" "Itoa (md_vmid m) = s"
      by (auto simp: desktop_named_def dest: find_SomeD)
    with assms(5) obtain m' where "m' \<in> set (managed_desktops d')" "Itoa (md_vmid m') = s" by (auto simp: subset_iff image_iff)
    then show ?thesis by (auto simp: desktop_named_def find_None_iff)
  qed
  ultimately show ?thesis
    using assms(1-4) e by (auto simp: authority_inv_def intro: lease_inv_mono)
qed

lemma session_inv_frame:
  assumes "session_inv d" "desktop_leases d' = desktop_leases d"
    "agent_guest_sessions d' = agent_guest_sessions d" "native_guest_accounts d' = native_guest_accounts d"
  shows "session_inv d'"
  using assms by (simp add: session_inv_def ags_wf_def)

lemma update_ags_session_inv:
  assumes "session_inv d" "update_ags p f d = Inr (rs, d')"
    and "\<And>r. r \<in> set (agent_guest_sessions d) \<Longrightarrow> p r \<Longrightarrow> session_lease (desktop_leases d) r \<Longrightarrow>
            session_lease (desktop_leases d) (f r)"
  shows "session_inv d'"
proof -
  have "ags_wf d'" using assms(1,2) update_ags_wf by (auto simp: session_inv_def)
  moreover have d': "d' = d\<lparr>agent_guest_sessions := upd_where p f (agent_guest_sessions d)\<rparr>"
    using assms(2) by (simp add: update_ags_eq_Inr)
  moreover have "session_lease (desktop_leases d) (if p r then f r else r)" if "r \<in> set (agent_guest_sessions d)" for r
    using assms(1,3) that by (auto simp: session_inv_def)
  ultimately show ?thesis
    unfolding session_inv_def by (simp add: ball_upd_where)
qed

lemma update_ags_authority_inv:
  assumes "authority_inv d" "update_ags p f d = Inr (rs, d')"
  shows "authority_inv d'"
  using assms by (intro authority_inv_frame [OF assms(1)]) (auto simp: update_ags_eq_Inr)

lemma authority_inv_empty: "authority_inv empty_db" and session_inv_empty: "session_inv empty_db"
  by (simp_all add: authority_inv_def session_inv_def empty_db_def epochs_wf_def leases_unique_def revs_wf_def
      ags_wf_def ags_unique_def)

text \<open>The two together, as the operations of the store keep them.\<close>

definition fenced :: "db \<Rightarrow> bool" where
  "fenced d \<longleftrightarrow> authority_inv d \<and> session_inv d"

lemma fenced_empty: "fenced empty_db"
  by (simp add: fenced_def authority_inv_empty session_inv_empty)

lemma update_leases_fenced:
  assumes "closes p f" "fenced d" "update_leases now p f d = Inr (rs, d')"
  shows "fenced d'" and "closed_as now p f d d'" and "rs = map (closed_row d f) (filter p (desktop_leases d))"
    and "\<forall>l \<in> set rs. revs_fence (desktop_computer_revocations d') l"
  using close_leases_ok [OF assms(1), of d now] assms(2,3) by (auto simp: fenced_def)

lemma fenced_frame:
  assumes "fenced d"
    and "desktop_leases d' = desktop_leases d" "desktop_computer_epochs d' = desktop_computer_epochs d"
    and "desktop_computer_revocations d' = desktop_computer_revocations d"
    and "agent_guest_sessions d' = agent_guest_sessions d" "native_guest_accounts d' = native_guest_accounts d"
    and "md_vmid ` set (managed_desktops d) \<subseteq> md_vmid ` set (managed_desktops d')"
  shows "fenced d'"
  using assms authority_inv_frame session_inv_frame by (auto simp: fenced_def)

end
