(* ===== verification/Revision_Queue.thy ===== *)
theory Revision_Queue
  imports Store_Schema
begin

text \<open>
  The contract of the two revocation queues of the store.  A row carries the revision that was last
  requested and the one that was last completed; a worker reads the requested revision, does its work
  in the Guest, and completes exactly that revision.  The client's lemma is that a request made while
  the work was under way is never lost: no completion of an older revision clears it.
\<close>

datatype ('p, 'q, 'k) queue_event = Request 'p 'k | Finish 'q 'k int

fun run_queue ::
  "('p \<Rightarrow> 'k \<Rightarrow> 'd \<Rightarrow> 'd) \<Rightarrow> ('q \<Rightarrow> 'k \<Rightarrow> int \<Rightarrow> 'd \<Rightarrow> 'd) \<Rightarrow> ('p, 'q, 'k) queue_event list \<Rightarrow> 'd \<Rightarrow> 'd" where
  "run_queue req fin [] d = d"
| "run_queue req fin (Request p k # es) d = run_queue req fin es (req p k d)"
| "run_queue req fin (Finish q k n # es) d = run_queue req fin es (fin q k n d)"

text \<open>The completions of \<open>k\<close> in a list of events are all of revisions up to \<open>n\<close>.\<close>

definition finishes_upto :: "'k \<Rightarrow> int \<Rightarrow> ('p, 'q, 'k) queue_event list \<Rightarrow> bool" where
  "finishes_upto k n es \<longleftrightarrow> list_all (\<lambda>e. case e of Request _ _ \<Rightarrow> True | Finish _ k' m \<Rightarrow> k' = k \<longrightarrow> m \<le> n) es"

locale revision_queue =
  fixes wf :: "'d \<Rightarrow> bool"
    and pending :: "'d \<Rightarrow> 'k \<Rightarrow> bool"
    and revision :: "'d \<Rightarrow> 'k \<Rightarrow> int"
    and request :: "'p \<Rightarrow> 'k \<Rightarrow> 'd \<Rightarrow> 'd"
    and finish :: "'q \<Rightarrow> 'k \<Rightarrow> int \<Rightarrow> 'd \<Rightarrow> 'd"
  assumes request_wf: "wf d \<Longrightarrow> wf (request p k d)"
    and finish_wf: "wf d \<Longrightarrow> wf (finish q k n d)"
    and request_pending: "wf d \<Longrightarrow> pending (request p k d) k"
    and request_revision: "wf d \<Longrightarrow> revision d k < revision (request p k d) k"
    and request_other: "wf d \<Longrightarrow> k' \<noteq> k \<Longrightarrow> pending (request p k d) k' = pending d k' \<and>
                          revision (request p k d) k' = revision d k'"
    and finish_stale: "wf d \<Longrightarrow> n < revision d k \<Longrightarrow> pending d k \<Longrightarrow>
                         pending (finish q k n d) k \<and> revision (finish q k n d) k = revision d k"
    and finish_other: "wf d \<Longrightarrow> k' \<noteq> k \<Longrightarrow> pending (finish q k n d) k' = pending d k' \<and>
                         revision (finish q k n d) k' = revision d k'"
begin

lemma request_survives:
  assumes "wf d" "pending d k" "n < revision d k" "finishes_upto k n es"
  shows "pending (run_queue request finish es d) k \<and> n < revision (run_queue request finish es d) k"
  using assms
proof (induction es arbitrary: d)
  case Nil
  then show ?case by simp
next
  case (Cons e es)
  have es: "finishes_upto k n es" using Cons.prems(4) by (simp add: finishes_upto_def)
  show ?case
  proof (cases e)
    case (Request p k')
    have "pending (request p k' d) k \<and> n < revision (request p k' d) k"
      using Cons.prems request_pending request_revision [of d k p] request_other [of d k k' p]
      by (cases "k' = k") auto
    then show ?thesis using Cons.IH [of "request p k' d"] Cons.prems(1) es request_wf Request by simp
  next
    case (Finish q k' m)
    have "k' = k \<Longrightarrow> m \<le> n" using Cons.prems(4) Finish by (simp add: finishes_upto_def)
    then have "pending (finish q k' m d) k \<and> n < revision (finish q k' m d) k"
      using Cons.prems finish_stale [of d m k q] finish_other [of d k k' q m]
      by (cases "k' = k") auto
    then show ?thesis using Cons.IH [of "finish q k' m d"] Cons.prems(1) es finish_wf Finish by simp
  qed
qed

lemma newer_request_survives:
  assumes "wf d" "finishes_upto k (revision d k) es"
  shows "pending (run_queue request finish es (request p k d)) k"
  using request_survives [of "request p k d" k "revision d k" es] assms
    request_wf request_pending request_revision by blast

end

end
