(* ===== verification/Leases.thy ===== *)
theory Leases
  imports Authority_Invariant Revision_Queue
begin

text \<open>
  The operations of the store on desktop leases (\<open>store.go\<close>) and on the queue that fences a VM
  (\<open>computer_revocation.go\<close>, \<open>QueueExpiredComputerLeases\<close> of \<open>agent_guest_session.go\<close>).  \<open>now\<close> is the
  \<open>now()\<close> of the statement's transaction, \<open>fault\<close> what the database driver does.
\<close>

section \<open>Leases\<close>

text \<open>\<open>CreateDesktopLease\<close> (store.go)\<close>

definition expire_leases :: "time \<Rightarrow> db \<Rightarrow> err + (DesktopLease list \<times> db)" where
  "expire_leases now d =
     update_leases now (\<lambda>l. l_state l = LeaseActive \<and> l_expires_at l \<le> now)
       (\<lambda>l. l\<lparr>l_state := LeaseExpired, l_updated_at := now\<rparr>) d"

definition lease_conflict :: "err \<Rightarrow> err" where
  "lease_conflict e = (if e = SqlErr UniqueViolation then ErrAlreadyLeased else e)"

text \<open>The row of the INSERT; the column default of \<open>control_epoch\<close> is 1.\<close>

definition new_lease :: "time \<Rightarrow> DesktopLease \<Rightarrow> DesktopLease" where
  "new_lease now lease =
     \<lparr>l_id = l_id lease, l_agent_id = l_agent_id lease, l_desktop_id = l_desktop_id lease,
      l_state = LeaseActive, l_control_epoch = 1, l_expires_at = l_expires_at lease,
      l_created_at = now, l_updated_at = now\<rparr>"

definition create_lease_tx :: "time \<Rightarrow> DesktopLease \<Rightarrow> db \<Rightarrow> err + (DesktopLease \<times> db)" where
  "create_lease_tx now lease d =
     (let allowed = agent_desktop_access d (l_agent_id lease) (\<lambda>m. Itoa (md_vmid m) = l_desktop_id lease);
          humanControlled = list_ex (\<lambda>c. Itoa (c_desktop_vmid c) = l_desktop_id lease \<and> conn_open c)
                              (desktop_connection_sessions d)
      in bindE (guardE ErrNotFound allowed) (\<lambda>_.
         bindE (guardE ErrAlreadyLeased (\<not> humanControlled)) (\<lambda>_.
         bindE (expire_leases now d) (\<lambda>(_, d1).
         mapErr lease_conflict (insert_lease now (new_lease now lease) d1)))))"

definition CreateDesktopLease ::
  "tx_fault \<Rightarrow> time \<Rightarrow> DesktopLease \<Rightarrow> db \<Rightarrow> db \<times> (err + DesktopLease)" where
  "CreateDesktopLease fault now lease d = run_tx fault (create_lease_tx now lease) d"

definition DesktopLeaseByID :: "tx_fault \<Rightarrow> time \<Rightarrow> string \<Rightarrow> db \<Rightarrow> err + DesktopLease" where
  "DesktopLeaseByID fault now lease_id d =
     run_query fault (\<lambda>d.
       bindE (query_row ErrNotFound (\<lambda>l. l_id l = lease_id) (desktop_leases d)) (\<lambda>l.
         Inr (if l_state l = LeaseActive \<and> l_expires_at l \<le> now then l\<lparr>l_state := LeaseExpired\<rparr> else l))) d"

text \<open>\<open>ORDER BY expires_at,id\<close>; \<open>coll\<close> is the collation of the database.\<close>

definition ActiveDesktopLeases ::
  "(string \<Rightarrow> string \<Rightarrow> bool) \<Rightarrow> tx_fault \<Rightarrow> time \<Rightarrow> db \<Rightarrow> err + DesktopLease list" where
  "ActiveDesktopLeases coll fault now d =
     run_query fault (\<lambda>d. Inr (order_by
       (\<lambda>a b. l_expires_at a < l_expires_at b \<or> (l_expires_at a = l_expires_at b \<and> coll (l_id a) (l_id b)))
       (filter (\<lambda>l. l_state l = LeaseActive \<and> now < l_expires_at l) (desktop_leases d)))) d"

definition close_lease_as :: "lease_state \<Rightarrow> time \<Rightarrow> DesktopLease \<Rightarrow> DesktopLease" where
  "close_lease_as st now l =
     l\<lparr>l_state := st, l_control_epoch := l_control_epoch l + 1, l_updated_at := now\<rparr>"

definition ReleaseDesktopLease :: "tx_fault \<Rightarrow> time \<Rightarrow> string \<Rightarrow> db \<Rightarrow> db \<times> (err + DesktopLease)" where
  "ReleaseDesktopLease fault now lease_id d =
     then_check
       (run_tx fault (update_leases now (\<lambda>l. l_id l = lease_id \<and> l_state l = LeaseActive)
                        (close_lease_as LeaseReleased now)) d)
       (\<lambda>rs. case rs of [] \<Rightarrow> Inl ErrNotFound | r # _ \<Rightarrow> Inr r)"

definition RevokeDesktopLeases :: "tx_fault \<Rightarrow> time \<Rightarrow> int \<Rightarrow> db \<Rightarrow> db \<times> (err + DesktopLease list)" where
  "RevokeDesktopLeases fault now vmid d =
     (if vmid \<le> 0 then (d, Inl (ErrMsg ''desktop identifier is invalid''))
      else run_tx fault (update_leases now (\<lambda>l. l_desktop_id l = Itoa vmid \<and> l_state l = LeaseActive)
                           (close_lease_as LeaseRevoked now)) d)"

definition QueueExpiredComputerLeases :: "tx_fault \<Rightarrow> time \<Rightarrow> int \<Rightarrow> db \<Rightarrow> db \<times> (err + unit)" where
  "QueueExpiredComputerLeases fault now vmid d =
     then_check
       (run_tx fault (update_leases now
          (\<lambda>l. l_state l = LeaseActive \<and> l_expires_at l \<le> now \<and> (vmid = 0 \<or> l_desktop_id l = Itoa vmid))
          (close_lease_as LeaseExpired now)) d)
       (\<lambda>_. Inr ())"

section \<open>Epochs and the fencing queue\<close>

text \<open>\<open>ComputerControlEpoch\<close>: the counter of the VM, created at 1 when there is none.\<close>

definition computer_epoch_tx :: "time \<Rightarrow> int \<Rightarrow> db \<Rightarrow> err + (int \<times> db)" where
  "computer_epoch_tx now vmid d =
     (if \<not> list_ex (\<lambda>m. md_vmid m = vmid) (managed_desktops d) then Inl ErrNotFound
      else case find (\<lambda>e. e_desktop_vmid e = vmid) (desktop_computer_epochs d) of
             Some e \<Rightarrow> Inr (e_control_epoch e, d)
           | None \<Rightarrow> Inr (1, d\<lparr>desktop_computer_epochs := desktop_computer_epochs d @
                                [\<lparr>e_desktop_vmid = vmid, e_control_epoch = 1, e_updated_at = now\<rparr>]\<rparr>))"

definition ComputerControlEpoch :: "tx_fault \<Rightarrow> time \<Rightarrow> int \<Rightarrow> db \<Rightarrow> db \<times> (err + int)" where
  "ComputerControlEpoch fault now vmid d = run_tx fault (computer_epoch_tx now vmid) d"

definition ComputerRevocationEpoch :: "tx_fault \<Rightarrow> int \<Rightarrow> db \<Rightarrow> err + int" where
  "ComputerRevocationEpoch fault vmid d =
     run_query fault (\<lambda>d.
       bindE (query_row ErrNotFound (\<lambda>q. cr_desktop_vmid q = vmid) (desktop_computer_revocations d)) (\<lambda>q.
         Inr (cr_control_epoch q))) d"

text \<open>A queued item, \<open>ComputerRevocation\<close> of the Go code: the desktop and the revision to complete.\<close>

type_synonym computer_item = "int \<times> int"

definition PendingComputerRevocations :: "tx_fault \<Rightarrow> int \<Rightarrow> db \<Rightarrow> err + computer_item list" where
  "PendingComputerRevocations fault vmid d =
     run_query fault (\<lambda>d. Inr (map (\<lambda>q. (cr_desktop_vmid q, cr_requested_revision q)) (take 100 (order_by
       (\<lambda>a b. cr_updated_at a < cr_updated_at b \<or>
              (cr_updated_at a = cr_updated_at b \<and> cr_desktop_vmid a \<le> cr_desktop_vmid b))
       (filter (\<lambda>q. cr_completed_revision q < cr_requested_revision q \<and> (vmid = 0 \<or> cr_desktop_vmid q = vmid))
          (desktop_computer_revocations d)))))) d"

definition computer_item_open :: "computer_item \<Rightarrow> ComputerRevocation \<Rightarrow> bool" where
  "computer_item_open item q \<longleftrightarrow>
     cr_desktop_vmid q = fst item \<and> cr_requested_revision q = snd item \<and> cr_completed_revision q < snd item"

definition CompleteComputerRevocation :: "tx_fault \<Rightarrow> time \<Rightarrow> computer_item \<Rightarrow> db \<Rightarrow> db \<times> (err + unit)" where
  "CompleteComputerRevocation fault now item d =
     then_check
       (run_tx fault (\<lambda>d.
          let hit = filter (computer_item_open item) (desktop_computer_revocations d);
              d1 = d\<lparr>desktop_computer_revocations := upd_where (computer_item_open item)
                       (\<lambda>q. q\<lparr>cr_completed_revision := snd item, cr_updated_at := now\<rparr>)
                       (desktop_computer_revocations d)\<rparr>
          in Inr (length hit, fold (\<lambda>q. insert_audit now None ''agent.computer_authority_revoked'' ''success''
                       (Some ''virtual_machine'') (Some (Itoa (cr_desktop_vmid q)))
                       (AObj [(''vmid'', AInt (cr_desktop_vmid q)), (''revision'', AInt (snd item))])) hit d1)) d)
       (\<lambda>n. guardE ErrConflict (n = 1))"

text \<open>\<open>DeferComputerRevocation\<close> ignores its error.\<close>

definition DeferComputerRevocation :: "tx_fault \<Rightarrow> time \<Rightarrow> computer_item \<Rightarrow> db \<Rightarrow> db" where
  "DeferComputerRevocation fault now item d =
     fst (run_tx fault (\<lambda>d. Inr ((), d\<lparr>desktop_computer_revocations := upd_where (computer_item_open item)
            (\<lambda>q. q\<lparr>cr_updated_at := now\<rparr>) (desktop_computer_revocations d)\<rparr>)) d)"

section \<open>Every operation keeps the invariant\<close>

lemma closes_close_lease_as:
  "st \<noteq> LeaseActive \<Longrightarrow> (\<And>l. p l \<Longrightarrow> l_state l = LeaseActive) \<Longrightarrow> closes p (close_lease_as st now)"
  by (auto simp: closes_def close_lease_as_def)

lemma closes_expire:
  "closes (\<lambda>l. l_state l = LeaseActive \<and> l_expires_at l \<le> now) (\<lambda>l. l\<lparr>l_state := LeaseExpired, l_updated_at := now\<rparr>)"
  by (simp add: closes_def)

lemma update_leases_keeps_fenced:
  "closes p f \<Longrightarrow> fenced d \<Longrightarrow> fenced (fst (run_tx fault (update_leases now p f) d))"
  by (rule run_tx_preserves) (auto intro: update_leases_fenced)

lemma create_lease_tx_fenced:
  assumes "fenced d" "create_lease_tx now lease d = Inr (l, d')"
  shows "fenced d'"
proof -
  from assms(2) obtain rs d1 where "expire_leases now d = Inr (rs, d1)"
    and ins: "insert_lease now (new_lease now lease) d1 = Inr (l, d')"
    by (auto simp: create_lease_tx_def Let_def bindE_eq_Inr mapErr_eq_Inr)
  then have "fenced d1" using update_leases_fenced(1) [OF closes_expire assms(1)] by (auto simp: expire_leases_def)
  then show ?thesis using insert_lease_inv [OF _ _ _ ins] by (simp add: fenced_def new_lease_def)
qed

lemma CreateDesktopLease_fenced: "fenced d \<Longrightarrow> fenced (fst (CreateDesktopLease fault now lease d))"
  unfolding CreateDesktopLease_def by (rule run_tx_preserves) (auto intro: create_lease_tx_fenced)

lemma ReleaseDesktopLease_fenced: "fenced d \<Longrightarrow> fenced (fst (ReleaseDesktopLease fault now lease_id d))"
  by (auto simp: ReleaseDesktopLease_def intro!: update_leases_keeps_fenced closes_close_lease_as)

lemma RevokeDesktopLeases_fenced: "fenced d \<Longrightarrow> fenced (fst (RevokeDesktopLeases fault now vmid d))"
  by (auto simp: RevokeDesktopLeases_def intro!: update_leases_keeps_fenced closes_close_lease_as)

lemma QueueExpiredComputerLeases_fenced: "fenced d \<Longrightarrow> fenced (fst (QueueExpiredComputerLeases fault now vmid d))"
  by (auto simp: QueueExpiredComputerLeases_def intro!: update_leases_keeps_fenced closes_close_lease_as)

lemma authority_inv_new_epoch:
  assumes "authority_inv d" "find (\<lambda>e. e_desktop_vmid e = v) (desktop_computer_epochs d) = None"
    and d': "d' = d\<lparr>desktop_computer_epochs := desktop_computer_epochs d @
               [\<lparr>e_desktop_vmid = v, e_control_epoch = 1, e_updated_at = now\<rparr>]\<rparr>"
  shows "authority_inv d'"
proof -
  have "v \<notin> e_desktop_vmid ` set (desktop_computer_epochs d)" using assms(2) by (auto simp: find_None_iff)
  then have "epochs_wf (desktop_computer_epochs d')" using assms(1) by (auto simp: d' authority_inv_def epochs_wf_def)
  have old: "desk_epoch d (Itoa v) = 0" using assms(2) by (simp add: desk_epoch_def)
  have epoch: "desk_epoch d' s = (if s = Itoa v then 1 else desk_epoch d s)" for s
    using assms(2) by (auto simp: desk_epoch_def d' find_snoc split: option.splits)
  have none: "l_desktop_id l \<noteq> Itoa v" if "l \<in> set (desktop_leases d)" for l
  proof -
    have "0 < desk_epoch d (l_desktop_id l)" using assms(1) that by (auto simp: authority_inv_def lease_inv_def)
    then show ?thesis using old by auto
  qed
  have same: "desktop_leases d' = desktop_leases d" "desktop_computer_revocations d' = desktop_computer_revocations d"
    by (simp_all add: d')
  have named: "desktop_named d' = desktop_named d" by (simp add: d' desktop_named_def fun_eq_iff)
  have "lease_inv d' l" if "l \<in> set (desktop_leases d)" for l
  proof (rule lease_inv_mono [of d])
    show "lease_inv d l" using assms(1) that by (simp add: authority_inv_def)
    show "desk_epoch d' (l_desktop_id l) = desk_epoch d (l_desktop_id l)" using none [OF that] by (simp add: epoch)
  qed (simp_all add: named same)
  moreover have "fence_limit d s \<le> fence_limit d' s" for s
  proof -
    have "active_on d' s = active_on d s" by (simp add: active_on_def same)
    moreover have "\<not> active_on d (Itoa v)" using none by (auto simp: active_on_def list_ex_iff)
    ultimately show ?thesis by (auto simp: fence_limit_def epoch old)
  qed
  then have "revs_wf (fence_limit d') (desktop_computer_revocations d)"
    using assms(1) by (auto simp: authority_inv_def intro: revs_wf_mono)
  ultimately show ?thesis
    using assms(1) \<open>epochs_wf (desktop_computer_epochs d')\<close> unfolding authority_inv_def same by simp
qed

lemma computer_epoch_tx_fenced:
  assumes "fenced d" "computer_epoch_tx now vmid d = Inr (k, d')"
  shows "fenced d'"
proof (cases "find (\<lambda>e. e_desktop_vmid e = vmid) (desktop_computer_epochs d)")
  case None
  with assms(2) have d': "d' = d\<lparr>desktop_computer_epochs := desktop_computer_epochs d @
             [\<lparr>e_desktop_vmid = vmid, e_control_epoch = 1, e_updated_at = now\<rparr>]\<rparr>"
    by (simp add: computer_epoch_tx_def split: if_splits)
  have "session_inv d'"
    by (rule session_inv_frame [of d]) (use assms(1) in \<open>simp_all add: d' fenced_def\<close>)
  moreover have "authority_inv d'"
    using authority_inv_new_epoch [OF _ None d'] assms(1) by (simp add: fenced_def)
  ultimately show ?thesis by (simp add: fenced_def)
next
  case (Some e)
  with assms show ?thesis by (simp add: computer_epoch_tx_def split: if_splits)
qed

lemma ComputerControlEpoch_fenced: "fenced d \<Longrightarrow> fenced (fst (ComputerControlEpoch fault now vmid d))"
  unfolding ComputerControlEpoch_def by (rule run_tx_preserves) (auto intro: computer_epoch_tx_fenced)

lemma Complete_frame:
  "fst (CompleteComputerRevocation fault now item d) = d \<or>
   (\<exists>audit. fst (CompleteComputerRevocation fault now item d) =
      d\<lparr>desktop_computer_revocations := upd_where (computer_item_open item)
           (\<lambda>q. q\<lparr>cr_completed_revision := snd item, cr_updated_at := now\<rparr>) (desktop_computer_revocations d),
        audit_events := audit\<rparr>)"
proof -
  have fold: "\<exists>audit. fold (\<lambda>q. insert_audit now None ev oc tt (g q) (h q)) qs x = x\<lparr>audit_events := audit\<rparr>"
    for ev oc tt g h and qs :: "ComputerRevocation list" and x
  proof (induction qs arbitrary: x)
    case Nil
    show ?case by (rule exI [of _ "audit_events x"]) simp
  next
    case (Cons q qs)
    show ?case using Cons [of "insert_audit now None ev oc tt (g q) (h q) x"] by (auto simp: insert_audit_def)
  qed
  show ?thesis
    unfolding CompleteComputerRevocation_def then_check_simps Let_def run_tx_def
    using fold by (auto split: tx_fault.splits)
qed

lemma revs_update_fenced:
  assumes "fenced d"
    and "\<And>q. q \<in> set (desktop_computer_revocations d) \<Longrightarrow> p q \<Longrightarrow>
           cr_desktop_vmid (f q) = cr_desktop_vmid q \<and> cr_control_epoch (f q) = cr_control_epoch q \<and>
           0 \<le> cr_completed_revision (f q) \<and> cr_completed_revision (f q) \<le> cr_requested_revision (f q)"
  shows "fenced (d\<lparr>desktop_computer_revocations := upd_where p f (desktop_computer_revocations d), audit_events := a\<rparr>)"
    (is "fenced ?d")
proof -
  let ?t = "desktop_computer_revocations d"
  have e: "desk_epoch ?d = desk_epoch d" by (rule desk_epoch_cong) simp
  have "fence_limit ?d = fence_limit d" by (simp add: fence_limit_def active_on_def e fun_eq_iff)
  moreover have "map cr_desktop_vmid (upd_where p f ?t) = map cr_desktop_vmid ?t"
    by (rule map_upd_where_key_on) (use assms(2) in auto)
  moreover have "revs_wf (fence_limit d) ?t" using assms(1) by (simp add: fenced_def authority_inv_def)
  ultimately have r: "revs_wf (fence_limit ?d) (upd_where p f ?t)"
    using assms(2) by (auto simp: revs_wf_def ball_upd_where)
  have "revs_cover (upd_where p f ?t) l" if "revs_cover ?t l" for l
    using that assms(2) unfolding revs_cover_def bex_upd_where by fastforce
  moreover have "desktop_named ?d = desktop_named d" by (simp add: desktop_named_def fun_eq_iff)
  ultimately have "lease_inv ?d l" if "lease_inv d l" for l
    using that e by (auto simp: lease_inv_def split: if_splits)
  with r have "authority_inv ?d" using assms(1) by (auto simp: fenced_def authority_inv_def)
  moreover have "session_inv ?d"
    by (rule session_inv_frame [of d]) (use assms(1) in \<open>simp_all add: fenced_def\<close>)
  ultimately show ?thesis by (simp add: fenced_def)
qed

lemma CompleteComputerRevocation_fenced:
  assumes "fenced d"
  shows "fenced (fst (CompleteComputerRevocation fault now item d))"
proof -
  have "0 \<le> cr_completed_revision q" if "q \<in> set (desktop_computer_revocations d)" for q
    using assms that by (auto simp: fenced_def authority_inv_def revs_wf_def)
  then have "fenced (d\<lparr>desktop_computer_revocations := upd_where (computer_item_open item)
           (\<lambda>q. q\<lparr>cr_completed_revision := snd item, cr_updated_at := now\<rparr>) (desktop_computer_revocations d),
        audit_events := a\<rparr>)" for a
    by (intro revs_update_fenced assms) (fastforce simp: computer_item_open_def)
  then show ?thesis using Complete_frame [of fault now item d] assms by auto
qed

lemma DeferComputerRevocation_fenced:
  assumes "fenced d"
  shows "fenced (DeferComputerRevocation fault now item d)"
  unfolding DeferComputerRevocation_def
proof (rule run_tx_preserves [where P = fenced, OF assms])
  fix x d'
  assume "Inr ((), d\<lparr>desktop_computer_revocations := upd_where (computer_item_open item)
            (\<lambda>q. q\<lparr>cr_updated_at := now\<rparr>) (desktop_computer_revocations d)\<rparr>) = (Inr (x, d') :: err + (unit \<times> db))"
  then have d': "d' = d\<lparr>desktop_computer_revocations := upd_where (computer_item_open item)
            (\<lambda>q. q\<lparr>cr_updated_at := now\<rparr>) (desktop_computer_revocations d)\<rparr>" by simp
  have "fenced (d\<lparr>desktop_computer_revocations := upd_where (computer_item_open item)
            (\<lambda>q. q\<lparr>cr_updated_at := now\<rparr>) (desktop_computer_revocations d), audit_events := audit_events d\<rparr>)"
    by (rule revs_update_fenced [OF assms]) (use assms in \<open>auto simp: fenced_def authority_inv_def revs_wf_def\<close>)
  then show "fenced d'" by (simp add: d')
qed

section \<open>What creating a lease does\<close>

definition live_lease_on :: "db \<Rightarrow> time \<Rightarrow> string \<Rightarrow> bool" where
  "live_lease_on d now desktop_id \<longleftrightarrow>
     list_ex (\<lambda>l. l_state l = LeaseActive \<and> l_desktop_id l = desktop_id \<and> now < l_expires_at l) (desktop_leases d)"

definition human_on :: "db \<Rightarrow> string \<Rightarrow> bool" where
  "human_on d desktop_id \<longleftrightarrow>
     list_ex (\<lambda>c. Itoa (c_desktop_vmid c) = desktop_id \<and> conn_open c) (desktop_connection_sessions d)"

definition native_on :: "db \<Rightarrow> string \<Rightarrow> bool" where
  "native_on d desktop_id \<longleftrightarrow>
     list_ex (\<lambda>a. Itoa (na_desktop_vmid a) = desktop_id \<and> native_reserves a) (native_guest_accounts d)"

definition agent_allowed :: "db \<Rightarrow> string \<Rightarrow> string \<Rightarrow> bool" where
  "agent_allowed d aid desktop_id \<longleftrightarrow> agent_desktop_access d aid (\<lambda>m. Itoa (md_vmid m) = desktop_id)"

lemma agent_allowed_named: "agent_allowed d aid s \<Longrightarrow> desktop_named d s \<noteq> None"
  by (auto simp: agent_allowed_def agent_desktop_access_def list_ex_iff desktop_named_def find_None_iff)

lemma expired_active_on:
  assumes "fenced d" "expire_leases now d = Inr (rs, d1)"
  shows "active_on d1 s \<longleftrightarrow> live_lease_on d now s"
    and "desk_epoch d1 s = desk_epoch d s + (if active_on d s \<and> \<not> live_lease_on d now s then 1 else 0)"
    and "\<exists>es qs ls ags. d1 = d\<lparr>desktop_leases := ls, desktop_computer_epochs := es,
              desktop_computer_revocations := qs, agent_guest_sessions := ags\<rparr>"
    and "l_id ` set (desktop_leases d1) = l_id ` set (desktop_leases d)"
    and "fenced d1"
proof -
  let ?p = "\<lambda>l. l_state l = LeaseActive \<and> l_expires_at l \<le> now"
  let ?f = "\<lambda>l. l\<lparr>l_state := LeaseExpired, l_updated_at := now\<rparr>"
  note u = update_leases_fenced [OF closes_expire assms(1) assms(2) [unfolded expire_leases_def]]
  have lu: "leases_unique (desktop_leases d)" using assms(1) by (simp add: fenced_def authority_inv_def)
  show "fenced d1" by (rule u(1))
  have S: "s \<in> l_desktop_id ` set (filter ?p (desktop_leases d)) \<longleftrightarrow> active_on d s \<and> \<not> live_lease_on d now s"
    using active_unique [OF lu] by (fastforce simp: active_on_def live_lease_on_def list_ex_iff)
  show "active_on d1 s \<longleftrightarrow> live_lease_on d now s"
    unfolding active_on_close [OF closes_expire lu u(2)] S by (auto simp: active_on_def live_lease_on_def list_ex_iff)
  show "desk_epoch d1 s = desk_epoch d s + (if active_on d s \<and> \<not> live_lease_on d now s then 1 else 0)"
    using u(2) unfolding closed_as_def Let_def S [symmetric] by blast
  show "\<exists>es qs ls ags. d1 = d\<lparr>desktop_leases := ls, desktop_computer_epochs := es,
              desktop_computer_revocations := qs, agent_guest_sessions := ags\<rparr>"
    using u(2) unfolding closed_as_def Let_def by blast
  have "map l_id (upd_where ?p (closed_row d ?f) (desktop_leases d)) = map l_id (desktop_leases d)"
    by (rule map_upd_where_key_on) (simp add: closed_row_def)
  moreover have "desktop_leases d1 = upd_where ?p (closed_row d ?f) (desktop_leases d)"
    using u(2) by (auto simp: closed_as_def Let_def)
  ultimately show "l_id ` set (desktop_leases d1) = l_id ` set (desktop_leases d)" by (metis set_map)
qed

lemma insert_lease_cases:
  assumes "leases_unique (desktop_leases d)" "l_state row = LeaseActive" "desktop_named d (l_desktop_id row) \<noteq> None"
  shows "insert_lease now row d =
           (if native_on d (l_desktop_id row) \<or> l_id row \<in> l_id ` set (desktop_leases d) \<or> active_on d (l_desktop_id row)
            then Inl (SqlErr UniqueViolation)
            else insert_lease now row d) \<and>
         (\<not> (native_on d (l_desktop_id row) \<or> l_id row \<in> l_id ` set (desktop_leases d) \<or> active_on d (l_desktop_id row)) \<longrightarrow>
          (\<exists>d'. insert_lease now row d = Inr (row\<lparr>l_control_epoch := desk_epoch d (l_desktop_id row) + 1\<rparr>, d')))"
proof (cases "native_on d (l_desktop_id row)")
  case True
  then show ?thesis
    using assms(2) by (simp add: insert_lease_def lease_before_def protect_agent_lease_from_native_reservation_def native_on_def)
next
  case False
  let ?l = "row\<lparr>l_control_epoch := desk_epoch d (l_desktop_id row) + 1\<rparr>"
  obtain d1 where d1: "lease_before now None row d = Inr (?l, d1)" "epochs_bumped {l_desktop_id row} d d1"
    using lease_before_assigned [of row d now None] False assms by (auto simp: native_on_def)
  then have t: "desktop_leases d1 = desktop_leases d" by (auto simp: epochs_bumped_def)
  have "leases_unique (desktop_leases d @ [?l]) \<longleftrightarrow>
        \<not> (l_id row \<in> l_id ` set (desktop_leases d) \<or> active_on d (l_desktop_id row))"
    using assms(1,2) by (auto simp: leases_unique_def active_on_def list_ex_iff image_iff)
  with d1 False show ?thesis by (auto simp: insert_lease_def t)
qed

lemma new_lease_simps [simp]:
  "l_id (new_lease now lease) = l_id lease" "l_agent_id (new_lease now lease) = l_agent_id lease"
  "l_desktop_id (new_lease now lease) = l_desktop_id lease" "l_state (new_lease now lease) = LeaseActive"
  by (simp_all add: new_lease_def)

lemma create_lease_tx_eq_Inr:
  "create_lease_tx now lease d = Inr (l, d') \<longleftrightarrow>
     agent_allowed d (l_agent_id lease) (l_desktop_id lease) \<and> \<not> human_on d (l_desktop_id lease) \<and>
     (\<exists>rs d1. expire_leases now d = Inr (rs, d1) \<and> insert_lease now (new_lease now lease) d1 = Inr (l, d'))"
  by (auto simp: create_lease_tx_def Let_def bindE_eq_Inr mapErr_eq_Inr guardE_eq_Inr agent_allowed_def human_on_def)

section \<open>The fencing queue is a revision queue\<close>

definition computer_revision :: "db \<Rightarrow> int \<Rightarrow> int" where
  "computer_revision d v =
     (case find (\<lambda>q. cr_desktop_vmid q = v) (desktop_computer_revocations d) of
        None \<Rightarrow> 0 | Some q \<Rightarrow> cr_requested_revision q)"

definition computer_queue_wf :: "db \<Rightarrow> bool" where
  "computer_queue_wf d \<longleftrightarrow>
     unique_by cr_desktop_vmid (desktop_computer_revocations d) \<and>
     (\<forall>q \<in> set (desktop_computer_revocations d). cr_completed_revision q \<le> cr_requested_revision q)"

definition request_computer :: "time \<times> int \<Rightarrow> int \<Rightarrow> db \<Rightarrow> db" where
  "request_computer p v d = queue_computer_revocation (fst p) v (snd p) d"

definition finish_computer :: "tx_fault \<times> time \<Rightarrow> int \<Rightarrow> int \<Rightarrow> db \<Rightarrow> db" where
  "finish_computer q v n d = fst (CompleteComputerRevocation (fst q) (snd q) (v, n) d)"

lemma computer_pending_find:
  assumes "computer_queue_wf d"
  shows "computer_revocation_pending d v \<longleftrightarrow>
    (case find (\<lambda>q. cr_desktop_vmid q = v) (desktop_computer_revocations d) of
       None \<Rightarrow> False | Some q \<Rightarrow> cr_completed_revision q < cr_requested_revision q)"
proof (cases "find (\<lambda>q. cr_desktop_vmid q = v) (desktop_computer_revocations d)")
  case None
  then have "\<not> computer_revocation_pending d v"
    by (auto simp: computer_revocation_pending_def list_ex_iff find_None_iff)
  with None show ?thesis by simp
next
  case (Some q)
  have u: "unique_by cr_desktop_vmid (desktop_computer_revocations d)" using assms by (simp add: computer_queue_wf_def)
  have q: "q \<in> set (desktop_computer_revocations d)" "cr_desktop_vmid q = v" using find_SomeD [OF Some] by auto
  have "computer_revocation_pending d v \<longleftrightarrow> cr_completed_revision q < cr_requested_revision q"
  proof
    assume "computer_revocation_pending d v"
    then obtain q' where q': "q' \<in> set (desktop_computer_revocations d)" "cr_desktop_vmid q' = v"
      "cr_completed_revision q' < cr_requested_revision q'"
      by (auto simp: computer_revocation_pending_def list_ex_iff)
    with unique_by_same [OF u q'(1) q(1)] q(2) show "cr_completed_revision q < cr_requested_revision q" by simp
  next
    assume "cr_completed_revision q < cr_requested_revision q"
    with q show "computer_revocation_pending d v" by (auto simp: computer_revocation_pending_def list_ex_iff)
  qed
  with Some show ?thesis by simp
qed

lemma find_request_computer:
  "find (\<lambda>q. cr_desktop_vmid q = k) (desktop_computer_revocations (request_computer p v d)) =
     (if k = v then Some (case find (\<lambda>q. cr_desktop_vmid q = v) (desktop_computer_revocations d) of
        None \<Rightarrow> \<lparr>cr_desktop_vmid = v, cr_requested_revision = 1, cr_completed_revision = 0,
                 cr_control_epoch = snd p, cr_updated_at = fst p\<rparr>
      | Some q \<Rightarrow> q\<lparr>cr_requested_revision := cr_requested_revision q + 1,
                     cr_control_epoch := max (cr_control_epoch q) (snd p), cr_updated_at := fst p\<rparr>)
      else find (\<lambda>q. cr_desktop_vmid q = k) (desktop_computer_revocations d))"
proof (cases "list_ex (\<lambda>q. cr_desktop_vmid q = v) (desktop_computer_revocations d)")
  case True
  then obtain q where q: "find (\<lambda>q. cr_desktop_vmid q = v) (desktop_computer_revocations d) = Some q"
    by (auto simp: list_ex_find)
  have "find (\<lambda>q. cr_desktop_vmid q = k) (upd_where (\<lambda>q. cr_desktop_vmid q = v)
          (\<lambda>q. q\<lparr>cr_requested_revision := cr_requested_revision q + 1,
                 cr_control_epoch := max (cr_control_epoch q) (snd p), cr_updated_at := fst p\<rparr>)
          (desktop_computer_revocations d)) =
        map_option (\<lambda>q. if cr_desktop_vmid q = v then q\<lparr>cr_requested_revision := cr_requested_revision q + 1,
                 cr_control_epoch := max (cr_control_epoch q) (snd p), cr_updated_at := fst p\<rparr> else q)
          (find (\<lambda>q. cr_desktop_vmid q = k) (desktop_computer_revocations d))"
    by (rule find_upd_where) simp
  with True q show ?thesis
    by (cases "find (\<lambda>q. cr_desktop_vmid q = k) (desktop_computer_revocations d)")
      (auto simp: request_computer_def queue_computer_revocation_def dest: find_SomeD)
next
  case False
  then have "find (\<lambda>q. cr_desktop_vmid q = v) (desktop_computer_revocations d) = None" by (simp add: list_ex_find)
  with False show ?thesis
    by (auto simp: request_computer_def queue_computer_revocation_def find_snoc split: option.splits)
qed

lemma find_finish_computer:
  "find (\<lambda>q. cr_desktop_vmid q = k) (desktop_computer_revocations (finish_computer q v n d)) =
     find (\<lambda>q. cr_desktop_vmid q = k) (desktop_computer_revocations d) \<or>
   find (\<lambda>q. cr_desktop_vmid q = k) (desktop_computer_revocations (finish_computer q v n d)) =
     map_option (\<lambda>r. if computer_item_open (v, n) r
        then r\<lparr>cr_completed_revision := n, cr_updated_at := snd q\<rparr> else r)
       (find (\<lambda>q. cr_desktop_vmid q = k) (desktop_computer_revocations d))"
proof -
  have "find (\<lambda>q. cr_desktop_vmid q = k) (upd_where (computer_item_open (v, n))
          (\<lambda>r. r\<lparr>cr_completed_revision := n, cr_updated_at := snd q\<rparr>) (desktop_computer_revocations d)) =
        map_option (\<lambda>r. if computer_item_open (v, n) r
        then r\<lparr>cr_completed_revision := n, cr_updated_at := snd q\<rparr> else r)
       (find (\<lambda>q. cr_desktop_vmid q = k) (desktop_computer_revocations d))"
    by (rule find_upd_where) simp
  then show ?thesis using Complete_frame [of "fst q" "snd q" "(v, n)" d] by (auto simp: finish_computer_def)
qed

lemma finish_computer_wf: "computer_queue_wf d \<Longrightarrow> computer_queue_wf (finish_computer q v n d)"
  using Complete_frame [of "fst q" "snd q" "(v, n)" d]
  by (auto simp: finish_computer_def computer_queue_wf_def unique_by_upd_where in_upd_where computer_item_open_def)

lemma request_computer_wf:
  assumes "computer_queue_wf d"
  shows "computer_queue_wf (request_computer p v d)"
proof (cases "list_ex (\<lambda>q. cr_desktop_vmid q = v) (desktop_computer_revocations d)")
  case True
  with assms show ?thesis
    by (fastforce simp: request_computer_def queue_computer_revocation_def computer_queue_wf_def
        unique_by_upd_where ball_upd_where)
next
  case False
  with assms show ?thesis
    by (auto simp: request_computer_def queue_computer_revocation_def computer_queue_wf_def list_ex_iff)
qed

interpretation cq: revision_queue computer_queue_wf computer_revocation_pending computer_revision
  request_computer finish_computer
proof
  fix d p and k k' :: int and q n
  assume wf: "computer_queue_wf d"
  show "computer_queue_wf (request_computer p k d)" by (rule request_computer_wf [OF wf])
  show "computer_queue_wf (finish_computer q k n d)" by (rule finish_computer_wf [OF wf])
  note [simp] = computer_pending_find [OF wf] computer_pending_find [OF request_computer_wf [OF wf]]
    computer_pending_find [OF finish_computer_wf [OF wf]] computer_revision_def find_request_computer
  have le: "cr_completed_revision r \<le> cr_requested_revision r" if "find P (desktop_computer_revocations d) = Some r" for P r
    using wf that by (auto simp: computer_queue_wf_def dest: find_SomeD)
  show "computer_revocation_pending (request_computer p k d) k"
    using le by (fastforce split: option.splits)
  show "computer_revision d k < computer_revision (request_computer p k d) k"
    by (simp split: option.splits)
  show "computer_revocation_pending (request_computer p k d) k' = computer_revocation_pending d k' \<and>
        computer_revision (request_computer p k d) k' = computer_revision d k'" if "k' \<noteq> k"
    using that by simp
  show "computer_revocation_pending (finish_computer q k n d) k \<and>
        computer_revision (finish_computer q k n d) k = computer_revision d k"
    if "n < computer_revision d k" "computer_revocation_pending d k"
    using that find_finish_computer [of k q k n d]
    by (auto simp: computer_item_open_def split: option.splits)
  show "computer_revocation_pending (finish_computer q k n d) k' = computer_revocation_pending d k' \<and>
        computer_revision (finish_computer q k n d) k' = computer_revision d k'" if "k' \<noteq> k"
  proof (cases "find (\<lambda>q. cr_desktop_vmid q = k') (desktop_computer_revocations d)")
    case (Some r)
    then have "\<not> computer_item_open (k, n) r" using that by (auto simp: computer_item_open_def dest: find_SomeD)
    with Some show ?thesis using find_finish_computer [of k' q k n d] by auto
  next
    case None
    then show ?thesis using find_finish_computer [of k' q k n d] by auto
  qed
qed

lemma fenced_queue_wf: "fenced d \<Longrightarrow> computer_queue_wf d"
  by (auto simp: fenced_def authority_inv_def revs_wf_def computer_queue_wf_def)

section \<open>Properties\<close>


text \<open>
  C4. Fencing.  A lease that is granted holds an epoch above every epoch any lease of that VM ever had
  and above every epoch the queue will fence; it is the only active lease of the desktop, no human
  connection and no Native credential holds the desktop, and its agent was entitled to it.
\<close>

theorem CreateDesktopLease_fences:
  assumes "fenced d" "CreateDesktopLease fault now lease d = (d', Inr l)"
  shows "(\<forall>l0 \<in> set (desktop_leases d). l_desktop_id l0 = l_desktop_id l \<longrightarrow> l_control_epoch l0 < l_control_epoch l) \<and>
         (\<forall>q \<in> set (desktop_computer_revocations d'). Itoa (cr_desktop_vmid q) = l_desktop_id l \<longrightarrow>
            cr_control_epoch q < l_control_epoch l) \<and>
         filter (\<lambda>l0. l_state l0 = LeaseActive \<and> l_desktop_id l0 = l_desktop_id l) (desktop_leases d') = [l] \<and>
         agent_allowed d (l_agent_id l) (l_desktop_id l) \<and>
         \<not> human_on d' (l_desktop_id l) \<and> \<not> native_on d' (l_desktop_id l)"
proof -
  let ?row = "new_lease now lease"
  have row: "l_state ?row = LeaseActive" "l_desktop_id ?row = l_desktop_id lease" "l_agent_id ?row = l_agent_id lease"
    by simp_all
  obtain d1 rs where ex: "expire_leases now d = Inr (rs, d1)" and ins: "insert_lease now ?row d1 = Inr (l, d')"
    and ok: "agent_allowed d (l_agent_id lease) (l_desktop_id lease)" "\<not> human_on d (l_desktop_id lease)"
    using assms(2) by (auto simp: CreateDesktopLease_def run_tx_eq_Inr create_lease_tx_eq_Inr)
  have f1: "fenced d1" by (rule expired_active_on(5) [OF assms(1) ex])
  note i = insert_lease_Inr [OF ins row(1)]
  have inv: "authority_inv d'" "\<not> active_on d1 (l_desktop_id ?row)"
    and fr: "\<exists>es. d' = d1\<lparr>desktop_computer_epochs := es, desktop_leases := desktop_leases d1 @ [l]\<rparr>"
    using insert_lease_inv [OF _ _ row(1) ins] f1 by (auto simp: fenced_def)
  note e = expired_active_on [OF assms(1) ex]
  have l: "l_desktop_id l = l_desktop_id lease" "l_state l = LeaseActive" "l_agent_id l = l_agent_id lease"
    "l_control_epoch l = desk_epoch d1 (l_desktop_id lease) + 1"
    using i(1) row by simp_all
  have "l_control_epoch l0 < l_control_epoch l" if "l0 \<in> set (desktop_leases d)" "l_desktop_id l0 = l_desktop_id l" for l0
  proof -
    have "l_control_epoch l0 \<le> desk_epoch d (l_desktop_id l)"
      using assms(1) that by (auto simp: fenced_def authority_inv_def lease_inv_def)
    then show ?thesis using l(1,4) e(2) [of "l_desktop_id lease"] by simp
  qed
  moreover have "cr_control_epoch q < l_control_epoch l"
    if "q \<in> set (desktop_computer_revocations d')" "Itoa (cr_desktop_vmid q) = l_desktop_id l" for q
  proof -
    have "active_on d' (l_desktop_id l)" using i(3) l(2) by (simp add: active_on_def)
    moreover have "lease_inv d' l" using inv(1) i(3) by (simp add: authority_inv_def)
    ultimately show ?thesis
      using inv(1) that l(2) by (fastforce simp: authority_inv_def revs_wf_def fence_limit_def lease_inv_def)
  qed
  moreover have "filter (\<lambda>l0. l_state l0 = LeaseActive \<and> l_desktop_id l0 = l_desktop_id l) (desktop_leases d') = [l]"
    using inv(2) l(1,2) row(2) by (auto simp: i(3) active_on_def list_ex_iff filter_empty_conv)
  moreover have "\<not> human_on d' (l_desktop_id l)" "\<not> native_on d' (l_desktop_id l)"
    using e(3) fr ok(2) i(6) l(1) row(2) by (auto simp: human_on_def native_on_def)
  ultimately show ?thesis using ok(1) l(1,3) by auto
qed


text \<open>
  C7. A request to fence a VM that arrives while a worker is completing earlier revisions is never
  lost: whatever further requests and completions of revisions up to the one current before the request
  follow, in any order and with any driver failures, the VM still has fencing work pending.
\<close>

theorem newer_fence_survives:
  assumes "fenced d" "finishes_upto vmid (computer_revision d vmid) es"
  shows "computer_revocation_pending
           (run_queue request_computer finish_computer es (request_computer p vmid d)) vmid"
  using cq.newer_request_survives [OF fenced_queue_wf] assms by blast

section \<open>An example\<close>

text \<open>Desktop 100, its agent, a lease that has run out at time 50 and its agent session.\<close>

definition ex_desktop :: ManagedDesktop where
  "ex_desktop = \<lparr>md_vmid = 100, md_display_name = ''lab'', md_node = ''pve1'', md_os_family = OsLinux,
     md_present = True, md_enabled = True, md_access_mode = Shared, md_owner_user_id = None,
     md_identity_profile_id = None, md_identity_state = IdentityApplied, md_applied_identity_profile_id = None,
     md_identity_last_error = [], md_identity_updated_at = 0, md_first_seen_at = 0, md_last_seen_at = 0,
     md_updated_at = 0\<rparr>"

definition ex_lease :: DesktopLease where
  "ex_lease = \<lparr>l_id = ''lease_1'', l_agent_id = ''a1'', l_desktop_id = ''100'', l_state = LeaseActive,
     l_control_epoch = 3, l_expires_at = 50, l_created_at = 0, l_updated_at = 0\<rparr>"

definition ex_session :: AgentGuestSession where
  "ex_session = \<lparr>s_desktop_vmid = 100, s_agent_id = ''a1'', s_guest_username = ''vca0123456789ab'',
     s_os_family = OsLinux, s_lease_id = ''lease_1'', s_control_epoch = 3, s_generation = 1,
     s_login_generation = 0, s_state = AgentProvisioning, s_guest_uid = 1200, s_guest_sid = [],
     s_session_id = [], s_instance_id = [], s_expires_at = 50, s_updated_at = 0\<rparr>"

definition ex_db :: db where
  "ex_db = empty_db\<lparr>
     managed_desktops := [ex_desktop],
     agent_principals := [\<lparr>ap_id = ''a1'', ap_display_name = ''bot'', ap_token_digest = None, ap_enabled = True,
       ap_created_by = None, ap_created_at = 0, ap_updated_at = 0, ap_last_used_at = None\<rparr>],
     agent_desktop_assignments := [\<lparr>as_subject_id = ''a1'', as_desktop_vmid = 100, as_created_by = None, as_created_at = 0\<rparr>],
     desktop_leases := [ex_lease],
     desktop_computer_epochs := [\<lparr>e_desktop_vmid = 100, e_control_epoch = 3, e_updated_at = 0\<rparr>],
     agent_guest_sessions := [ex_session]\<rparr>"

lemma ex_db_fenced: "fenced ex_db"
  by code_simp


definition ex_request :: DesktopLease where
  "ex_request = ex_lease\<lparr>l_id := ''lease_2'', l_expires_at := 90\<rparr>"

definition ex_granted :: DesktopLease where
  "ex_granted = (new_lease 60 ex_request)\<lparr>l_control_epoch := 5\<rparr>"

theorem CreateDesktopLease_fences_witness:
  "snd (CreateDesktopLease NoFault 60 ex_request ex_db) = Inr ex_granted \<and>
   l_control_epoch ex_lease < l_control_epoch ex_granted \<and>
   filter (\<lambda>l0. l_state l0 = LeaseActive \<and> l_desktop_id l0 = ''100'')
     (desktop_leases (fst (CreateDesktopLease NoFault 60 ex_request ex_db))) = [ex_granted]"
proof -
  have ok: "snd (CreateDesktopLease NoFault 60 ex_request ex_db) = Inr ex_granted" by code_simp
  then have "CreateDesktopLease NoFault 60 ex_request ex_db =
      (fst (CreateDesktopLease NoFault 60 ex_request ex_db), Inr ex_granted)"
    by (metis prod.collapse)
  from CreateDesktopLease_fences [OF ex_db_fenced this] ok show ?thesis
    by (simp add: ex_db_def ex_granted_def ex_request_def ex_lease_def new_lease_def)
qed


theorem newer_fence_survives_witness:
  "fenced ex_db \<and>
   computer_revocation_pending
     (run_queue request_computer finish_computer [Finish (NoFault, 61) 100 0, Finish (CommitLost, 62) 100 0]
        (request_computer (60, 4) 100 ex_db)) 100"
proof -
  have "finishes_upto 100 (computer_revision ex_db 100)
      [Finish (NoFault, 61) 100 0, Finish (CommitLost, 62) 100 0 :: (time \<times> int, tx_fault \<times> time, int) queue_event]"
    by code_simp
  from newer_fence_survives [OF ex_db_fenced this] ex_db_fenced show ?thesis by simp
qed

end
