(* ===== verification/Agent_Sessions.thy ===== *)
theory Agent_Sessions
  imports Leases
begin

text \<open>
  The operations of the store on agent guest sessions: \<open>agent_guest_session.go\<close> and
  \<open>agent_guest_login.go\<close>.  A session passes from provisioning to ready under the authority of its lease,
  is revoked with the lease, and is disabled once the Guest confirms the cleanup.
\<close>

section \<open>Beginning a session\<close>

text \<open>The first query of \<open>BeginAgentGuestSession\<close>: the desktop the lease controls, free for its agent.\<close>

definition begin_desktop :: "time \<Rightarrow> DesktopLease \<Rightarrow> db \<Rightarrow> (DesktopLease \<times> ManagedDesktop) option" where
  "begin_desktop now lease d =
     (case find (\<lambda>l. l_id l = l_id lease \<and> l_agent_id l = l_agent_id lease \<and>
                     l_control_epoch l = l_control_epoch lease \<and> l_state l = LeaseActive \<and> now < l_expires_at l)
             (desktop_leases d) of
        None \<Rightarrow> None
      | Some l \<Rightarrow>
          (case find (\<lambda>m. Itoa (md_vmid m) = l_desktop_id l \<and>
                     agent_desktop_access d (l_agent_id l) (\<lambda>x. md_vmid x = md_vmid m) \<and>
                     (md_os_family m = OsLinux \<or> md_os_family m = OsWindows) \<and>
                     \<not> list_ex (\<lambda>c. c_desktop_vmid c = md_vmid m \<and> conn_open c) (desktop_connection_sessions d) \<and>
                     \<not> computer_revocation_pending d (md_vmid m) \<and>
                     \<not> list_ex (\<lambda>g. s_desktop_vmid g = md_vmid m \<and>
                          (s_state g = AgentRevoking \<or> (ags_open g \<and> s_lease_id g \<noteq> l_id l)))
                        (agent_guest_sessions d)) (managed_desktops d) of
             None \<Rightarrow> None
           | Some m \<Rightarrow> Some (l, m)))"

text \<open>\<open>INSERT INTO agent_guest_sessions\<close> of a new row: the BEFORE trigger, the CHECKs, the unique indexes.\<close>

definition insert_ags :: "AgentGuestSession \<Rightarrow> db \<Rightarrow> err + (AgentGuestSession \<times> db)" where
  "insert_ags row d =
     bindE (protect_cross_subject_agent d row) (\<lambda>_.
     bindE (guardE (SqlErr CheckViolation) (ags_check row)) (\<lambda>_.
     let t = agent_guest_sessions d @ [row] in
     bindE (guardE (SqlErr UniqueViolation) (ags_unique t)) (\<lambda>_.
     Inr (row, d\<lparr>agent_guest_sessions := t\<rparr>))))"

definition new_session :: "time \<Rightarrow> int \<Rightarrow> os_family \<Rightarrow> DesktopLease \<Rightarrow> DesktopLease \<Rightarrow> AgentGuestSession" where
  "new_session now vmid platform lease l =
     \<lparr>s_desktop_vmid = vmid, s_agent_id = l_agent_id lease,
      s_guest_username = AgentGuestUsername (l_agent_id lease), s_os_family = platform,
      s_lease_id = l_id l, s_control_epoch = l_control_epoch l, s_generation = 1, s_login_generation = 0,
      s_state = AgentProvisioning, s_guest_uid = 0, s_guest_sid = [], s_session_id = [], s_instance_id = [],
      s_expires_at = l_expires_at l, s_updated_at = now\<rparr>"

definition renew_session :: "time \<Rightarrow> DesktopLease \<Rightarrow> AgentGuestSession \<Rightarrow> AgentGuestSession" where
  "renew_session now l s =
     s\<lparr>s_lease_id := l_id l, s_control_epoch := l_control_epoch l, s_generation := s_generation s + 1,
       s_login_generation := 0, s_state := AgentProvisioning, s_session_id := [], s_instance_id := [],
       s_expires_at := l_expires_at l, s_updated_at := now\<rparr>"

definition begin_session_tx :: "time \<Rightarrow> DesktopLease \<Rightarrow> db \<Rightarrow> err + (AgentGuestSession \<times> db)" where
  "begin_session_tx now lease d =
     (case begin_desktop now lease d of
        None \<Rightarrow> Inl ErrConflict
      | Some (l, m) \<Rightarrow>
          let vmid = md_vmid m; platform = md_os_family m;
              mine = (\<lambda>s. s_desktop_vmid s = vmid \<and> s_agent_id s = l_agent_id lease)
          in case find mine (agent_guest_sessions d) of
               None \<Rightarrow> insert_ags (new_session now vmid platform lease l) d
             | Some item \<Rightarrow>
                 if s_os_family item \<noteq> platform then Inl ErrConflict
                 else if s_lease_id item = l_id lease \<and> s_control_epoch item = l_control_epoch lease \<and> ags_open item
                 then Inr (item, d)
                 else bindE (update_ags (\<lambda>s. mine s \<and> s_state s = AgentDisabled \<and> s_os_family s = platform)
                               (renew_session now l) d) (first_row ErrNotFound))"

definition BeginAgentGuestSession ::
  "tx_fault \<Rightarrow> time \<Rightarrow> DesktopLease \<Rightarrow> db \<Rightarrow> db \<times> (err + AgentGuestSession)" where
  "BeginAgentGuestSession fault now lease d = run_tx fault (begin_session_tx now lease) d"

section \<open>Binding the account and logging in\<close>

text \<open>
  The EXISTS of the three updates below: the session's lease is active, of the same epoch and unexpired,
  and its agent may still use the desktop.
\<close>

definition session_authorized :: "db \<Rightarrow> time \<Rightarrow> AgentGuestSession \<Rightarrow> bool" where
  "session_authorized d now g \<longleftrightarrow>
     list_ex (\<lambda>l. l_id l = s_lease_id g \<and> l_control_epoch l = s_control_epoch g \<and> l_state l = LeaseActive \<and>
                  now < l_expires_at l \<and>
                  agent_desktop_access d (l_agent_id l)
                    (\<lambda>m. md_vmid m = s_desktop_vmid g \<and> md_os_family m = s_os_family g))
       (desktop_leases d)"

definition same_session :: "AgentGuestSession \<Rightarrow> AgentGuestSession \<Rightarrow> bool" where
  "same_session item g \<longleftrightarrow>
     s_desktop_vmid g = s_desktop_vmid item \<and> s_agent_id g = s_agent_id item \<and>
     s_lease_id g = s_lease_id item \<and> s_generation g = s_generation item \<and>
     s_login_generation g = s_login_generation item \<and> s_os_family g = s_os_family item \<and>
     s_control_epoch g = s_control_epoch item \<and> s_guest_username g = s_guest_username item"

definition same_account :: "AgentGuestSession \<Rightarrow> AgentGuestSession \<Rightarrow> bool" where
  "same_account item g \<longleftrightarrow> s_guest_uid g = s_guest_uid item \<and> s_guest_sid g = s_guest_sid item"

definition item_account_ok :: "AgentGuestSession \<Rightarrow> bool" where
  "item_account_ok item \<longleftrightarrow>
     s_guest_username item = AgentGuestUsername (s_agent_id item) \<and>
     ValidAccount (os_text (s_os_family item)) (s_guest_uid item) (s_guest_sid item)"

text \<open>An update that must hit exactly one row, \<open>ErrConflict\<close> (and a rollback) otherwise.\<close>

definition update_one_ags ::
  "(AgentGuestSession \<Rightarrow> bool) \<Rightarrow> (AgentGuestSession \<Rightarrow> AgentGuestSession) \<Rightarrow> db \<Rightarrow>
   err + (AgentGuestSession \<times> db)" where
  "update_one_ags p f d =
     bindE (update_ags p f d) (one_row ErrConflict)"

definition bind_account_tx :: "time \<Rightarrow> AgentGuestSession \<Rightarrow> bool \<Rightarrow> db \<Rightarrow> err + (AgentGuestSession \<times> db)" where
  "bind_account_tx now item revoking d =
     update_one_ags
       (\<lambda>g. same_session item g \<and>
            ((s_guest_uid g = 0 \<and> s_guest_sid g = []) \<or> same_account item g) \<and>
            ((revoking \<and> s_state g = AgentRevoking) \<or>
             (\<not> revoking \<and> ags_open g \<and> session_authorized d now g)))
       (\<lambda>g. g\<lparr>s_guest_uid := s_guest_uid item, s_guest_sid := s_guest_sid item, s_updated_at := now\<rparr>) d"

definition bindAgentGuestAccount ::
  "tx_fault \<Rightarrow> time \<Rightarrow> AgentGuestSession \<Rightarrow> bool \<Rightarrow> db \<Rightarrow> db \<times> (err + unit)" where
  "bindAgentGuestAccount fault now item revoking d =
     (if \<not> item_account_ok item then (d, Inl ErrConflict)
      else then_check (run_tx fault (bind_account_tx now item revoking) d) (\<lambda>_. Inr ()))"

definition BindAgentGuestAccount where
  "BindAgentGuestAccount fault now item d = bindAgentGuestAccount fault now item False d"

definition BindRevokingAgentGuestAccount where
  "BindRevokingAgentGuestAccount fault now item d = bindAgentGuestAccount fault now item True d"

definition login_row :: "time \<Rightarrow> AgentGuestSession \<Rightarrow> AgentGuestSession" where
  "login_row now g =
     g\<lparr>s_login_generation := s_login_generation g + 1, s_state := AgentProvisioning,
       s_session_id := [], s_instance_id := [], s_updated_at := now\<rparr>"

definition begin_login_tx :: "time \<Rightarrow> AgentGuestSession \<Rightarrow> db \<Rightarrow> err + (AgentGuestSession \<times> db)" where
  "begin_login_tx now item d =
     bindE (update_ags (\<lambda>g. same_session item g \<and> same_account item g \<and> ags_open g \<and> session_authorized d now g)
              (login_row now) d) (first_row ErrConflict)"

definition BeginAgentGuestLogin ::
  "tx_fault \<Rightarrow> time \<Rightarrow> AgentGuestSession \<Rightarrow> db \<Rightarrow> db \<times> (err + AgentGuestSession)" where
  "BeginAgentGuestLogin fault now item d =
     (if s_login_generation item < 0 \<or> s_login_generation item = max_int64 \<or> \<not> item_account_ok item
      then (d, Inl ErrConflict)
      else run_tx fault (begin_login_tx now item) d)"

section \<open>Ready, revoked, disabled\<close>

definition ready_row :: "time \<Rightarrow> AgentGuestSession \<Rightarrow> AgentGuestSession \<Rightarrow> AgentGuestSession" where
  "ready_row now item g =
     g\<lparr>s_state := AgentReady, s_guest_uid := s_guest_uid item, s_session_id := s_session_id item,
       s_instance_id := s_instance_id item, s_guest_sid := s_guest_sid item, s_updated_at := now\<rparr>"

definition mark_ready_tx :: "time \<Rightarrow> AgentGuestSession \<Rightarrow> db \<Rightarrow> err + (AgentGuestSession \<times> db)" where
  "mark_ready_tx now item d =
     update_one_ags
       (\<lambda>g. same_session item g \<and> same_account item g \<and> ags_open g \<and> session_authorized d now g)
       (ready_row now item) d"

definition MarkAgentGuestSessionReady ::
  "tx_fault \<Rightarrow> time \<Rightarrow> AgentGuestSession \<Rightarrow> db \<Rightarrow> db \<times> (err + unit)" where
  "MarkAgentGuestSessionReady fault now item d =
     (if s_login_generation item < 1 \<or> s_guest_username item \<noteq> AgentGuestUsername (s_agent_id item) \<or>
         \<not> ValidSession (os_text (s_os_family item)) (s_guest_username item) (s_guest_uid item)
             (s_guest_sid item) (s_session_id item) (s_instance_id item)
      then (d, Inl ErrConflict)
      else then_check (run_tx fault (mark_ready_tx now item) d) (\<lambda>_. Inr ()))"

definition AgentGuestSessions ::
  "(string \<Rightarrow> string \<Rightarrow> bool) \<Rightarrow> tx_fault \<Rightarrow> int \<Rightarrow> db \<Rightarrow> err + AgentGuestSession list" where
  "AgentGuestSessions coll fault vmid d =
     run_query fault (\<lambda>d. Inr (order_by
       (\<lambda>a b. s_desktop_vmid a < s_desktop_vmid b \<or>
              (s_desktop_vmid a = s_desktop_vmid b \<and> coll (s_agent_id a) (s_agent_id b)))
       (filter (\<lambda>s. vmid = 0 \<or> s_desktop_vmid s = vmid) (agent_guest_sessions d)))) d"

definition queue_session_tx :: "time \<Rightarrow> AgentGuestSession \<Rightarrow> db \<Rightarrow> err + (DesktopLease list \<times> db)" where
  "queue_session_tx now item d =
     update_leases now
       (\<lambda>l. l_id l = s_lease_id item \<and> l_state l = LeaseActive \<and>
            list_ex (\<lambda>g. s_desktop_vmid g = s_desktop_vmid item \<and> s_agent_id g = s_agent_id item \<and>
                         s_lease_id g = l_id l \<and> s_generation g = s_generation item \<and>
                         s_login_generation g = s_login_generation item \<and>
                         s_control_epoch g = s_control_epoch item \<and> ags_open g) (agent_guest_sessions d))
       (\<lambda>l. l\<lparr>l_state := LeaseRevoked, l_updated_at := now\<rparr>) d"

definition QueueAgentGuestSessionRevocation ::
  "tx_fault \<Rightarrow> time \<Rightarrow> AgentGuestSession \<Rightarrow> db \<Rightarrow> db \<times> (err + unit)" where
  "QueueAgentGuestSessionRevocation fault now item d =
     then_check (run_tx fault (queue_session_tx now item) d) (\<lambda>_. Inr ())"

definition revoked_session :: "AgentGuestSession \<Rightarrow> AgentGuestSession \<Rightarrow> bool" where
  "revoked_session item g \<longleftrightarrow>
     s_desktop_vmid g = s_desktop_vmid item \<and> s_agent_id g = s_agent_id item \<and>
     s_lease_id g = s_lease_id item \<and> s_generation g = s_generation item \<and>
     s_login_generation g = s_login_generation item \<and> s_control_epoch g = s_control_epoch item \<and>
     same_account item g \<and> s_state g = AgentRevoking"

definition audit_session_revoked :: "time \<Rightarrow> AgentGuestSession \<Rightarrow> db \<Rightarrow> db" where
  "audit_session_revoked now g =
     insert_audit now None ''agent.guest_session_revoked'' ''success'' (Some ''virtual_machine'')
       (Some (Itoa (s_desktop_vmid g)))
       (AObj [(''agent_id'', AText (s_agent_id g)), (''lease_id'', AText (s_lease_id g)),
        (''generation'', AInt (s_generation g)), (''login_generation'', AInt (s_login_generation g))])"

definition complete_session_tx :: "time \<Rightarrow> AgentGuestSession \<Rightarrow> db \<Rightarrow> err + (nat \<times> db)" where
  "complete_session_tx now item d =
     bindE (update_ags (revoked_session item)
              (\<lambda>g. g\<lparr>s_state := AgentDisabled, s_session_id := [], s_instance_id := [], s_updated_at := now\<rparr>) d)
       (\<lambda>(rs, d'). Inr (length rs, fold (audit_session_revoked now) rs d'))"

definition CompleteAgentGuestSessionRevocation ::
  "tx_fault \<Rightarrow> time \<Rightarrow> AgentGuestSession \<Rightarrow> db \<Rightarrow> db \<times> (err + unit)" where
  "CompleteAgentGuestSessionRevocation fault now item d =
     then_check (run_tx fault (complete_session_tx now item) d) (\<lambda>n. guardE ErrConflict (n = 1))"

section \<open>Every operation keeps the invariant\<close>

lemma session_lease_keep:
  assumes "session_lease t s"
    "s_lease_id s' = s_lease_id s" "s_agent_id s' = s_agent_id s" "s_desktop_vmid s' = s_desktop_vmid s"
    "s_control_epoch s' = s_control_epoch s" "ags_open s' = ags_open s"
  shows "session_lease t s'"
  using assms(1) unfolding session_lease_def assms(2-) .

lemma run_tx_fenced:
  "fenced d \<Longrightarrow> (\<And>x d'. body d = Inr (x, d') \<Longrightarrow> fenced d') \<Longrightarrow> fenced (fst (run_tx fault body d))"
  by (rule run_tx_preserves)

lemma update_ags_fenced:
  assumes "fenced d" "update_ags p f d = Inr (rs, d')"
    and "\<And>r. r \<in> set (agent_guest_sessions d) \<Longrightarrow> p r \<Longrightarrow> session_lease (desktop_leases d) r \<Longrightarrow>
            session_lease (desktop_leases d) (f r)"
  shows "fenced d'"
  using assms update_ags_session_inv [OF _ assms(2,3)] update_ags_authority_inv [OF _ assms(2)]
  by (simp add: fenced_def)

lemma update_one_ags_eq_Inr [result_simps]:
  "update_one_ags p f d = Inr (r, d') \<longleftrightarrow> update_ags p f d = Inr ([r], d')"
  by (auto simp: update_one_ags_def bindE_eq_Inr one_row_eq_Inr)

lemma begin_desktop_Some:
  assumes "begin_desktop now lease d = Some (l, m)"
  shows "l \<in> set (desktop_leases d)" "l_id l = l_id lease" "l_agent_id l = l_agent_id lease"
    "l_control_epoch l = l_control_epoch lease" "l_state l = LeaseActive" "now < l_expires_at l"
    "m \<in> set (managed_desktops d)" "Itoa (md_vmid m) = l_desktop_id l"
    "agent_desktop_access d (l_agent_id l) (\<lambda>x. md_vmid x = md_vmid m)"
    "\<not> list_ex (\<lambda>c. c_desktop_vmid c = md_vmid m \<and> conn_open c) (desktop_connection_sessions d)"
    "\<not> computer_revocation_pending d (md_vmid m)"
    "\<forall>g \<in> set (agent_guest_sessions d). s_desktop_vmid g = md_vmid m \<longrightarrow>
       s_state g \<noteq> AgentRevoking \<and> (ags_open g \<longrightarrow> s_lease_id g = l_id l)"
    "md_os_family m \<noteq> OsUnknown"
  using assms
  by (auto simp: begin_desktop_def list_ex_iff split: option.splits dest!: find_SomeD)

lemma insert_ags_eq_Inr [result_simps]:
  "insert_ags row d = Inr (r, d') \<longleftrightarrow>
     protect_cross_subject_agent d row = Inr () \<and> ags_check row \<and> ags_unique (agent_guest_sessions d @ [row]) \<and>
     r = row \<and> d' = d\<lparr>agent_guest_sessions := agent_guest_sessions d @ [row]\<rparr>"
  by (auto simp: insert_ags_def bindE_eq_Inr guardE_eq_Inr Let_def)

lemma insert_ags_fenced:
  assumes "fenced d" "insert_ags row d = Inr (r, d')" "session_lease (desktop_leases d) row"
  shows "fenced d'"
proof -
  have i: "protect_cross_subject_agent d row = Inr ()" "ags_check row" "ags_unique (agent_guest_sessions d @ [row])"
    "d' = d\<lparr>agent_guest_sessions := agent_guest_sessions d @ [row]\<rparr>"
    using assms(2) by (auto simp: insert_ags_eq_Inr)
  have "\<not> list_ex (same_os_identity row) (native_guest_accounts d)"
    using i(1) by (auto simp: protect_cross_subject_agent_def guardE_eq_Inr same_os_identity_def list_ex_iff
        split: if_splits)
  with i assms have "session_inv d'" by (auto simp: fenced_def session_inv_def ags_wf_def)
  moreover have "authority_inv d'"
    by (rule authority_inv_frame [of d]) (use assms(1) in \<open>simp_all add: fenced_def i(4)\<close>)
  ultimately show ?thesis by (simp add: fenced_def)
qed

lemma session_lease_held:
  assumes "l \<in> set t" "l_state l = LeaseActive" "ags_open s" "s_lease_id s = l_id l"
    "s_control_epoch s = l_control_epoch l" "l_agent_id l = s_agent_id s" "l_desktop_id l = Itoa (s_desktop_vmid s)"
  shows "session_lease t s"
  using assms by (auto simp: session_lease_def)

lemma begin_session_tx_fenced:
  assumes "fenced d" "begin_session_tx now lease d = Inr (item, d')"
  shows "fenced d'"
proof -
  from assms(2) obtain l m where b: "begin_desktop now lease d = Some (l, m)"
    by (auto simp: begin_session_tx_def split: option.splits)
  note lm = begin_desktop_Some [OF b]
  let ?mine = "\<lambda>s. s_desktop_vmid s = md_vmid m \<and> s_agent_id s = l_agent_id lease"
  have held: "session_lease (desktop_leases d) s"
    if "ags_open s" "s_lease_id s = l_id l" "s_control_epoch s = l_control_epoch l"
      "s_agent_id s = l_agent_id lease" "s_desktop_vmid s = md_vmid m" for s
    by (rule session_lease_held [of l]) (use that lm in auto)
  show ?thesis
  proof (cases "find ?mine (agent_guest_sessions d)")
    case None
    have "session_lease (desktop_leases d) (new_session now (md_vmid m) (md_os_family m) lease l)"
      by (rule held) (simp_all add: new_session_def ags_open_def)
    moreover have "insert_ags (new_session now (md_vmid m) (md_os_family m) lease l) d = Inr (item, d')"
      using assms(2) b None by (simp add: begin_session_tx_def Let_def)
    ultimately show ?thesis using insert_ags_fenced assms(1) by blast
  next
    case (Some it)
    show ?thesis
    proof (cases "d' = d")
      case True
      then show ?thesis using assms(1) by simp
    next
      case False
      then obtain rs where "update_ags (\<lambda>s. ?mine s \<and> s_state s = AgentDisabled \<and> s_os_family s = md_os_family m)
           (renew_session now l) d = Inr (rs, d')"
        using assms(2) b Some
        by (auto simp: begin_session_tx_def Let_def bindE_eq_Inr first_row_eq_Inr split: if_splits)
      moreover have "session_lease (desktop_leases d) (renew_session now l r)" if "?mine r" for r
        by (rule held) (use that in \<open>auto simp: renew_session_def ags_open_def\<close>)
      ultimately show ?thesis using update_ags_fenced [OF assms(1)] by blast
    qed
  qed
qed

lemma BeginAgentGuestSession_fenced: "fenced d \<Longrightarrow> fenced (fst (BeginAgentGuestSession fault now lease d))"
  unfolding BeginAgentGuestSession_def by (rule run_tx_preserves) (auto intro: begin_session_tx_fenced)

lemma bind_account_tx_fenced:
  assumes "fenced d" "bind_account_tx now item revoking d = Inr (r, d')"
  shows "fenced d'"
  using assms(2) unfolding bind_account_tx_def update_one_ags_eq_Inr
  by (rule update_ags_fenced [OF assms(1)]) (erule session_lease_keep, simp_all add: ags_open_def)

lemma bindAgentGuestAccount_fenced: "fenced d \<Longrightarrow> fenced (fst (bindAgentGuestAccount fault now item revoking d))"
  unfolding bindAgentGuestAccount_def by (auto intro!: run_tx_fenced intro: bind_account_tx_fenced)

lemma begin_login_tx_fenced:
  assumes "fenced d" "begin_login_tx now item d = Inr (r, d')"
  shows "fenced d'"
proof -
  from assms(2) obtain rs where "update_ags (\<lambda>g. same_session item g \<and> same_account item g \<and> ags_open g \<and>
      session_authorized d now g) (login_row now) d = Inr (rs, d')"
    by (auto simp: begin_login_tx_def bindE_eq_Inr first_row_eq_Inr)
  then show ?thesis
    by (rule update_ags_fenced [OF assms(1)])
      (erule session_lease_keep, auto simp: login_row_def ags_open_def)
qed

lemma BeginAgentGuestLogin_fenced: "fenced d \<Longrightarrow> fenced (fst (BeginAgentGuestLogin fault now item d))"
  unfolding BeginAgentGuestLogin_def by (auto intro!: run_tx_fenced intro: begin_login_tx_fenced)

lemma mark_ready_tx_fenced:
  assumes "fenced d" "mark_ready_tx now item d = Inr (r, d')"
  shows "fenced d'"
  using assms(2) unfolding mark_ready_tx_def update_one_ags_eq_Inr
  by (rule update_ags_fenced [OF assms(1)]) (erule session_lease_keep, auto simp: ags_open_def ready_row_def)

lemma MarkAgentGuestSessionReady_fenced: "fenced d \<Longrightarrow> fenced (fst (MarkAgentGuestSessionReady fault now item d))"
  unfolding MarkAgentGuestSessionReady_def by (auto intro!: run_tx_fenced intro: mark_ready_tx_fenced)

lemma queue_session_tx_fenced:
  assumes "fenced d" "queue_session_tx now item d = Inr (rs, d')"
  shows "fenced d'"
  using assms(2) unfolding queue_session_tx_def
  by (rule update_leases_fenced(1) [OF _ assms(1), rotated]) (auto simp: closes_def)

lemma QueueAgentGuestSessionRevocation_fenced:
  "fenced d \<Longrightarrow> fenced (fst (QueueAgentGuestSessionRevocation fault now item d))"
  unfolding QueueAgentGuestSessionRevocation_def then_check_simps
  by (rule run_tx_preserves) (auto intro: queue_session_tx_fenced)

lemma fold_audit_session: "\<exists>a. fold (audit_session_revoked now) rs d = d\<lparr>audit_events := a\<rparr>"
proof (induction rs arbitrary: d)
  case Nil
  show ?case by (rule exI [of _ "audit_events d"]) simp
next
  case (Cons r rs)
  show ?case using Cons [of "audit_session_revoked now r d"] by (auto simp: audit_session_revoked_def insert_audit_def)
qed

lemma fenced_audit: "fenced d \<Longrightarrow> fenced (d\<lparr>audit_events := a\<rparr>)"
  by (rule fenced_frame [of d]) simp_all

lemma complete_session_tx_fenced:
  assumes "fenced d" "complete_session_tx now item d = Inr (n, d')"
  shows "fenced d'"
proof -
  from assms(2) obtain rs d1 where
    u: "update_ags (revoked_session item)
          (\<lambda>g. g\<lparr>s_state := AgentDisabled, s_session_id := [], s_instance_id := [], s_updated_at := now\<rparr>) d = Inr (rs, d1)"
    and d': "d' = fold (audit_session_revoked now) rs d1"
    by (auto simp: complete_session_tx_def bindE_eq_Inr)
  from u have "fenced d1"
    by (rule update_ags_fenced [OF assms(1)]) (erule session_lease_keep, auto simp: ags_open_def revoked_session_def)
  moreover obtain a where "d' = d1\<lparr>audit_events := a\<rparr>" using fold_audit_session d' by blast
  ultimately show ?thesis by (simp add: fenced_audit)
qed

lemma CompleteAgentGuestSessionRevocation_fenced:
  "fenced d \<Longrightarrow> fenced (fst (CompleteAgentGuestSessionRevocation fault now item d))"
  unfolding CompleteAgentGuestSessionRevocation_def then_check_simps
  by (rule run_tx_preserves) (auto intro: complete_session_tx_fenced)

section \<open>Sessions only move forward\<close>

text \<open>
  What the row guards leave of a session: its subject and platform never change, an OS identity once
  bound stays, and the version (generation, login generation) never goes back.
\<close>

definition session_grows :: "AgentGuestSession \<Rightarrow> AgentGuestSession \<Rightarrow> bool" where
  "session_grows old new \<longleftrightarrow>
     s_desktop_vmid new = s_desktop_vmid old \<and> s_agent_id new = s_agent_id old \<and>
     s_guest_username new = s_guest_username old \<and> s_os_family new = s_os_family old \<and>
     (s_guest_uid old \<noteq> 0 \<or> s_guest_sid old \<noteq> [] \<longrightarrow>
        s_guest_uid new = s_guest_uid old \<and> s_guest_sid new = s_guest_sid old) \<and>
     (s_generation old < s_generation new \<and> s_control_epoch old < s_control_epoch new \<or>
      s_generation new = s_generation old \<and> s_lease_id new = s_lease_id old \<and>
      s_control_epoch new = s_control_epoch old \<and> s_login_generation old \<le> s_login_generation new)"

definition sessions_grow :: "db \<Rightarrow> db \<Rightarrow> bool" where
  "sessions_grow d d' \<longleftrightarrow>
     (\<forall>s \<in> set (agent_guest_sessions d). \<exists>s' \<in> set (agent_guest_sessions d'). session_grows s s')"

lemma session_grows_refl [simp]: "session_grows s s"
  by (simp add: session_grows_def)

lemma session_grows_trans: "session_grows a b \<Longrightarrow> session_grows b c \<Longrightarrow> session_grows a c"
  by (auto simp: session_grows_def)

lemma sessions_grow_subset: "set (agent_guest_sessions d) \<subseteq> set (agent_guest_sessions d') \<Longrightarrow> sessions_grow d d'"
  unfolding sessions_grow_def using session_grows_refl by blast

lemma sessions_grow_refl [simp]: "sessions_grow d d"
  by (rule sessions_grow_subset) simp

lemma sessions_grow_trans: "sessions_grow d d1 \<Longrightarrow> sessions_grow d1 d2 \<Longrightarrow> sessions_grow d d2"
  unfolding sessions_grow_def by (meson session_grows_trans)

lemma sessions_grow_frame: "agent_guest_sessions d' = agent_guest_sessions d \<Longrightarrow> sessions_grow d d'"
  by (rule sessions_grow_subset) simp

lemma ags_row_update_grows:
  assumes "ags_row_update d old new = Inr ()"
  shows "session_grows old new"
  using assms
  by (auto simp: ags_row_update_def bindE_eq_Inr guardE_eq_Inr protect_agent_guest_account_binding_def
      protect_agent_login_generation_def session_grows_def split: if_splits)

lemma update_ags_grows:
  assumes "update_ags p f d = Inr (rs, d')"
  shows "sessions_grow d d'"
proof -
  have "session_grows s (if p s then f s else s)" if "s \<in> set (agent_guest_sessions d)" for s
    using assms that ags_row_update_grows by (auto simp: update_ags_eq_Inr)
  then have "\<exists>r \<in> set (agent_guest_sessions d). session_grows s (if p r then f r else r)"
    if "s \<in> set (agent_guest_sessions d)" for s using that by blast
  moreover have "agent_guest_sessions d' = upd_where p f (agent_guest_sessions d)"
    using assms by (simp add: update_ags_eq_Inr)
  ultimately show ?thesis unfolding sessions_grow_def by (simp only: bex_upd_where) blast
qed

lemma closed_as_grows:
  assumes "closed_as now p f d d'"
  shows "sessions_grow d d'"
proof -
  let ?ids = "l_id ` set (filter p (desktop_leases d))"
  have "agent_guest_sessions d' = revoke_sessions now ?ids (agent_guest_sessions d)"
    using assms by (auto simp: closed_as_def Let_def)
  moreover have "session_grows s (if s_lease_id s \<in> ?ids \<and> ags_open s then revoke_row now s else s)" for s
    by (simp add: session_grows_def revoke_row_def)
  ultimately show ?thesis
    unfolding sessions_grow_def revoke_sessions_def by (simp only: bex_upd_where) blast
qed

lemma begin_session_tx_grows:
  assumes "begin_session_tx now lease d = Inr (item, d')"
  shows "sessions_grow d d'"
  using assms
  by (auto simp: begin_session_tx_def Let_def bindE_eq_Inr first_row_eq_Inr insert_ags_eq_Inr
      split: option.splits if_splits)
    ((rule update_ags_grows, assumption) | (rule sessions_grow_subset, force))+

lemma run_tx_grows:
  "(\<And>x d'. body d = Inr (x, d') \<Longrightarrow> sessions_grow d d') \<Longrightarrow> sessions_grow d (fst (run_tx fault body d))"
  using run_tx_state [of fault body d] by auto

lemma bind_account_tx_grows: "bind_account_tx now item revoking d = Inr (r, d') \<Longrightarrow> sessions_grow d d'"
  by (auto simp: bind_account_tx_def update_one_ags_eq_Inr intro: update_ags_grows)

lemma begin_login_tx_grows: "begin_login_tx now item d = Inr (r, d') \<Longrightarrow> sessions_grow d d'"
  by (auto simp: begin_login_tx_def bindE_eq_Inr first_row_eq_Inr intro: update_ags_grows)

lemma mark_ready_tx_grows: "mark_ready_tx now item d = Inr (r, d') \<Longrightarrow> sessions_grow d d'"
  by (auto simp: mark_ready_tx_def update_one_ags_eq_Inr intro: update_ags_grows)

lemma complete_session_tx_grows:
  assumes "complete_session_tx now item d = Inr (n, d')"
  shows "sessions_grow d d'"
proof -
  from assms obtain rs d1 where u: "update_ags (revoked_session item)
      (\<lambda>g. g\<lparr>s_state := AgentDisabled, s_session_id := [], s_instance_id := [], s_updated_at := now\<rparr>) d = Inr (rs, d1)"
    and d': "d' = fold (audit_session_revoked now) rs d1"
    by (auto simp: complete_session_tx_def bindE_eq_Inr)
  obtain a where "d' = d1\<lparr>audit_events := a\<rparr>" using fold_audit_session d' by blast
  then show ?thesis using update_ags_grows [OF u] by (simp add: sessions_grow_def)
qed

text \<open>Under the invariant a session is found again by its key, and has grown.\<close>

lemma sessions_grow_key:
  assumes "sessions_grow d d'" "fenced d'" "s \<in> set (agent_guest_sessions d)" "s' \<in> set (agent_guest_sessions d')"
    "s_desktop_vmid s' = s_desktop_vmid s" "s_agent_id s' = s_agent_id s"
  shows "session_grows s s'"
proof -
  obtain s2 where s2: "s2 \<in> set (agent_guest_sessions d')" "session_grows s s2"
    using assms(1,3) by (auto simp: sessions_grow_def)
  have "unique_by (\<lambda>s. (s_desktop_vmid s, s_agent_id s)) (agent_guest_sessions d')"
    using assms(2) by (simp add: fenced_def session_inv_def ags_wf_def ags_unique_def)
  from unique_by_same [OF this s2(1) assms(4)] s2(2) assms(5,6) show ?thesis
    by (auto simp: session_grows_def)
qed

section \<open>Properties\<close>

lemma AgentGuestUsername_valid: "matches_class ''vca'' is_lower_hex 12 12 (AgentGuestUsername aid)"
  by (simp add: AgentGuestUsername_def matches_class_def HasPrefix_def hex_encode_lower_hex)

lemma update_ags_hit:
  assumes "update_ags p f d = Inr (rs, d')" "r \<in> set rs"
  obtains g where "g \<in> set (agent_guest_sessions d)" "p g" "r = f g" "f g \<in> set (agent_guest_sessions d')"
  using assms by (auto simp: update_ags_eq_Inr in_upd_where)


lemma renew_row_ok:
  assumes "fenced d" "l \<in> set (desktop_leases d)" "l_state l = LeaseActive"
    and "r \<in> set (agent_guest_sessions d)" "s_state r = AgentDisabled" "l_desktop_id l = Itoa (s_desktop_vmid r)"
  shows "ags_row_update d r (renew_session now l r) = Inr ()"
proof -
  have closed: "\<not> ags_open r" using assms(5) by (simp add: ags_open_def)
  obtain l0 where l0: "l0 \<in> set (desktop_leases d)" "l_id l0 = s_lease_id r" "l_state l0 \<noteq> LeaseActive"
    "s_control_epoch r < l_control_epoch l0" "l_desktop_id l0 = l_desktop_id l"
    using assms(1,4,6) closed by (auto simp: fenced_def session_inv_def session_lease_def)
  have "lease_inv d l0" "lease_inv d l" using assms(1,2) l0(1) by (auto simp: fenced_def authority_inv_def)
  then have epoch: "s_control_epoch r < l_control_epoch l" "0 < l_control_epoch l"
    using assms(3) l0(4,5) by (auto simp: lease_inv_def)
  have other: "l_id l \<noteq> s_lease_id r" using assms(2,3) l0 by (metis assms(1) authority_inv_def fenced_def leases_unique_def unique_by_same)
  have r: "ags_check r" "\<not> list_ex (same_os_identity r) (native_guest_accounts d)"
    using assms(1,4) by (auto simp: fenced_def session_inv_def ags_wf_def)
  have "\<not> list_ex (same_os_identity (renew_session now l r)) (native_guest_accounts d)"
    using r(2) by (simp add: list_ex_iff same_os_identity_def renew_session_def)
  moreover have "ags_check (renew_session now l r)"
    using r(1) epoch(2)
    by (simp add: ags_check_def agent_guest_account_identity_def agent_guest_ready_identity_def renew_session_def)
  ultimately show ?thesis
    using epoch(1) other assms(5)
    by (simp add: ags_row_update_def protect_agent_guest_account_binding_def protect_cross_subject_agent_def
        protect_agent_login_generation_def renew_session_def)
qed

lemma new_session_ok:
  assumes "fenced d" "l \<in> set (desktop_leases d)" "os \<noteq> OsUnknown"
    and "\<forall>s \<in> set (agent_guest_sessions d). s_desktop_vmid s = v \<longrightarrow>
           s_agent_id s \<noteq> l_agent_id lease \<and> s_guest_username s \<noteq> AgentGuestUsername (l_agent_id lease)"
  shows "insert_ags (new_session now v os lease l) d =
    Inr (new_session now v os lease l,
         d\<lparr>agent_guest_sessions := agent_guest_sessions d @ [new_session now v os lease l]\<rparr>)"
proof -
  have "0 < l_control_epoch l" using assms(1,2) by (auto simp: fenced_def authority_inv_def lease_inv_def)
  then have "ags_check (new_session now v os lease l)"
    using assms(3) AgentGuestUsername_valid
    by (cases os) (auto simp: ags_check_def agent_guest_account_identity_def agent_guest_ready_identity_def new_session_def)
  moreover have "ags_unique (agent_guest_sessions d)"
    using assms(1) by (simp add: fenced_def session_inv_def ags_wf_def)
  then have "ags_unique (agent_guest_sessions d @ [new_session now v os lease l])"
    using assms(4) by (auto simp: ags_unique_def new_session_def)
  ultimately show ?thesis
    by (simp add: insert_ags_eq_Inr protect_cross_subject_agent_def) (simp add: new_session_def)
qed

text \<open>
  Registering a session never gets stuck on the database's own guards: for a lease that is live and
  whose desktop is free, with a platform that has not changed and no clash of derived account names, the
  transaction succeeds and the session it returns is open under exactly that lease and epoch.
\<close>

theorem BeginAgentGuestSession_succeeds:
  assumes "fenced d" "begin_desktop now lease d = Some (l, m)"
    and "\<forall>s \<in> set (agent_guest_sessions d). s_desktop_vmid s = md_vmid m \<and>
           s_guest_username s = AgentGuestUsername (l_agent_id lease) \<longrightarrow> s_agent_id s = l_agent_id lease"
    and "\<forall>s \<in> set (agent_guest_sessions d). s_desktop_vmid s = md_vmid m \<and> s_agent_id s = l_agent_id lease \<longrightarrow>
           s_os_family s = md_os_family m"
  shows "\<exists>d' item. BeginAgentGuestSession NoFault now lease d = (d', Inr item) \<and> ags_open item \<and>
           s_lease_id item = l_id lease \<and> s_control_epoch item = l_control_epoch lease \<and>
           item \<in> set (agent_guest_sessions d')"
proof -
  note lm = begin_desktop_Some [OF assms(2)]
  let ?mine = "\<lambda>s. s_desktop_vmid s = md_vmid m \<and> s_agent_id s = l_agent_id lease"
  let ?p = "\<lambda>s. ?mine s \<and> s_state s = AgentDisabled \<and> s_os_family s = md_os_family m"
  have "\<exists>d' item. begin_session_tx now lease d = Inr (item, d') \<and> ags_open item \<and> s_lease_id item = l_id lease \<and>
      s_control_epoch item = l_control_epoch lease \<and> item \<in> set (agent_guest_sessions d')"
  proof (cases "find ?mine (agent_guest_sessions d)")
    case None
    then have "insert_ags (new_session now (md_vmid m) (md_os_family m) lease l) d =
      Inr (new_session now (md_vmid m) (md_os_family m) lease l,
        d\<lparr>agent_guest_sessions := agent_guest_sessions d @ [new_session now (md_vmid m) (md_os_family m) lease l]\<rparr>)"
      using assms(3) by (intro new_session_ok [OF assms(1) lm(1,13)]) (auto simp: find_None_iff)
    with None show ?thesis
      using assms(2) lm(2,4) by (auto simp: begin_session_tx_def new_session_def ags_open_def Let_def)
  next
    case (Some it)
    then have it: "it \<in> set (agent_guest_sessions d)" "?mine it" by (auto dest: find_SomeD)
    have os: "s_os_family it = md_os_family m" using assms(4) it by auto
    show ?thesis
    proof (cases "ags_open it")
      case True
      then have "s_lease_id it = l_id l" using lm(12) it by auto
      moreover from this obtain l0 where "l0 \<in> set (desktop_leases d)" "l_id l0 = l_id l"
        "l_control_epoch l0 = s_control_epoch it"
        using assms(1) it(1) True by (auto simp: fenced_def session_inv_def session_lease_def)
      then have "s_control_epoch it = l_control_epoch l"
        using unique_by_same [of l_id "desktop_leases d" l0 l] lm(1) assms(1)
        by (auto simp: fenced_def authority_inv_def leases_unique_def)
      ultimately show ?thesis
        using Some os True assms(2) lm(2,4) it(1) by (auto simp: begin_session_tx_def Let_def)
    next
      case False
      then have dis: "s_state it = AgentDisabled"
        using lm(12) it by (cases "s_state it") (auto simp: ags_open_def)
      have "ags_unique (upd_where ?p (renew_session now l) (agent_guest_sessions d))"
        using assms(1)
        by (subst ags_unique_upd_where) (auto simp: fenced_def session_inv_def ags_wf_def renew_session_def)
      then obtain rs d' where u: "update_ags ?p (renew_session now l) d = Inr (rs, d')"
        "rs = map (renew_session now l) (filter ?p (agent_guest_sessions d))"
        using renew_row_ok [OF assms(1) lm(1,5)] lm(8) by (auto simp: update_ags_eq_Inr)
      have "renew_session now l it \<in> set rs" using it dis os by (auto simp: u(2))
      then obtain r q where rq: "rs = r # q" by (cases rs) auto
      have "\<exists>g. r = renew_session now l g \<and> renew_session now l g \<in> set (agent_guest_sessions d')"
        by (rule update_ags_hit [OF u(1), of r]) (auto simp: rq)
      with rq u(1) Some os False show ?thesis
        using assms(2) lm(2,4)
        by (auto simp: begin_session_tx_def Let_def first_row_def renew_session_def ags_open_def)
    qed
  qed
  then show ?thesis by (auto simp: BeginAgentGuestSession_def)
qed

text \<open>
  C9. A session becomes ready only with valid, current evidence: the row that is marked belongs to the
  named subject and versions, carries a session identifier valid for its pinned account, and hangs on a
  lease that is active, unexpired and of the same epoch; no other session changes.
\<close>

theorem MarkAgentGuestSessionReady_sound:
  assumes "fenced d" "MarkAgentGuestSessionReady fault now item d = (d', Inr ())"
  shows "\<exists>g \<in> set (agent_guest_sessions d). \<exists>l \<in> set (desktop_leases d).
           same_session item g \<and> same_account item g \<and>
           agent_guest_sessions d' = upd_where (\<lambda>s. s = g) (ready_row now item) (agent_guest_sessions d) \<and>
           ValidSession (os_text (s_os_family g)) (AgentGuestUsername (s_agent_id g)) (s_guest_uid g) (s_guest_sid g)
             (s_session_id item) (s_instance_id item) \<and>
           l_id l = s_lease_id g \<and> l_state l = LeaseActive \<and> now < l_expires_at l \<and>
           l_control_epoch l = s_control_epoch g \<and> desktop_leases d' = desktop_leases d"
proof -
  let ?p = "\<lambda>g. same_session item g \<and> same_account item g \<and> ags_open g \<and> session_authorized d now g"
  have chk: "s_guest_username item = AgentGuestUsername (s_agent_id item)"
    "ValidSession (os_text (s_os_family item)) (s_guest_username item) (s_guest_uid item) (s_guest_sid item)
       (s_session_id item) (s_instance_id item)"
    and "\<exists>r. mark_ready_tx now item d = Inr (r, d')"
    using assms(2) by (auto simp: MarkAgentGuestSessionReady_def then_check_eq_Inr run_tx_eq_Inr split: if_splits)
  then obtain r where u: "update_ags ?p (ready_row now item) d = Inr ([r], d')"
    by (auto simp: mark_ready_tx_def update_one_ags_eq_Inr)
  then obtain g where hit: "filter ?p (agent_guest_sessions d) = [g]"
    by (auto simp: update_ags_eq_Inr Cons_eq_map_conv)
  then have g: "g \<in> set (agent_guest_sessions d)" "?p g" by (auto simp: filter_eq_Cons_iff)
  have "upd_where ?p (ready_row now item) (agent_guest_sessions d) =
        upd_where (\<lambda>s. s = g) (ready_row now item) (agent_guest_sessions d)"
  proof -
    have "?p s \<longleftrightarrow> s = g" if "s \<in> set (agent_guest_sessions d)" for s
    proof -
      have "s \<in> set (filter ?p (agent_guest_sessions d)) \<longleftrightarrow> s = g" unfolding hit by auto
      with that show ?thesis by auto
    qed
    then show ?thesis by (auto simp: upd_where_def)
  qed
  then have d': "d' = d\<lparr>agent_guest_sessions := upd_where (\<lambda>s. s = g) (ready_row now item) (agent_guest_sessions d)\<rparr>"
    using u by (simp add: update_ags_eq_Inr)
  from g(2) obtain l where "l \<in> set (desktop_leases d)" "l_id l = s_lease_id g" "l_state l = LeaseActive"
    "now < l_expires_at l" "l_control_epoch l = s_control_epoch g"
    by (auto simp: session_authorized_def list_ex_iff)
  moreover have "ValidSession (os_text (s_os_family g)) (AgentGuestUsername (s_agent_id g)) (s_guest_uid g) (s_guest_sid g)
      (s_session_id item) (s_instance_id item)"
    using chk g(2) by (simp add: same_session_def same_account_def)
  ultimately show ?thesis using g d' by (intro bexI [of _ g] bexI [of _ l]) auto
qed

section \<open>An example\<close>

definition ex_item :: AgentGuestSession where
  "ex_item = ex_session\<lparr>s_guest_username := AgentGuestUsername ''a1'', s_expires_at := 90\<rparr>"

definition ex_live_db :: db where
  "ex_live_db = ex_db\<lparr>desktop_leases := [ex_lease\<lparr>l_expires_at := 90\<rparr>], agent_guest_sessions := [ex_item]\<rparr>"

lemma ex_live_authority: "authority_inv ex_live_db"
proof -
  have "authority_inv (ex_db\<lparr>desktop_leases := [ex_lease\<lparr>l_expires_at := 90\<rparr>]\<rparr>)" by code_simp
  then show ?thesis by (rule authority_inv_frame) (simp_all add: ex_live_db_def)
qed

lemma ex_live_session: "session_inv ex_live_db"
proof -
  have "Itoa 100 = ''100''" by code_simp
  then show ?thesis
    using AgentGuestUsername_valid [of "''a1''"]
    by (simp add: session_inv_def ags_wf_def ags_unique_def ags_check_def agent_guest_account_identity_def
        agent_guest_ready_identity_def session_lease_def ags_open_def ex_live_db_def ex_item_def ex_session_def
        ex_lease_def ex_db_def empty_db_def)
qed

lemma ex_live_fenced: "fenced ex_live_db"
  by (simp add: fenced_def ex_live_authority ex_live_session)

lemma ex_live_authorized: "session_authorized ex_live_db 60 ex_item"
proof -
  have "agent_desktop_access ex_db ''a1'' (\<lambda>m. md_vmid m = 100 \<and> md_os_family m = OsLinux)" by code_simp
  then show ?thesis
    by (simp add: session_authorized_def ex_live_db_def ex_item_def ex_session_def ex_lease_def
        agent_desktop_access_def desktop_clone_ready_def)
qed

lemma ex_item_ok: "item_account_ok ex_item"
  by (simp add: item_account_ok_def ValidAccount_def ex_item_def ex_session_def)

lemma ex_login: "begin_login_tx 60 ex_item ex_live_db =
    Inr (login_row 60 ex_item, ex_live_db\<lparr>agent_guest_sessions := [login_row 60 ex_item]\<rparr>)"
proof -
  have t: "agent_guest_sessions ex_live_db = [ex_item]" by (simp add: ex_live_db_def)
  have "same_session ex_item ex_item \<and> same_account ex_item ex_item \<and> ags_open ex_item"
    by (simp add: same_session_def same_account_def ags_open_def ex_item_def ex_session_def)
  moreover have "ags_row_update ex_live_db ex_item (login_row 60 ex_item) = Inr ()"
  proof -
    have "native_guest_accounts ex_live_db = []" by (simp add: ex_live_db_def ex_db_def empty_db_def)
    then show ?thesis
      using AgentGuestUsername_valid [of "''a1''"]
      by (simp add: ags_row_update_def protect_agent_guest_account_binding_def protect_cross_subject_agent_def
          protect_agent_login_generation_def ags_check_def agent_guest_account_identity_def
          agent_guest_ready_identity_def login_row_def ags_open_def ex_item_def ex_session_def)
  qed
  ultimately show ?thesis
    using ex_live_authorized
    by (simp add: begin_login_tx_def update_ags_def t ags_unique_def first_row_def)
qed


theorem BeginAgentGuestSession_succeeds_witness:
  "\<exists>d' item. BeginAgentGuestSession NoFault 60 (ex_lease\<lparr>l_expires_at := 90\<rparr>) ex_live_db = (d', Inr item) \<and>
     ags_open item \<and> s_lease_id item = ''lease_1'' \<and> s_control_epoch item = 3"
proof -
  have acc: "agent_desktop_access ex_db ''a1'' (\<lambda>x. md_vmid x = 100)" and "Itoa 100 = ''100''" by code_simp+
  then have acc': "agent_desktop_access ex_live_db ''a1'' (\<lambda>x. md_vmid x = 100)"
    by (simp add: agent_desktop_access_def desktop_clone_ready_def ex_live_db_def)
  have "begin_desktop 60 (ex_lease\<lparr>l_expires_at := 90\<rparr>) ex_live_db = Some (ex_lease\<lparr>l_expires_at := 90\<rparr>, ex_desktop)"
    using acc' \<open>Itoa 100 = ''100''\<close>
    by (simp add: begin_desktop_def ex_live_db_def ex_db_def empty_db_def ex_lease_def ex_desktop_def
        computer_revocation_pending_def ex_item_def ex_session_def)
  from BeginAgentGuestSession_succeeds [OF ex_live_fenced this] show ?thesis
    by (auto simp: ex_live_db_def ex_item_def ex_session_def ex_desktop_def ex_lease_def)
qed

definition ex_ready :: AgentGuestSession where
  "ex_ready = ex_item\<lparr>s_login_generation := 1, s_session_id := ''linux:1200:77::1'',
     s_instance_id := replicate 64 (CHR ''a'')\<rparr>"

definition ex_login_db :: db where
  "ex_login_db = ex_live_db\<lparr>agent_guest_sessions := [login_row 60 ex_item]\<rparr>"

lemma ex_ready_valid:
  "ValidSession ''linux'' (AgentGuestUsername ''a1'') 1200 [] ''linux:1200:77::1'' (replicate 64 (CHR ''a''))"
proof -
  have "instance_re (replicate 64 (CHR ''a''))" "linuxDisplay '':1''"
    "linux_session_text 1200 77 '':1'' = ''linux:1200:77::1''" "(1000 :: 32 word) \<le> 1200"
    by code_simp+
  then show ?thesis
    using AgentGuestUsername_valid [of "''a1''"]
    by (auto simp: ValidSession_linux_shape managedUser_def intro!: exI [of _ 77] exI [of _ "'':1''"])
qed

lemma ex_mark:
  "MarkAgentGuestSessionReady NoFault 65 ex_ready ex_login_db =
     (ex_login_db\<lparr>agent_guest_sessions := [ready_row 65 ex_ready (login_row 60 ex_item)]\<rparr>, Inr ())"
proof -
  let ?g = "login_row 60 ex_item"
  have t: "agent_guest_sessions ex_login_db = [?g]" by (simp add: ex_login_db_def)
  have acc: "agent_desktop_access ex_db ''a1'' (\<lambda>m. md_vmid m = 100 \<and> md_os_family m = OsLinux)" by code_simp
  have auth: "session_authorized ex_login_db 65 ?g"
    using acc by (simp add: session_authorized_def ex_login_db_def ex_live_db_def ex_item_def ex_session_def
        ex_lease_def login_row_def agent_desktop_access_def desktop_clone_ready_def)
  have same: "same_session ex_ready ?g" "same_account ex_ready ?g" "ags_open ?g"
    by (simp_all add: same_session_def same_account_def ags_open_def ex_ready_def ex_item_def ex_session_def login_row_def)
  have "instance_re (replicate 64 (CHR ''a''))" "HasPrefix ''linux:1200:77::1'' (linux_session_prefix 1200)"
    by code_simp+
  then have row: "ags_row_update ex_login_db ?g (ready_row 65 ex_ready ?g) = Inr ()"
    using AgentGuestUsername_valid [of "''a1''"]
    by (simp add: ags_row_update_def protect_agent_guest_account_binding_def protect_cross_subject_agent_def
        protect_agent_login_generation_def ags_check_def agent_guest_account_identity_def
        agent_guest_ready_identity_def login_row_def ready_row_def ex_item_def ex_session_def ex_ready_def
        ex_login_db_def ex_live_db_def ex_db_def empty_db_def)
  have "mark_ready_tx 65 ex_ready ex_login_db =
      Inr (ready_row 65 ex_ready ?g, ex_login_db\<lparr>agent_guest_sessions := [ready_row 65 ex_ready ?g]\<rparr>)"
    using auth same row by (simp add: mark_ready_tx_def update_one_ags_def update_ags_def t ags_unique_def one_row_def)
  moreover have "\<not> (s_login_generation ex_ready < 1 \<or> s_guest_username ex_ready \<noteq> AgentGuestUsername (s_agent_id ex_ready) \<or>
         \<not> ValidSession (os_text (s_os_family ex_ready)) (s_guest_username ex_ready) (s_guest_uid ex_ready)
             (s_guest_sid ex_ready) (s_session_id ex_ready) (s_instance_id ex_ready))"
    using ex_ready_valid by (simp add: ex_ready_def ex_item_def ex_session_def)
  ultimately show ?thesis unfolding MarkAgentGuestSessionReady_def by (simp add: then_check_def)
qed

theorem MarkAgentGuestSessionReady_sound_witness:
  "\<exists>d'. MarkAgentGuestSessionReady NoFault 65 ex_ready ex_login_db = (d', Inr ()) \<and>
     (\<exists>g \<in> set (agent_guest_sessions ex_login_db).
        agent_guest_sessions d' = upd_where (\<lambda>s. s = g) (ready_row 65 ex_ready) (agent_guest_sessions ex_login_db))"
proof -
  have "BeginAgentGuestLogin NoFault 60 ex_item ex_live_db = (ex_login_db, Inr (login_row 60 ex_item))"
    unfolding BeginAgentGuestLogin_def ex_login_db_def
    using ex_login ex_item_ok by (simp add: ex_item_def ex_session_def)
  then have "fenced ex_login_db" using BeginAgentGuestLogin_fenced [OF ex_live_fenced, of NoFault 60 ex_item] by simp
  from MarkAgentGuestSessionReady_sound [OF this ex_mark] ex_mark show ?thesis by blast
qed

end
