(* ===== verification/Access_Control.thy ===== *)
theory Access_Control
  imports Agent_Sessions
begin

text \<open>
  The authorization transaction of the store: \<open>access_transaction.go\<close> and the queue of Guest identity
  revocations it feeds (\<open>queueGuestIdentityRevocations\<close> of \<open>guest_revocation.go\<close>).  Every change of users,
  desktops, groups or assignments ends in \<open>commitAccessChange\<close>, which takes back what the change no
  longer permits: bindings, connections and leases.  \<open>settled\<close> says that nothing is left to take back.
\<close>

section \<open>The queue of Guest identity revocations\<close>

definition revocation_of :: "GuestIdentityBinding \<Rightarrow> GuestIdentityRevocation \<Rightarrow> bool" where
  "revocation_of b q \<longleftrightarrow>
     r_desktop_vmid q = b_desktop_vmid b \<and> r_user_id q = b_user_id b \<and> r_guest_username q = b_guest_username b"

text \<open>The upsert of the statement, for one affected binding.\<close>

definition request_identity ::
  "time \<Rightarrow> revoke_reason \<Rightarrow> GuestIdentityBinding \<Rightarrow> GuestIdentityRevocation list \<Rightarrow> GuestIdentityRevocation list" where
  "request_identity now reason b t =
     (if list_ex (revocation_of b) t
      then upd_where (revocation_of b)
             (\<lambda>q. q\<lparr>r_requested_revision := r_requested_revision q + 1, r_reason := reason,
                    r_last_error := [], r_updated_at := now\<rparr>) t
      else t @ [\<lparr>r_desktop_vmid = b_desktop_vmid b, r_user_id = b_user_id b,
                 r_guest_username = b_guest_username b, r_requested_revision = 1, r_completed_revision = 0,
                 r_reason = reason, r_last_error = [], r_updated_at = now\<rparr>])"

text \<open>
  The bindings' primary key makes the affected rows distinct requests.  The binding guard of migration
  028 compares columns this update does not touch.
\<close>

definition disable_binding :: "time \<Rightarrow> GuestIdentityBinding \<Rightarrow> GuestIdentityBinding" where
  "disable_binding now b = b\<lparr>b_state := BindDisabled, b_updated_at := now\<rparr>"

definition queueGuestIdentityRevocations ::
  "time \<Rightarrow> (GuestIdentityBinding \<Rightarrow> bool) \<Rightarrow> revoke_reason \<Rightarrow> db \<Rightarrow> db" where
  "queueGuestIdentityRevocations now affected reason d =
     d\<lparr>guest_identity_bindings := upd_where affected (disable_binding now) (guest_identity_bindings d),
       guest_identity_revocations :=
         fold (request_identity now reason) (filter affected (guest_identity_bindings d))
           (guest_identity_revocations d)\<rparr>"

section \<open>Committing an authorization change\<close>

definition revoking_connection :: "time \<Rightarrow> DesktopConnectionSession \<Rightarrow> DesktopConnectionSession" where
  "revoking_connection now c =
     c\<lparr>c_state := ConnRevoking, c_termination_required := True, c_updated_at := now\<rparr>"

definition lease_permitted :: "db \<Rightarrow> DesktopLease \<Rightarrow> bool" where
  "lease_permitted d l \<longleftrightarrow> agent_desktop_access d (l_agent_id l) (\<lambda>m. Itoa (md_vmid m) = l_desktop_id l)"

definition commitAccessChange :: "time \<Rightarrow> db \<Rightarrow> err + db" where
  "commitAccessChange now d =
     (let d1 = queueGuestIdentityRevocations now (\<lambda>b. b_state b \<noteq> BindDisabled \<and>
                 \<not> effective_user_desktop_access d (b_user_id b) (b_desktop_vmid b)) AccessRemoved d;
          d2 = d1\<lparr>desktop_connection_sessions := upd_where (\<lambda>c. conn_open c \<and>
                 \<not> effective_user_desktop_access d1 (c_user_id c) (c_desktop_vmid c))
                 (revoking_connection now) (desktop_connection_sessions d1)\<rparr>
      in bindE (update_leases now (\<lambda>l. l_state l = LeaseActive \<and> \<not> lease_permitted d2 l)
                  (close_lease_as LeaseRevoked now) d2) (\<lambda>(_, d3). Inr d3))"

text \<open>The shape of an operation that ends in \<open>commitAccessChange\<close>.\<close>

definition access_tx :: "time \<Rightarrow> (db \<Rightarrow> err + ('a \<times> db)) \<Rightarrow> db \<Rightarrow> err + ('a \<times> db)" where
  "access_tx now body d =
     bindE (body d) (\<lambda>(x, d1). bindE (commitAccessChange now d1) (\<lambda>d2. Inr (x, d2)))"

definition DesktopConnectionTerminationRequired :: "tx_fault \<Rightarrow> time \<Rightarrow> string \<Rightarrow> db \<Rightarrow> err + bool" where
  "DesktopConnectionTerminationRequired fault now cid d =
     run_query fault (\<lambda>d.
       bindE (query_row (ErrMsg ''no rows in result set'') (\<lambda>c. c_id c = cid) (desktop_connection_sessions d)) (\<lambda>c.
         Inr (c_termination_required c \<or> c_expires_at c \<le> now))) d"

section \<open>Operations that do not touch computer authority\<close>

text \<open>
  The tables of leases, epochs, fencing queue, agent sessions and Native accounts are as before, and no
  managed desktop is gone.
\<close>

definition same_authority :: "db \<Rightarrow> db \<Rightarrow> bool" where
  "same_authority d d' \<longleftrightarrow>
     desktop_leases d' = desktop_leases d \<and> desktop_computer_epochs d' = desktop_computer_epochs d \<and>
     desktop_computer_revocations d' = desktop_computer_revocations d \<and>
     agent_guest_sessions d' = agent_guest_sessions d \<and> native_guest_accounts d' = native_guest_accounts d \<and>
     md_vmid ` set (managed_desktops d) \<subseteq> md_vmid ` set (managed_desktops d')"

lemma same_authority_refl [simp]: "same_authority d d"
  by (simp add: same_authority_def)

lemma same_authority_fenced: "same_authority d d' \<Longrightarrow> fenced d \<Longrightarrow> fenced d'"
  by (rule fenced_frame) (auto simp: same_authority_def)

lemma run_tx_same_authority:
  "(\<And>x d'. body d = Inr (x, d') \<Longrightarrow> same_authority d d') \<Longrightarrow> same_authority d (fst (run_tx fault body d))"
  by (rule run_tx_preserves) simp_all

section \<open>What the database grants\<close>

text \<open>The tables the access predicates read.\<close>

definition same_grants :: "db \<Rightarrow> db \<Rightarrow> bool" where
  "same_grants d d' \<longleftrightarrow>
     users d' = users d \<and> managed_desktops d' = managed_desktops d \<and> pve_jobs d' = pve_jobs d \<and>
     user_desktop_assignments d' = user_desktop_assignments d \<and>
     group_desktop_assignments d' = group_desktop_assignments d \<and>
     agent_desktop_assignments d' = agent_desktop_assignments d \<and>
     identity_groups d' = identity_groups d \<and> agent_principals d' = agent_principals d \<and>
     identity_group_memberships d' = identity_group_memberships d"

lemma same_grants_access:
  "same_grants d d' \<Longrightarrow> effective_user_desktop_access d' = effective_user_desktop_access d"
  by (simp add: same_grants_def effective_user_desktop_access_def desktop_grants_def group_grants_def
      desktop_clone_ready_def fun_eq_iff)

lemma same_grants_agents: "same_grants d d' \<Longrightarrow> lease_permitted d' = lease_permitted d"
  by (simp add: same_grants_def lease_permitted_def agent_desktop_access_def desktop_clone_ready_def fun_eq_iff)

text \<open>
  Nothing is left to take back: a binding that is not disabled and a connection that is not being
  revoked belong to users with access, an active lease to an agent with access.
\<close>

definition binding_settled :: "db \<Rightarrow> GuestIdentityBinding \<Rightarrow> bool" where
  "binding_settled d b \<longleftrightarrow>
     b_state b = BindDisabled \<or> effective_user_desktop_access d (b_user_id b) (b_desktop_vmid b)"

definition connection_settled :: "db \<Rightarrow> DesktopConnectionSession \<Rightarrow> bool" where
  "connection_settled d c \<longleftrightarrow>
     (conn_open c \<longrightarrow>
        effective_user_desktop_access d (c_user_id c) (c_desktop_vmid c) \<or>
        (c_state c = ConnRevoking \<and> c_termination_required c))"

definition lease_settled :: "db \<Rightarrow> DesktopLease \<Rightarrow> bool" where
  "lease_settled d l \<longleftrightarrow> l_state l \<noteq> LeaseActive \<or> lease_permitted d l"

definition settled :: "db \<Rightarrow> bool" where
  "settled d \<longleftrightarrow>
     list_all (binding_settled d) (guest_identity_bindings d) \<and>
     list_all (connection_settled d) (desktop_connection_sessions d) \<and>
     list_all (lease_settled d) (desktop_leases d)"

text \<open>A binding that a change takes back has its revocation pending.\<close>

definition identity_pending :: "db \<Rightarrow> int \<Rightarrow> string \<Rightarrow> string \<Rightarrow> bool" where
  "identity_pending d vmid uid username \<longleftrightarrow>
     list_ex (\<lambda>q. r_desktop_vmid q = vmid \<and> r_user_id q = uid \<and> r_guest_username q = username \<and>
                  r_completed_revision q < r_requested_revision q) (guest_identity_revocations d)"

definition identity_queue_wf :: "db \<Rightarrow> bool" where
  "identity_queue_wf d \<longleftrightarrow>
     list_all (\<lambda>q. 0 \<le> r_completed_revision q \<and> r_completed_revision q \<le> r_requested_revision q)
       (guest_identity_revocations d)"

lemma in_request_identity:
  "q \<in> set (request_identity now reason b t) \<Longrightarrow>
     q \<in> set t \<or> (\<exists>p \<in> set t. revocation_of b p \<and>
       q = p\<lparr>r_requested_revision := r_requested_revision p + 1, r_reason := reason, r_last_error := [],
             r_updated_at := now\<rparr>) \<or>
     (revocation_of b q \<and> r_requested_revision q = 1 \<and> r_completed_revision q = 0)"
  by (auto simp: request_identity_def in_upd_where revocation_of_def split: if_splits)

lemma request_identity_wf:
  assumes "\<forall>q \<in> set t. 0 \<le> r_completed_revision q \<and> r_completed_revision q \<le> r_requested_revision q"
    and "q \<in> set (request_identity now reason b t)"
  shows "0 \<le> r_completed_revision q \<and> r_completed_revision q \<le> r_requested_revision q"
  using in_request_identity [OF assms(2)] assms(1) by fastforce

lemma request_identity_pending:
  assumes "\<forall>q \<in> set t. r_completed_revision q \<le> r_requested_revision q"
  shows "\<exists>q \<in> set (request_identity now reason b t). revocation_of b q \<and> r_completed_revision q < r_requested_revision q"
proof (cases "list_ex (revocation_of b) t")
  case True
  then obtain q where "q \<in> set t" "revocation_of b q" by (auto simp: list_ex_iff)
  with assms True show ?thesis by (force simp: request_identity_def bex_upd_where revocation_of_def)
qed (simp add: request_identity_def revocation_of_def)

lemma request_identity_keeps_pending:
  assumes "\<exists>q \<in> set t. revocation_of c q \<and> r_completed_revision q < r_requested_revision q"
  shows "\<exists>q \<in> set (request_identity now reason b t). revocation_of c q \<and> r_completed_revision q < r_requested_revision q"
  using assms by (force simp: request_identity_def bex_upd_where revocation_of_def)

lemma fold_request_identity:
  assumes "\<forall>q \<in> set t. 0 \<le> r_completed_revision q \<and> r_completed_revision q \<le> r_requested_revision q"
  shows "(\<forall>q \<in> set (fold (request_identity now reason) bs t).
            0 \<le> r_completed_revision q \<and> r_completed_revision q \<le> r_requested_revision q) \<and>
         (\<forall>b. b \<in> set bs \<or> (\<exists>q \<in> set t. revocation_of b q \<and> r_completed_revision q < r_requested_revision q) \<longrightarrow>
            (\<exists>q \<in> set (fold (request_identity now reason) bs t).
               revocation_of b q \<and> r_completed_revision q < r_requested_revision q))"
  using assms
proof (induction bs arbitrary: t)
  case Nil
  then show ?case by simp
next
  case (Cons b bs)
  have wf: "\<forall>q \<in> set (request_identity now reason b t).
      0 \<le> r_completed_revision q \<and> r_completed_revision q \<le> r_requested_revision q"
    using request_identity_wf [OF Cons.prems] by blast
  have "\<exists>q \<in> set (request_identity now reason b t). revocation_of b q \<and> r_completed_revision q < r_requested_revision q"
    using Cons.prems by (intro request_identity_pending) auto
  with Cons.IH [OF wf] request_identity_keeps_pending show ?case by simp
qed

section \<open>Committing never fails and settles everything\<close>

lemma queue_identities_frame:
  "queueGuestIdentityRevocations now p reason d = d' \<Longrightarrow>
     \<exists>bs qs. d' = d\<lparr>guest_identity_bindings := bs, guest_identity_revocations := qs\<rparr>"
  by (auto simp: queueGuestIdentityRevocations_def)

lemma queue_identities_fenced:
  "fenced d \<Longrightarrow> fenced (queueGuestIdentityRevocations now p reason d)"
  by (rule fenced_frame) (auto simp: queueGuestIdentityRevocations_def)

lemma queue_identities_wf:
  assumes "identity_queue_wf d"
  shows "identity_queue_wf (queueGuestIdentityRevocations now p reason d)"
proof -
  let ?t = "fold (request_identity now reason) (filter p (guest_identity_bindings d)) (guest_identity_revocations d)"
  have "\<forall>q \<in> set (guest_identity_revocations d). 0 \<le> r_completed_revision q \<and> r_completed_revision q \<le> r_requested_revision q"
    using assms by (simp add: identity_queue_wf_def list_all_iff)
  then have "\<forall>q \<in> set ?t. 0 \<le> r_completed_revision q \<and> r_completed_revision q \<le> r_requested_revision q"
    using fold_request_identity by blast
  then show ?thesis by (simp add: identity_queue_wf_def queueGuestIdentityRevocations_def list_all_iff)
qed

lemma queue_identities_pending:
  assumes "identity_queue_wf d"
    and "(b \<in> set (guest_identity_bindings d) \<and> p b) \<or>
         identity_pending d (b_desktop_vmid b) (b_user_id b) (b_guest_username b)"
  shows "identity_pending (queueGuestIdentityRevocations now p reason d) (b_desktop_vmid b) (b_user_id b) (b_guest_username b)"
proof -
  let ?t = "guest_identity_revocations d"
  have wf: "\<forall>q \<in> set ?t. 0 \<le> r_completed_revision q \<and> r_completed_revision q \<le> r_requested_revision q"
    using assms(1) by (simp add: identity_queue_wf_def list_all_iff)
  have "b \<in> set (filter p (guest_identity_bindings d)) \<or>
      (\<exists>q \<in> set ?t. revocation_of b q \<and> r_completed_revision q < r_requested_revision q)"
    using assms(2) by (auto simp: identity_pending_def list_ex_iff revocation_of_def)
  then have "\<exists>q \<in> set (fold (request_identity now reason) (filter p (guest_identity_bindings d)) ?t).
      revocation_of b q \<and> r_completed_revision q < r_requested_revision q"
    using fold_request_identity [OF wf] by blast
  then show ?thesis
    by (auto simp: identity_pending_def list_ex_iff revocation_of_def queueGuestIdentityRevocations_def)
qed

lemma closes_revoked:
  "closes (\<lambda>l. l_state l = LeaseActive \<and> q l) (close_lease_as LeaseRevoked now)"
  by (rule closes_close_lease_as) simp_all

text \<open>The database before the leases are closed.\<close>

definition access_swept :: "time \<Rightarrow> db \<Rightarrow> db" where
  "access_swept now d =
     (let d1 = queueGuestIdentityRevocations now (\<lambda>b. b_state b \<noteq> BindDisabled \<and>
                 \<not> effective_user_desktop_access d (b_user_id b) (b_desktop_vmid b)) AccessRemoved d
      in d1\<lparr>desktop_connection_sessions := upd_where (\<lambda>c. conn_open c \<and>
                 \<not> effective_user_desktop_access d1 (c_user_id c) (c_desktop_vmid c))
                 (revoking_connection now) (desktop_connection_sessions d1)\<rparr>)"

lemma commitAccessChange_swept:
  "commitAccessChange now d =
     bindE (update_leases now (\<lambda>l. l_state l = LeaseActive \<and> \<not> lease_permitted (access_swept now d) l)
              (close_lease_as LeaseRevoked now) (access_swept now d)) (\<lambda>(_, d3). Inr d3)"
  by (simp add: commitAccessChange_def access_swept_def Let_def)

lemma access_swept_frame:
  "\<exists>bs qs cs. access_swept now d =
     d\<lparr>guest_identity_bindings := bs, guest_identity_revocations := qs, desktop_connection_sessions := cs\<rparr>"
  by (auto simp: access_swept_def Let_def queueGuestIdentityRevocations_def)

lemma access_swept_grants: "same_grants d (access_swept now d)"
  by (simp add: same_grants_def access_swept_def Let_def queueGuestIdentityRevocations_def)

lemma access_swept_fenced: "fenced d \<Longrightarrow> fenced (access_swept now d)"
  by (rule fenced_frame) (auto simp: access_swept_def Let_def queueGuestIdentityRevocations_def)

lemma closed_as_grants: "closed_as now p f d d' \<Longrightarrow> same_grants d d'"
  by (auto simp: closed_as_def Let_def same_grants_def)

text \<open>Under the fencing invariant the commit succeeds; what it changes is listed.\<close>

lemma commitAccessChange_Inr:
  assumes "fenced d"
  obtains d' where "commitAccessChange now d = Inr d'" "fenced d'"
    "closed_as now (\<lambda>l. l_state l = LeaseActive \<and> \<not> lease_permitted d l) (close_lease_as LeaseRevoked now)
       (access_swept now d) d'"
    "same_grants d d'"
proof -
  let ?d = "access_swept now d"
  let ?p = "\<lambda>l. l_state l = LeaseActive \<and> \<not> lease_permitted d l"
  have p: "lease_permitted ?d = lease_permitted d" by (rule same_grants_agents [OF access_swept_grants])
  have f: "fenced ?d" by (rule access_swept_fenced [OF assms])
  obtain d' where d': "update_leases now ?p (close_lease_as LeaseRevoked now) ?d =
      Inr (map (closed_row ?d (close_lease_as LeaseRevoked now)) (filter ?p (desktop_leases ?d)), d')"
    using close_leases_ok [OF closes_revoked [of "\<lambda>l. \<not> lease_permitted d l" now], of ?d now] f
    unfolding fenced_def by blast
  note u = update_leases_fenced [OF closes_revoked f d']
  have "same_grants d d'"
    using access_swept_grants [of d now] closed_as_grants [OF u(2)] by (simp add: same_grants_def)
  with u d' that show thesis by (simp add: commitAccessChange_swept p)
qed

lemma access_swept_rows:
  "guest_identity_bindings (access_swept now d) =
     upd_where (\<lambda>b. b_state b \<noteq> BindDisabled \<and> \<not> effective_user_desktop_access d (b_user_id b) (b_desktop_vmid b))
       (disable_binding now) (guest_identity_bindings d)"
  "desktop_connection_sessions (access_swept now d) =
     upd_where (\<lambda>c. conn_open c \<and> \<not> effective_user_desktop_access d (c_user_id c) (c_desktop_vmid c))
       (revoking_connection now) (desktop_connection_sessions d)"
  "desktop_leases (access_swept now d) = desktop_leases d"
proof -
  have "same_grants d (queueGuestIdentityRevocations now p r d)" for p r
    by (simp add: same_grants_def queueGuestIdentityRevocations_def)
  note g = same_grants_access [OF this]
  show "desktop_connection_sessions (access_swept now d) =
     upd_where (\<lambda>c. conn_open c \<and> \<not> effective_user_desktop_access d (c_user_id c) (c_desktop_vmid c))
       (revoking_connection now) (desktop_connection_sessions d)"
    by (simp add: access_swept_def Let_def g) (simp add: queueGuestIdentityRevocations_def)
qed (simp_all add: access_swept_def Let_def queueGuestIdentityRevocations_def)

lemma closed_as_rows:
  assumes "closed_as now p f d d'"
  shows "guest_identity_bindings d' = guest_identity_bindings d"
    "desktop_connection_sessions d' = desktop_connection_sessions d"
    "guest_identity_revocations d' = guest_identity_revocations d"
    "desktop_leases d' = upd_where p (closed_row d f) (desktop_leases d)"
    "native_guest_accounts d' = native_guest_accounts d"
    "native_sessions d' = native_sessions d" "web_sessions d' = web_sessions d"
    "native_auth_codes d' = native_auth_codes d"
  using assms by (auto simp: closed_as_def Let_def)

lemma commitAccessChange_settled:
  assumes "fenced d" "commitAccessChange now d = Inr d'"
  shows "settled d'"
proof -
  obtain d0 where d0: "commitAccessChange now d = Inr d0"
    and c: "closed_as now (\<lambda>l. l_state l = LeaseActive \<and> \<not> lease_permitted d l) (close_lease_as LeaseRevoked now)
       (access_swept now d) d0" and "same_grants d d0"
    using commitAccessChange_Inr [OF assms(1)] by metis
  with assms(2) have eq: "d0 = d'" by simp
  have e: "effective_user_desktop_access d' = effective_user_desktop_access d" "lease_permitted d' = lease_permitted d"
    using \<open>same_grants d d0\<close> by (simp_all add: eq same_grants_access same_grants_agents)
  note rows = closed_as_rows [OF c [unfolded eq]] access_swept_rows [of now d]
  have "binding_settled d' b" if "b \<in> set (guest_identity_bindings d')" for b
    using that by (auto simp: rows in_upd_where binding_settled_def disable_binding_def e)
  moreover have "connection_settled d' r" if "r \<in> set (desktop_connection_sessions d')" for r
    using that by (auto simp: rows in_upd_where connection_settled_def revoking_connection_def e)
  moreover have "lease_settled d' l" if "l \<in> set (desktop_leases d')" for l
    using that closed_row_simps [OF closes_revoked]
    by (auto simp: rows in_upd_where lease_settled_def e)
  ultimately show ?thesis by (simp add: settled_def list_all_iff)
qed

lemma commitAccessChange_closed:
  assumes "fenced d" "commitAccessChange now d = Inr d'"
  shows "closed_as now (\<lambda>l. l_state l = LeaseActive \<and> \<not> lease_permitted d l) (close_lease_as LeaseRevoked now)
           (access_swept now d) d'"
  using commitAccessChange_Inr [OF assms(1), of now] assms(2) by (metis sum.inject(2))

text \<open>The tables a commit may change, and how it changes bindings and connections.\<close>

lemma commitAccessChange_frame:
  assumes "fenced d" "commitAccessChange now d = Inr d'"
  shows "\<exists>bs qs cs ls es crs ss. d' = d\<lparr>guest_identity_bindings := bs, guest_identity_revocations := qs,
           desktop_connection_sessions := cs, desktop_leases := ls, desktop_computer_epochs := es,
           desktop_computer_revocations := crs, agent_guest_sessions := ss\<rparr>"
proof -
  obtain bs qs cs where s: "access_swept now d =
      d\<lparr>guest_identity_bindings := bs, guest_identity_revocations := qs, desktop_connection_sessions := cs\<rparr>"
    using access_swept_frame by blast
  have "\<exists>ls es crs ss. d' = (access_swept now d)\<lparr>desktop_leases := ls, desktop_computer_epochs := es,
           desktop_computer_revocations := crs, agent_guest_sessions := ss\<rparr>"
    using commitAccessChange_closed [OF assms] unfolding closed_as_def Let_def by blast
  then obtain ls es crs ss where "d' = (access_swept now d)\<lparr>desktop_leases := ls, desktop_computer_epochs := es,
           desktop_computer_revocations := crs, agent_guest_sessions := ss\<rparr>" by blast
  then show ?thesis unfolding s by blast
qed

lemma commitAccessChange_rows:
  assumes "fenced d" "commitAccessChange now d = Inr d'"
  shows "guest_identity_bindings d' =
     upd_where (\<lambda>b. b_state b \<noteq> BindDisabled \<and> \<not> effective_user_desktop_access d (b_user_id b) (b_desktop_vmid b))
       (disable_binding now) (guest_identity_bindings d)"
    "desktop_connection_sessions d' =
     upd_where (\<lambda>c. conn_open c \<and> \<not> effective_user_desktop_access d (c_user_id c) (c_desktop_vmid c))
       (revoking_connection now) (desktop_connection_sessions d)"
    "guest_identity_revocations d' = guest_identity_revocations (access_swept now d)"
  using closed_as_rows [OF commitAccessChange_closed [OF assms]] access_swept_rows by metis+

lemma commitAccessChange_pending:
  assumes "fenced d" "commitAccessChange now d = Inr d'" "identity_queue_wf d"
  shows "identity_queue_wf d'"
    and "(b \<in> set (guest_identity_bindings d) \<and> b_state b \<noteq> BindDisabled \<and>
            \<not> effective_user_desktop_access d (b_user_id b) (b_desktop_vmid b)) \<or>
         identity_pending d (b_desktop_vmid b) (b_user_id b) (b_guest_username b) \<Longrightarrow>
         identity_pending d' (b_desktop_vmid b) (b_user_id b) (b_guest_username b)"
proof -
  let ?q = "queueGuestIdentityRevocations now (\<lambda>b. b_state b \<noteq> BindDisabled \<and>
                 \<not> effective_user_desktop_access d (b_user_id b) (b_desktop_vmid b)) AccessRemoved d"
  have q: "guest_identity_revocations d' = guest_identity_revocations ?q"
    unfolding commitAccessChange_rows(3) [OF assms(1,2)] by (simp add: access_swept_def Let_def)
  show "identity_queue_wf d'" using queue_identities_wf [OF assms(3)] by (simp add: identity_queue_wf_def q)
  assume h: "(b \<in> set (guest_identity_bindings d) \<and> b_state b \<noteq> BindDisabled \<and>
            \<not> effective_user_desktop_access d (b_user_id b) (b_desktop_vmid b)) \<or>
         identity_pending d (b_desktop_vmid b) (b_user_id b) (b_guest_username b)"
  have "identity_pending ?q (b_desktop_vmid b) (b_user_id b) (b_guest_username b)"
    by (rule queue_identities_pending [OF assms(3)]) (use h in simp)
  then show "identity_pending d' (b_desktop_vmid b) (b_user_id b) (b_guest_username b)"
    by (simp add: identity_pending_def q)
qed

text \<open>An authorization change keeps the fencing invariant and leaves the database settled.\<close>

lemma access_tx_Inr:
  "access_tx now body d = Inr (x, d') \<longleftrightarrow> (\<exists>d1. body d = Inr (x, d1) \<and> commitAccessChange now d1 = Inr d')"
  by (auto simp: access_tx_def bindE_eq_Inr)

lemma access_tx_fenced:
  assumes "\<And>y d1. body d = Inr (y, d1) \<Longrightarrow> fenced d1" "access_tx now body d = Inr (x, d')"
  shows "fenced d'" "settled d'"
proof -
  from assms(2) obtain d1 where b: "body d = Inr (x, d1)" and c: "commitAccessChange now d1 = Inr d'"
    by (auto simp: access_tx_Inr)
  have f: "fenced d1" by (rule assms(1) [OF b])
  show "fenced d'" using commitAccessChange_Inr [OF f, of now] c by (metis sum.inject(2))
  show "settled d'" by (rule commitAccessChange_settled [OF f c])
qed

lemma run_access_fenced:
  assumes "fenced d" "\<And>y d1. body d = Inr (y, d1) \<Longrightarrow> fenced d1"
  shows "fenced (fst (run_tx fault (access_tx now body) d))"
  by (rule run_tx_preserves [where P = fenced, OF assms(1)]) (rule access_tx_fenced(1) [OF assms(2)])

lemma run_access_settled:
  assumes "\<And>y d1. body d = Inr (y, d1) \<Longrightarrow> fenced d1" "run_tx fault (access_tx now body) d = (d', Inr x)"
  shows "settled d'"
proof -
  have "access_tx now body d = Inr (x, d')" using assms(2) by (simp add: run_tx_eq_Inr)
  then show ?thesis using access_tx_fenced(2) [of body d] assms(1) by metis
qed

text \<open>The change itself succeeds when its body does.\<close>

lemma access_tx_succeeds:
  assumes "body d = Inr (x, d1)" "fenced d1"
  shows "\<exists>d'. access_tx now body d = Inr (x, d') \<and> commitAccessChange now d1 = Inr d' \<and> same_grants d1 d'"
  using commitAccessChange_Inr [OF assms(2), of now] assms(1) by (metis access_tx_Inr)

end
