(* ===== verification/Go_Text.thy ===== *)
theory Go_Text
  imports Go_Strings
begin

text \<open>
  UTF-8 as the language decodes it: the length of the first rune (a byte that starts no valid sequence
  is a rune of its own), \<open>len([]rune(s))\<close>, and validity.  SQL's \<open>length\<close> of a text column counts the same
  runes.  Orders for \<open>ORDER BY\<close> lists and byte-wise comparison of strings.
\<close>

section \<open>Runes\<close>

definition cont_in :: "nat \<Rightarrow> nat \<Rightarrow> string \<Rightarrow> nat \<Rightarrow> bool" where
  "cont_in lo hi s i \<longleftrightarrow> i < length s \<and> lo \<le> byte_of (s ! i) \<and> byte_of (s ! i) \<le> hi"

text \<open>The length of the valid encoding at the start of a string, if there is one.\<close>

definition utf8_prefix :: "string \<Rightarrow> nat option" where
  "utf8_prefix s =
     (case s of [] \<Rightarrow> None
      | c # _ \<Rightarrow> let b = byte_of c; tail = cont_in 128 191 s in
          if b < 128 then Some 1
          else if 194 \<le> b \<and> b \<le> 223 \<and> tail 1 then Some 2
          else if b = 224 \<and> cont_in 160 191 s 1 \<and> tail 2 then Some 3
          else if b = 237 \<and> cont_in 128 159 s 1 \<and> tail 2 then Some 3
          else if 225 \<le> b \<and> b \<le> 239 \<and> b \<noteq> 237 \<and> tail 1 \<and> tail 2 then Some 3
          else if b = 240 \<and> cont_in 144 191 s 1 \<and> tail 2 \<and> tail 3 then Some 4
          else if 241 \<le> b \<and> b \<le> 243 \<and> tail 1 \<and> tail 2 \<and> tail 3 then Some 4
          else if b = 244 \<and> cont_in 128 143 s 1 \<and> tail 2 \<and> tail 3 then Some 4
          else None)"

definition rune_len :: "string \<Rightarrow> nat" where
  "rune_len s = (case utf8_prefix s of None \<Rightarrow> 1 | Some n \<Rightarrow> n)"

lemma utf8_prefix_le: "utf8_prefix s = Some n \<Longrightarrow> 0 < n \<and> n \<le> length s"
  by (auto simp: utf8_prefix_def Let_def cont_in_def Suc_le_eq split: list.splits if_splits)

lemma rune_len_pos [simp]: "0 < rune_len s"
  by (auto simp: rune_len_def split: option.splits dest: utf8_prefix_le)

function runes :: "string \<Rightarrow> string list" where
  "runes [] = []"
| "runes (c # s) = take (rune_len (c # s)) (c # s) # runes (drop (rune_len (c # s)) (c # s))"
  by pat_completeness auto
termination
  by (relation "measure length") (use rune_len_pos in auto)

definition rune_count :: "string \<Rightarrow> nat" where
  "rune_count s = length (runes s)"

definition utf8_valid :: "string \<Rightarrow> bool" where
  "utf8_valid s \<longleftrightarrow> list_all (\<lambda>r. utf8_prefix r = Some (length r)) (runes s)"

lemma concat_runes [simp]: "concat (runes s) = s"
proof (induction s rule: runes.induct)
  case (2 c s)
  then show ?case by (simp only: runes.simps concat.simps append_take_drop_id)
qed simp

lemma runes_not_Nil: "r \<in> set (runes s) \<Longrightarrow> r \<noteq> []"
proof (induction s rule: runes.induct)
  case (2 c s)
  have "take (rune_len (c # s)) (c # s) \<noteq> []" using rune_len_pos [of "c # s"] by (simp add: take_eq_Nil)
  with 2 show ?case by (auto simp only: runes.simps list.set)
qed simp

lemma rune_count_le: "rune_count s \<le> length s"
proof -
  have "length xs \<le> length (concat xs)" if "\<forall>x \<in> set xs. x \<noteq> []" for xs :: "string list"
    using that
  proof (induction xs)
    case (Cons x xs)
    then have "Suc 0 \<le> length x" "length xs \<le> length (concat xs)" by (auto simp: Suc_le_eq)
    then have "Suc 0 + length xs \<le> length x + length (concat xs)" by (rule add_mono)
    then show ?case by simp
  qed simp
  from this [of "runes s"] show ?thesis using runes_not_Nil by (auto simp: rune_count_def)
qed

lemma rune_count_0 [simp]: "rune_count s = 0 \<longleftrightarrow> s = []"
  by (cases s) (simp_all add: rune_count_def)

lemma rune_len_ascii: "byte_of c < 128 \<Longrightarrow> rune_len (c # s) = 1"
  by (simp add: rune_len_def utf8_prefix_def)

lemma rune_count_ascii: "is_ascii s \<Longrightarrow> rune_count s = length s"
proof (induction s)
  case (Cons c s)
  then have "rune_len (c # s) = 1" "rune_count s = length s" 
    using rune_len_ascii [of c s] by (auto simp: is_ascii_def)
  then show ?case by (simp add: rune_count_def)
qed simp

section \<open>Orders\<close>

text \<open>A sort key, and a list of sort keys: the second decides where the first is equal.\<close>

definition by_key :: "('k \<Rightarrow> 'k \<Rightarrow> bool) \<Rightarrow> ('r \<Rightarrow> 'k) \<Rightarrow> 'r \<Rightarrow> 'r \<Rightarrow> bool" where
  "by_key le key a b = le (key a) (key b)"

definition desc_key :: "('r \<Rightarrow> int) \<Rightarrow> 'r \<Rightarrow> 'r \<Rightarrow> bool" where
  "desc_key key a b = (key b \<le> key a)"

definition then_by :: "('r \<Rightarrow> 'r \<Rightarrow> bool) \<Rightarrow> ('r \<Rightarrow> 'r \<Rightarrow> bool) \<Rightarrow> 'r \<Rightarrow> 'r \<Rightarrow> bool" where
  "then_by le1 le2 a b \<longleftrightarrow> le1 a b \<and> (\<not> le1 b a \<or> le2 a b)"

definition total_preorder :: "('r \<Rightarrow> 'r \<Rightarrow> bool) \<Rightarrow> bool" where
  "total_preorder le \<longleftrightarrow> (\<forall>a b. le a b \<or> le b a) \<and> (\<forall>a b c. le a b \<longrightarrow> le b c \<longrightarrow> le a c)"

lemma total_preorder_by_key: "total_preorder le \<Longrightarrow> total_preorder (by_key le key)"
  unfolding total_preorder_def by_key_def by blast

lemma total_preorder_desc_key: "total_preorder (desc_key key)"
  unfolding total_preorder_def desc_key_def by auto

lemma total_preorder_int: "total_preorder ((\<le>) :: int \<Rightarrow> int \<Rightarrow> bool)"
  unfolding total_preorder_def by auto

lemma total_preorder_then_by: "total_preorder a \<Longrightarrow> total_preorder b \<Longrightarrow> total_preorder (then_by a b)"
  unfolding total_preorder_def then_by_def by blast

lemma sorted_order_by: "total_preorder le \<Longrightarrow> sorted_wrt le (order_by le xs)"
  unfolding total_preorder_def by (rule sorted_wrt_order_by) blast+

end
