(* ===== verification/Accounts.thy ===== *)
theory Accounts
  imports Access_Control Go_Text
begin

text \<open>
  Users and their credentials (\<open>store.go\<close>, \<open>session_issuance.go\<close> and \<open>RevokeNativeSession\<close> of
  \<open>guest_revocation.go\<close>): local accounts, web and Native sessions, API tokens, OIDC requests and the
  resolution of external identities.  \<open>now\<close> is the \<open>now()\<close> of the statement, \<open>clock\<close> the \<open>time.Now()\<close> of the
  Go process, \<open>ulower\<close> the lower-casing of strings with characters beyond ASCII, \<open>coll\<close> the collation of
  the database and \<open>sql_lower\<close> its \<open>lower\<close>.
\<close>

section \<open>Users\<close>

datatype identity_kind = KindLocal | KindOidc

record UserAccount =
  ua_id :: string
  ua_username :: string
  ua_display_name :: string
  ua_role :: user_role
  ua_disabled :: bool
  ua_identity_kind :: identity_kind
  ua_created_at :: time

text \<open>\<open>COALESCE(password_hash,'')\<close>, and \<open>NULLIF(x,'')\<close>.\<close>

definition coalesce :: "string option \<Rightarrow> string" where
  "coalesce x = (case x of None \<Rightarrow> [] | Some s \<Rightarrow> s)"

definition nullif :: "string \<Rightarrow> string option" where
  "nullif s = (if s = [] then None else Some s)"

definition user_account :: "User \<Rightarrow> UserAccount" where
  "user_account u =
     \<lparr>ua_id = u_id u, ua_username = u_username u, ua_display_name = u_display_name u, ua_role = u_role u,
      ua_disabled = u_disabled u,
      ua_identity_kind = (if u_password_hash u \<noteq> None then KindLocal else KindOidc),
      ua_created_at = u_created_at u\<rparr>"

text \<open>The \<open>User\<close> a query scans: the hash is never NULL in Go.\<close>

definition scan_user :: "User \<Rightarrow> User" where
  "scan_user u = u\<lparr>u_password_hash := Some (coalesce (u_password_hash u))\<rparr>"

text \<open>\<open>INSERT INTO users\<close> under the primary key and the unique normalized name.\<close>

definition insert_user :: "User \<Rightarrow> db \<Rightarrow> err + db" where
  "insert_user row d =
     bindE (guardE (SqlErr UniqueViolation)
              (\<not> list_ex (\<lambda>u. u_id u = u_id row \<or> u_username_normalized u = u_username_normalized row) (users d)))
       (\<lambda>_. Inr (d\<lparr>users := users d @ [row]\<rparr>))"

definition new_user ::
  "(string \<Rightarrow> string) \<Rightarrow> time \<Rightarrow> string \<Rightarrow> string \<Rightarrow> string \<Rightarrow> string option \<Rightarrow> user_role \<Rightarrow> User" where
  "new_user ulower now uid username display_name hash role =
     \<lparr>u_id = uid, u_username = username, u_username_normalized = ToLower ulower username,
      u_display_name = display_name, u_password_hash = hash, u_role = role, u_disabled = False,
      u_created_at = now, u_updated_at = now\<rparr>"

definition IsInitialized :: "tx_fault \<Rightarrow> db \<Rightarrow> err + bool" where
  "IsInitialized fault d = run_query fault (\<lambda>d. Inr (users d \<noteq> [])) d"

definition CreateInitialAdmin ::
  "(string \<Rightarrow> string) \<Rightarrow> tx_fault \<Rightarrow> time \<Rightarrow> User \<Rightarrow> db \<Rightarrow> db \<times> (err + unit)" where
  "CreateInitialAdmin ulower fault now user d =
     run_tx fault (\<lambda>d.
       bindE (guardE ErrAlreadyInitialized (users d = [])) (\<lambda>_.
       bindE (insert_user (new_user ulower now (u_id user) (u_username user) (u_display_name user)
                (Some (coalesce (u_password_hash user))) PlatformAdmin) d) (\<lambda>d1. Inr ((), d1)))) d"

definition UserByUsername :: "(string \<Rightarrow> string) \<Rightarrow> tx_fault \<Rightarrow> string \<Rightarrow> db \<Rightarrow> err + User" where
  "UserByUsername ulower fault username d =
     run_query fault (\<lambda>d.
       bindE (query_row ErrNotFound (\<lambda>u. u_username_normalized u = ToLower ulower username) (users d))
         (\<lambda>u. Inr (scan_user u))) d"

definition Users ::
  "(string \<Rightarrow> string \<Rightarrow> bool) \<Rightarrow> (string \<Rightarrow> string) \<Rightarrow> tx_fault \<Rightarrow> db \<Rightarrow> err + UserAccount list" where
  "Users coll sql_lower fault d =
     run_query fault (\<lambda>d. Inr (map user_account (order_by
       (then_by (by_key coll (\<lambda>u. sql_lower (u_display_name u)))
         (then_by (by_key coll (\<lambda>u. sql_lower (u_username u))) (by_key coll u_id))) (users d)))) d"

definition unique_conflict :: "err \<Rightarrow> err" where
  "unique_conflict e = (if e = SqlErr UniqueViolation then ErrConflict else e)"

text \<open>The account it returns carries the creation time of the Go process, not the row's.\<close>

definition CreateLocalUser ::
  "(string \<Rightarrow> string) \<Rightarrow> tx_fault \<Rightarrow> time \<Rightarrow> time \<Rightarrow> User \<Rightarrow> db \<Rightarrow> db \<times> (err + UserAccount)" where
  "CreateLocalUser ulower fault now clock user d =
     (let (d', r) = run_tx fault (\<lambda>d.
            bindE (insert_user (new_user ulower now (u_id user) (u_username user) (u_display_name user)
                     (Some (coalesce (u_password_hash user))) RoleUser) d) (\<lambda>d1. Inr ((), d1))) d
      in (d', bindE (mapErr unique_conflict r) (\<lambda>_. Inr
           \<lparr>ua_id = u_id user, ua_username = u_username user, ua_display_name = u_display_name user,
            ua_role = RoleUser, ua_disabled = False, ua_identity_kind = KindLocal, ua_created_at = clock\<rparr>)))"

text \<open>\<open>UPDATE users ... RETURNING\<close>: the primary key makes it one row.\<close>

definition update_user ::
  "err \<Rightarrow> (User \<Rightarrow> bool) \<Rightarrow> (User \<Rightarrow> User) \<Rightarrow> db \<Rightarrow> err + (User \<times> db)" where
  "update_user e p f d =
     bindE (query_row e p (users d)) (\<lambda>u. Inr (f u, d\<lparr>users := upd_where p f (users d)\<rparr>))"

definition delete_user_sessions :: "string \<Rightarrow> (WebSession \<Rightarrow> bool) \<Rightarrow> db \<Rightarrow> db" where
  "delete_user_sessions uid keep d =
     d\<lparr>web_sessions := del_where (\<lambda>w. ws_user_id w = uid \<and> \<not> keep w) (web_sessions d),
       native_sessions := del_where (\<lambda>n. ns_user_id n = uid) (native_sessions d),
       native_auth_codes := del_where (\<lambda>c. nc_user_id c = uid) (native_auth_codes d)\<rparr>"

definition disable_user_tx :: "time \<Rightarrow> string \<Rightarrow> bool \<Rightarrow> db \<Rightarrow> err + (UserAccount \<times> db)" where
  "disable_user_tx now uid disabled d =
     bindE (update_user ErrNotFound (\<lambda>u. u_id u = uid) (\<lambda>u. u\<lparr>u_disabled := disabled, u_updated_at := now\<rparr>) d)
       (\<lambda>(u, d1). Inr (user_account u,
          if disabled
          then (delete_user_sessions uid (\<lambda>_. False) d1)
                 \<lparr>desktop_connection_sessions :=
                    upd_where (\<lambda>c. c_user_id c = uid \<and> c_state c = ConnActive) (revoking_connection now)
                      (desktop_connection_sessions d1)\<rparr>
          else d1))"

definition SetUserDisabled ::
  "tx_fault \<Rightarrow> time \<Rightarrow> string \<Rightarrow> bool \<Rightarrow> db \<Rightarrow> db \<times> (err + UserAccount)" where
  "SetUserDisabled fault now uid disabled d =
     run_tx fault (access_tx now (disable_user_tx now uid disabled)) d"

definition revoke_user_access :: "time \<Rightarrow> string \<Rightarrow> db \<Rightarrow> db" where
  "revoke_user_access now uid d =
     queueGuestIdentityRevocations now (\<lambda>b. b_user_id b = uid) CredentialRevoked
       (d\<lparr>desktop_connection_sessions :=
            upd_where (\<lambda>c. c_user_id c = uid \<and> conn_open c) (revoking_connection now)
              (desktop_connection_sessions d)\<rparr>)"

definition password_tx :: "time \<Rightarrow> string \<Rightarrow> string \<Rightarrow> string \<Rightarrow> db \<Rightarrow> err + (UserAccount \<times> db)" where
  "password_tx now uid hash retained d =
     bindE (update_user (if list_ex (\<lambda>u. u_id u = uid) (users d) then ErrConflict else ErrNotFound)
              (\<lambda>u. u_id u = uid \<and> u_password_hash u \<noteq> None)
              (\<lambda>u. u\<lparr>u_password_hash := Some hash, u_updated_at := now\<rparr>) d)
       (\<lambda>(u, d1). Inr (user_account u,
          revoke_user_access now uid
            (delete_user_sessions uid (\<lambda>w. retained \<noteq> [] \<and> ws_token_digest w = retained) d1)))"

definition SetUserPassword ::
  "tx_fault \<Rightarrow> time \<Rightarrow> string \<Rightarrow> string \<Rightarrow> string \<Rightarrow> db \<Rightarrow> db \<times> (err + UserAccount)" where
  "SetUserPassword fault now uid hash retained d =
     (if TrimSpace uid = [] \<or> TrimSpace hash = [] then (d, Inl (ErrMsg ''user password update is invalid''))
      else run_tx fault (access_tx now (password_tx now uid hash retained)) d)"

section \<open>Sessions\<close>

text \<open>
  Inserts under a primary key and a reference to \<open>users\<close>.  Only the first violation is reported; the
  unique key is checked when the row is written, the reference at the end of the statement.
\<close>

definition insert_web_session :: "time \<Rightarrow> string \<Rightarrow> string \<Rightarrow> string \<Rightarrow> time \<Rightarrow> db \<Rightarrow> err + (unit \<times> db)" where
  "insert_web_session now digest uid csrf expires d =
     bindE (guardE (SqlErr UniqueViolation) (\<not> list_ex (\<lambda>w. ws_token_digest w = digest) (web_sessions d))) (\<lambda>_.
     bindE (guardE (SqlErr ForeignKeyViolation) (list_ex (\<lambda>u. u_id u = uid) (users d))) (\<lambda>_.
       Inr ((), d\<lparr>web_sessions := web_sessions d @
         [\<lparr>ws_token_digest = digest, ws_user_id = uid, ws_csrf_token = csrf, ws_expires_at = expires,
           ws_created_at = now, ws_last_seen_at = now\<rparr>]\<rparr>)))"

definition insert_native_session :: "time \<Rightarrow> string \<Rightarrow> string \<Rightarrow> time \<Rightarrow> db \<Rightarrow> err + (unit \<times> db)" where
  "insert_native_session now digest uid expires d =
     bindE (guardE (SqlErr UniqueViolation) (\<not> list_ex (\<lambda>n. ns_token_digest n = digest) (native_sessions d))) (\<lambda>_.
     bindE (guardE (SqlErr ForeignKeyViolation) (list_ex (\<lambda>u. u_id u = uid) (users d))) (\<lambda>_.
       Inr ((), d\<lparr>native_sessions := native_sessions d @
         [\<lparr>ns_token_digest = digest, ns_user_id = uid, ns_expires_at = expires,
           ns_created_at = now, ns_last_seen_at = now\<rparr>]\<rparr>)))"

definition CreateSession ::
  "tx_fault \<Rightarrow> time \<Rightarrow> string \<Rightarrow> string \<Rightarrow> string \<Rightarrow> time \<Rightarrow> db \<Rightarrow> db \<times> (err + unit)" where
  "CreateSession fault now digest uid csrf expires d = run_tx fault (insert_web_session now digest uid csrf expires) d"

definition CreateNativeSession ::
  "tx_fault \<Rightarrow> time \<Rightarrow> string \<Rightarrow> string \<Rightarrow> time \<Rightarrow> db \<Rightarrow> db \<times> (err + unit)" where
  "CreateNativeSession fault now digest uid expires d = run_tx fault (insert_native_session now digest uid expires) d"

text \<open>
  \<open>createVerifiedLoginSession\<close>: the user row the password was verified against must still be current
  when the session is written.
\<close>

definition verified_login_tx ::
  "time \<Rightarrow> time \<Rightarrow> string \<Rightarrow> User \<Rightarrow> string \<Rightarrow> time \<Rightarrow> bool \<Rightarrow> db \<Rightarrow> err + (unit \<times> db)" where
  "verified_login_tx now clock digest user csrf expires native d =
     (let current = list_ex (\<lambda>u. u_id u = u_id user \<and> \<not> u_disabled u \<and>
                       coalesce (u_password_hash u) = coalesce (u_password_hash user)) (users d)
      in bindE (guardE ErrNotFound (current \<and> clock < expires)) (\<lambda>_.
           if native then insert_native_session now digest (u_id user) expires d
           else insert_web_session now digest (u_id user) csrf expires d))"

definition createVerifiedLoginSession ::
  "tx_fault \<Rightarrow> time \<Rightarrow> time \<Rightarrow> string \<Rightarrow> User \<Rightarrow> string \<Rightarrow> time \<Rightarrow> bool \<Rightarrow> db \<Rightarrow> db \<times> (err + unit)" where
  "createVerifiedLoginSession fault now clock digest user csrf expires native d =
     run_tx fault (verified_login_tx now clock digest user csrf expires native) d"

definition CreateSessionForVerifiedUser ::
  "tx_fault \<Rightarrow> time \<Rightarrow> time \<Rightarrow> string \<Rightarrow> User \<Rightarrow> string \<Rightarrow> time \<Rightarrow> db \<Rightarrow> db \<times> (err + unit)" where
  "CreateSessionForVerifiedUser fault now clock digest user csrf expires d =
     createVerifiedLoginSession fault now clock digest user csrf expires False d"

definition CreateNativeSessionForVerifiedUser ::
  "tx_fault \<Rightarrow> time \<Rightarrow> time \<Rightarrow> string \<Rightarrow> User \<Rightarrow> time \<Rightarrow> db \<Rightarrow> db \<times> (err + unit)" where
  "CreateNativeSessionForVerifiedUser fault now clock digest user expires d =
     createVerifiedLoginSession fault now clock digest user [] expires True d"

datatype auth_kind = AuthWeb | AuthApiToken

record Session =
  se_user :: User
  se_csrf_token :: string
  se_expires_at :: time
  se_auth_kind :: auth_kind
  se_credential_id :: string

text \<open>
  \<open>SessionByToken\<close>: the lookup, then the update of \<open>last_seen_at\<close> whose outcome is ignored; \<open>fault2\<close> is
  the driver's behaviour on that second statement.
\<close>

definition live_user :: "db \<Rightarrow> string \<Rightarrow> User option" where
  "live_user d uid = find (\<lambda>u. u_id u = uid \<and> \<not> u_disabled u) (users d)"

definition SessionByToken ::
  "tx_fault \<Rightarrow> tx_fault \<Rightarrow> time \<Rightarrow> string \<Rightarrow> db \<Rightarrow> db \<times> (err + Session)" where
  "SessionByToken fault fault2 now digest d =
     (case run_query fault (\<lambda>d.
             bindE (query_row ErrNotFound (\<lambda>w. ws_token_digest w = digest \<and> now < ws_expires_at w \<and>
                      live_user d (ws_user_id w) \<noteq> None) (web_sessions d)) (\<lambda>w. Inr (w, live_user d (ws_user_id w)))) d of
        Inl e \<Rightarrow> (d, Inl e)
      | Inr (w, u) \<Rightarrow>
          (fst (run_tx fault2 (\<lambda>d. Inr ((), d\<lparr>web_sessions := upd_where (\<lambda>w. ws_token_digest w = digest)
                  (\<lambda>w. w\<lparr>ws_last_seen_at := now\<rparr>) (web_sessions d)\<rparr>)) d),
           Inr \<lparr>se_user = scan_user (the u), se_csrf_token = ws_csrf_token w, se_expires_at = ws_expires_at w,
                se_auth_kind = AuthWeb, se_credential_id = []\<rparr>))"

definition NativeSessionByToken ::
  "tx_fault \<Rightarrow> tx_fault \<Rightarrow> time \<Rightarrow> string \<Rightarrow> db \<Rightarrow> db \<times> (err + User)" where
  "NativeSessionByToken fault fault2 now digest d =
     (case run_query fault (\<lambda>d.
             bindE (query_row ErrNotFound (\<lambda>n. ns_token_digest n = digest \<and> now < ns_expires_at n \<and>
                      live_user d (ns_user_id n) \<noteq> None) (native_sessions d)) (\<lambda>n. Inr (live_user d (ns_user_id n)))) d of
        Inl e \<Rightarrow> (d, Inl e)
      | Inr u \<Rightarrow>
          (fst (run_tx fault2 (\<lambda>d. Inr ((), d\<lparr>native_sessions := upd_where (\<lambda>n. ns_token_digest n = digest)
                  (\<lambda>n. n\<lparr>ns_last_seen_at := now\<rparr>) (native_sessions d)\<rparr>)) d),
           Inr (scan_user (the u))))"

definition DeleteSession :: "tx_fault \<Rightarrow> string \<Rightarrow> db \<Rightarrow> db \<times> (err + unit)" where
  "DeleteSession fault digest d =
     run_tx fault (\<lambda>d. Inr ((), d\<lparr>web_sessions := del_where (\<lambda>w. ws_token_digest w = digest) (web_sessions d)\<rparr>)) d"

text \<open>\<open>RevokeNativeSession\<close> (guest_revocation.go): logout.\<close>

definition revoke_native_tx :: "time \<Rightarrow> string \<Rightarrow> db \<Rightarrow> err + (unit \<times> db)" where
  "revoke_native_tx now digest d =
     (case find (\<lambda>n. ns_token_digest n = digest) (native_sessions d) of
        None \<Rightarrow> Inr ((), d)
      | Some n \<Rightarrow> Inr ((), revoke_user_access now (ns_user_id n)
          (d\<lparr>native_sessions := del_where (\<lambda>n. ns_token_digest n = digest) (native_sessions d)\<rparr>)))"

definition RevokeNativeSession :: "tx_fault \<Rightarrow> time \<Rightarrow> string \<Rightarrow> db \<Rightarrow> db \<times> (err + unit)" where
  "RevokeNativeSession fault now digest d = run_tx fault (revoke_native_tx now digest) d"

definition DeleteNativeSession :: "tx_fault \<Rightarrow> time \<Rightarrow> string \<Rightarrow> db \<Rightarrow> db \<times> (err + unit)" where
  "DeleteNativeSession fault now digest d = RevokeNativeSession fault now digest d"

section \<open>API tokens\<close>

definition APITokens ::
  "(string \<Rightarrow> string \<Rightarrow> bool) \<Rightarrow> tx_fault \<Rightarrow> string \<Rightarrow> db \<Rightarrow> err + APIToken list" where
  "APITokens coll fault uid d =
     run_query fault (\<lambda>d. Inr (order_by (then_by (desc_key at_created_at) (by_key coll at_id))
       (filter (\<lambda>t. at_user_id t = uid) (api_tokens d)))) d"

text \<open>The CHECK of the table bounds the name; \<open>length\<close> counts characters.\<close>

definition insert_api_token :: "time \<Rightarrow> string \<Rightarrow> APIToken \<Rightarrow> string \<Rightarrow> db \<Rightarrow> err + (APIToken \<times> db)" where
  "insert_api_token now uid token digest d =
     (let row = \<lparr>at_id = at_id token, at_user_id = uid, at_name = at_name token, at_token_digest = digest,
                 at_expires_at = at_expires_at token, at_created_at = now, at_last_used_at = None\<rparr>
      in bindE (guardE (SqlErr CheckViolation) (1 \<le> rune_count (at_name token) \<and> rune_count (at_name token) \<le> 80)) (\<lambda>_.
         bindE (guardE (SqlErr UniqueViolation)
                  (\<not> list_ex (\<lambda>t. at_id t = at_id token \<or> at_token_digest t = digest) (api_tokens d))) (\<lambda>_.
         bindE (guardE (SqlErr ForeignKeyViolation) (list_ex (\<lambda>u. u_id u = uid) (users d))) (\<lambda>_.
           Inr (row, d\<lparr>api_tokens := api_tokens d @ [row]\<rparr>)))))"

definition CreateAPIToken ::
  "tx_fault \<Rightarrow> time \<Rightarrow> string \<Rightarrow> APIToken \<Rightarrow> string \<Rightarrow> db \<Rightarrow> db \<times> (err + APIToken)" where
  "CreateAPIToken fault now uid token digest d =
     (let (d', r) = run_tx fault (insert_api_token now uid token digest) d in (d', mapErr unique_conflict r))"

definition DeleteAPIToken :: "tx_fault \<Rightarrow> string \<Rightarrow> string \<Rightarrow> db \<Rightarrow> db \<times> (err + bool)" where
  "DeleteAPIToken fault uid tid d =
     run_tx fault (\<lambda>d. let p = (\<lambda>t. at_id t = tid \<and> at_user_id t = uid) in
       Inr (length (filter p (api_tokens d)) = 1, d\<lparr>api_tokens := del_where p (api_tokens d)\<rparr>)) d"

text \<open>
  \<open>SessionByAPIToken\<close>: the use is recorded even when the user turns out to be disabled and the call
  answers \<open>ErrNotFound\<close>.
\<close>

definition api_session_tx :: "time \<Rightarrow> string \<Rightarrow> db \<Rightarrow> err + (Session option \<times> db)" where
  "api_session_tx now digest d =
     (let p = (\<lambda>t. at_token_digest t = digest \<and> now < at_expires_at t);
          d1 = d\<lparr>api_tokens := upd_where p (\<lambda>t. t\<lparr>at_last_used_at := Some now\<rparr>) (api_tokens d)\<rparr>
      in Inr (case find p (api_tokens d) of None \<Rightarrow> None
              | Some t \<Rightarrow> map_option (\<lambda>u. \<lparr>se_user = scan_user u, se_csrf_token = [], se_expires_at = at_expires_at t,
                    se_auth_kind = AuthApiToken, se_credential_id = at_id t\<rparr>) (live_user d (at_user_id t)), d1))"

definition SessionByAPIToken :: "tx_fault \<Rightarrow> time \<Rightarrow> string \<Rightarrow> db \<Rightarrow> db \<times> (err + Session)" where
  "SessionByAPIToken fault now digest d =
     then_check (run_tx fault (api_session_tx now digest) d)
       (\<lambda>x. case x of None \<Rightarrow> Inl ErrNotFound | Some s \<Rightarrow> Inr s)"

section \<open>OIDC\<close>

definition upsert_provider :: "string \<Rightarrow> string \<Rightarrow> string \<Rightarrow> string \<Rightarrow> db \<Rightarrow> err + (unit \<times> db)" where
  "upsert_provider pid name issuer client d =
     (let row = \<lparr>op_id = pid, op_name = name, op_issuer = issuer, op_client_id = client, op_enabled = True\<rparr>
      in bindE (guardE (SqlErr UniqueViolation)
                  (\<not> list_ex (\<lambda>p. op_id p \<noteq> pid \<and> op_issuer p = issuer) (oidc_providers d))) (\<lambda>_.
           Inr ((), d\<lparr>oidc_providers :=
             if list_ex (\<lambda>p. op_id p = pid) (oidc_providers d)
             then upd_where (\<lambda>p. op_id p = pid) (\<lambda>_. row) (oidc_providers d)
             else oidc_providers d @ [row]\<rparr>)))"

definition EnsureOIDCProvider ::
  "tx_fault \<Rightarrow> string \<Rightarrow> string \<Rightarrow> string \<Rightarrow> string \<Rightarrow> db \<Rightarrow> db \<times> (err + unit)" where
  "EnsureOIDCProvider fault pid name issuer client d = run_tx fault (upsert_provider pid name issuer client) d"

text \<open>
  \<open>CreateOIDCRequest\<close> and \<open>CreateNativeAuthCode\<close> first delete what has expired and ignore the outcome of
  that statement; \<open>fault1\<close> is the driver's behaviour on it.
\<close>

definition CreateOIDCRequest ::
  "tx_fault \<Rightarrow> tx_fault \<Rightarrow> time \<Rightarrow> string \<Rightarrow> string \<Rightarrow> string \<Rightarrow> string \<Rightarrow> time \<Rightarrow> db \<Rightarrow> db \<times> (err + unit)" where
  "CreateOIDCRequest fault1 fault2 now digest nonce verifier kind expires d =
     run_tx fault2 (\<lambda>d.
       bindE (guardE (SqlErr UniqueViolation) (\<not> list_ex (\<lambda>q. oq_state_digest q = digest) (oidc_auth_requests d))) (\<lambda>_.
         Inr ((), d\<lparr>oidc_auth_requests := oidc_auth_requests d @
           [\<lparr>oq_state_digest = digest, oq_nonce = nonce, oq_pkce_verifier = verifier, oq_client_kind = kind,
             oq_expires_at = expires\<rparr>]\<rparr>)))
       (fst (run_tx fault1 (\<lambda>d. Inr ((), d\<lparr>oidc_auth_requests :=
          del_where (\<lambda>q. oq_expires_at q \<le> now) (oidc_auth_requests d)\<rparr>)) d))"

text \<open>\<open>OIDCRequest\<close>: nonce, PKCE verifier and kind of client.\<close>

type_synonym OIDCRequest = "string \<times> string \<times> string"

definition consume_oidc_tx :: "time \<Rightarrow> string \<Rightarrow> db \<Rightarrow> err + (OIDCRequest \<times> db)" where
  "consume_oidc_tx now digest d =
     (let p = (\<lambda>q. oq_state_digest q = digest \<and> now < oq_expires_at q)
      in bindE (query_row ErrNotFound p (oidc_auth_requests d)) (\<lambda>q.
           Inr ((oq_nonce q, oq_pkce_verifier q, oq_client_kind q),
                d\<lparr>oidc_auth_requests := del_where p (oidc_auth_requests d)\<rparr>)))"

definition ConsumeOIDCRequest :: "tx_fault \<Rightarrow> time \<Rightarrow> string \<Rightarrow> db \<Rightarrow> db \<times> (err + OIDCRequest)" where
  "ConsumeOIDCRequest fault now digest d = run_tx fault (consume_oidc_tx now digest) d"

definition CreateNativeAuthCode ::
  "tx_fault \<Rightarrow> tx_fault \<Rightarrow> time \<Rightarrow> string \<Rightarrow> string \<Rightarrow> time \<Rightarrow> db \<Rightarrow> db \<times> (err + unit)" where
  "CreateNativeAuthCode fault1 fault2 now digest uid expires d =
     run_tx fault2 (\<lambda>d.
       bindE (guardE (SqlErr UniqueViolation) (\<not> list_ex (\<lambda>c. nc_code_digest c = digest) (native_auth_codes d))) (\<lambda>_.
       bindE (guardE (SqlErr ForeignKeyViolation) (list_ex (\<lambda>u. u_id u = uid) (users d))) (\<lambda>_.
         Inr ((), d\<lparr>native_auth_codes := native_auth_codes d @
           [\<lparr>nc_code_digest = digest, nc_user_id = uid, nc_expires_at = expires, nc_created_at = now\<rparr>]\<rparr>))))
       (fst (run_tx fault1 (\<lambda>d. Inr ((), d\<lparr>native_auth_codes :=
          del_where (\<lambda>c. nc_expires_at c \<le> now) (native_auth_codes d)\<rparr>)) d))"

definition consume_code_tx :: "time \<Rightarrow> string \<Rightarrow> db \<Rightarrow> err + (User option \<times> db)" where
  "consume_code_tx now digest d =
     (let p = (\<lambda>c. nc_code_digest c = digest \<and> now < nc_expires_at c)
      in Inr (case find p (native_auth_codes d) of None \<Rightarrow> None
              | Some c \<Rightarrow> map_option scan_user (find (\<lambda>u. u_id u = nc_user_id c) (users d)),
              d\<lparr>native_auth_codes := del_where p (native_auth_codes d)\<rparr>))"

definition ConsumeNativeAuthCode :: "tx_fault \<Rightarrow> time \<Rightarrow> string \<Rightarrow> db \<Rightarrow> db \<times> (err + User)" where
  "ConsumeNativeAuthCode fault now digest d =
     then_check (run_tx fault (consume_code_tx now digest) d)
       (\<lambda>x. case x of None \<Rightarrow> Inl ErrNotFound | Some u \<Rightarrow> Inr u)"

text \<open>
  \<open>ResolveOIDCUser\<close>: the user of a known external identity, or a new one.  A user name that is taken gets
  the first eight bytes of the identifier appended.
\<close>

definition oidc_username :: "(string \<Rightarrow> string) \<Rightarrow> User \<Rightarrow> db \<Rightarrow> string" where
  "oidc_username ulower proposed d =
     (if list_ex (\<lambda>u. u_username_normalized u = ToLower ulower (u_username proposed)) (users d)
      then u_username proposed @ ''-'' @ ToLower ulower (take 8 (u_id proposed))
      else u_username proposed)"

definition insert_external :: "string \<Rightarrow> string \<Rightarrow> string \<Rightarrow> db \<Rightarrow> err + db" where
  "insert_external pid subject uid d =
     bindE (guardE (SqlErr UniqueViolation)
              (\<not> list_ex (\<lambda>x. xi_provider_id x = pid \<and> xi_subject x = subject) (external_identities d))) (\<lambda>_.
     bindE (guardE (SqlErr ForeignKeyViolation)
              (list_ex (\<lambda>p. op_id p = pid) (oidc_providers d) \<and> list_ex (\<lambda>u. u_id u = uid) (users d))) (\<lambda>_.
       Inr (d\<lparr>external_identities := external_identities d @
              [\<lparr>xi_provider_id = pid, xi_subject = subject, xi_user_id = uid\<rparr>]\<rparr>)))"

definition known_identity :: "string \<Rightarrow> string \<Rightarrow> db \<Rightarrow> User option" where
  "known_identity pid subject d =
     (case find (\<lambda>x. xi_provider_id x = pid \<and> xi_subject x = subject) (external_identities d) of
        None \<Rightarrow> None | Some x \<Rightarrow> find (\<lambda>u. u_id u = xi_user_id x) (users d))"

definition resolve_oidc_tx ::
  "(string \<Rightarrow> string) \<Rightarrow> time \<Rightarrow> string \<Rightarrow> string \<Rightarrow> User \<Rightarrow> db \<Rightarrow> err + (User \<times> db)" where
  "resolve_oidc_tx ulower now pid subject proposed d =
     (case known_identity pid subject d of
        Some u \<Rightarrow> Inr (scan_user u, d)
      | None \<Rightarrow>
          (let username = oidc_username ulower proposed d
           in bindE (insert_user (new_user ulower now (u_id proposed) username (u_display_name proposed) None RoleUser) d)
                (\<lambda>d1. bindE (insert_external pid subject (u_id proposed) d1) (\<lambda>d2.
                  Inr (proposed\<lparr>u_username := username, u_role := RoleUser\<rparr>, d2)))))"

definition ResolveOIDCUser ::
  "(string \<Rightarrow> string) \<Rightarrow> tx_fault \<Rightarrow> time \<Rightarrow> string \<Rightarrow> string \<Rightarrow> User \<Rightarrow> db \<Rightarrow> db \<times> (err + User)" where
  "ResolveOIDCUser ulower fault now pid subject proposed d =
     run_tx fault (resolve_oidc_tx ulower now pid subject proposed) d"

section \<open>Frames\<close>

lemmas account_tx_defs = insert_user_def update_user_def insert_web_session_def insert_native_session_def
  verified_login_tx_def insert_api_token_def api_session_tx_def upsert_provider_def consume_oidc_tx_def
  consume_code_tx_def insert_external_def resolve_oidc_tx_def Let_def

lemma revoke_user_access_authority: "same_authority d (revoke_user_access now uid d)"
  by (simp add: revoke_user_access_def queueGuestIdentityRevocations_def same_authority_def)

lemma delete_user_sessions_authority: "same_authority d (delete_user_sessions uid keep d)"
  by (simp add: delete_user_sessions_def same_authority_def)

lemma disable_user_tx_authority: "disable_user_tx now uid disabled d = Inr (x, d') \<Longrightarrow> same_authority d d'"
  by (auto simp: disable_user_tx_def update_user_def delete_user_sessions_def bindE_eq_Inr same_authority_def)

lemma password_tx_authority: "password_tx now uid hash retained d = Inr (x, d') \<Longrightarrow> same_authority d d'"
  by (auto simp: password_tx_def update_user_def delete_user_sessions_def revoke_user_access_def
      queueGuestIdentityRevocations_def bindE_eq_Inr same_authority_def)

lemma revoke_native_tx_authority: "revoke_native_tx now digest d = Inr (x, d') \<Longrightarrow> same_authority d d'"
  by (auto simp: revoke_native_tx_def revoke_user_access_def queueGuestIdentityRevocations_def same_authority_def
      split: option.splits)

lemma account_frames:
  "same_authority d (fst (CreateInitialAdmin ulower fault now user d))"
  "same_authority d (fst (CreateSession fault now digest uid csrf expires d))"
  "same_authority d (fst (CreateNativeSession fault now digest uid expires d))"
  "same_authority d (fst (createVerifiedLoginSession fault now clock digest user csrf expires native d))"
  "same_authority d (fst (DeleteSession fault digest d))"
  "same_authority d (fst (DeleteAPIToken fault uid tid d))"
  "same_authority d (fst (SessionByAPIToken fault now digest d))"
  "same_authority d (fst (EnsureOIDCProvider fault pid name issuer client d))"
  "same_authority d (fst (ConsumeOIDCRequest fault now digest d))"
  "same_authority d (fst (ConsumeNativeAuthCode fault now digest d))"
  "same_authority d (fst (ResolveOIDCUser ulower fault now pid subject proposed d))"
  unfolding CreateInitialAdmin_def CreateSession_def CreateNativeSession_def createVerifiedLoginSession_def
    DeleteSession_def DeleteAPIToken_def SessionByAPIToken_def EnsureOIDCProvider_def ConsumeOIDCRequest_def
    ConsumeNativeAuthCode_def ResolveOIDCUser_def then_check_simps
  by (rule run_tx_same_authority;
      auto simp: account_tx_defs bindE_eq_Inr guardE_eq_Inr same_authority_def
        split: if_splits option.splits)+

lemma RevokeNativeSession_authority: "same_authority d (fst (RevokeNativeSession fault now digest d))"
  unfolding RevokeNativeSession_def by (rule run_tx_same_authority) (rule revoke_native_tx_authority)

lemma account_frames_two:
  "same_authority d (fst (CreateLocalUser ulower fault now clock user d))"
  "same_authority d (fst (CreateAPIToken fault now uid token digest d))"
  "same_authority d (fst (SessionByToken fault fault2 now digest d))"
  "same_authority d (fst (NativeSessionByToken fault fault2 now digest d))"
  "same_authority d (fst (CreateOIDCRequest fault1 fault2 now digest nonce verifier kind expires d))"
  "same_authority d (fst (CreateNativeAuthCode fault1 fault2 now digest uid expires d))"
  unfolding CreateLocalUser_def CreateAPIToken_def SessionByToken_def NativeSessionByToken_def CreateOIDCRequest_def
    CreateNativeAuthCode_def
  by (auto simp: run_tx_def account_tx_defs bindE_def guardE_def same_authority_def
        split: sum.splits prod.splits if_splits option.splits)

lemma SetUserDisabled_fenced: "fenced d \<Longrightarrow> fenced (fst (SetUserDisabled fault now uid disabled d))"
  unfolding SetUserDisabled_def
  by (rule run_access_fenced) (auto dest: disable_user_tx_authority intro: same_authority_fenced)

lemma SetUserPassword_fenced: "fenced d \<Longrightarrow> fenced (fst (SetUserPassword fault now uid hash retained d))"
  unfolding SetUserPassword_def
  by (auto intro!: run_access_fenced dest: password_tx_authority intro: same_authority_fenced)

section \<open>Taking access away from a user\<close>

text \<open>What is left of a user's logins and desktops when everything of theirs has been revoked.\<close>

definition connections_revoking :: "string \<Rightarrow> db \<Rightarrow> bool" where
  "connections_revoking uid d \<longleftrightarrow>
     list_all (\<lambda>c. c_user_id c = uid \<and> conn_open c \<longrightarrow> c_state c = ConnRevoking \<and> c_termination_required c)
       (desktop_connection_sessions d)"

definition bindings_disabled :: "string \<Rightarrow> db \<Rightarrow> bool" where
  "bindings_disabled uid d \<longleftrightarrow>
     list_all (\<lambda>b. b_user_id b = uid \<longrightarrow> b_state b = BindDisabled) (guest_identity_bindings d)"

lemma connections_revoking_commit:
  assumes "fenced d" "commitAccessChange now d = Inr d'" "connections_revoking uid d"
  shows "connections_revoking uid d'"
  using assms(3) unfolding connections_revoking_def commitAccessChange_rows(2) [OF assms(1,2)]
  by (auto simp: list_all_iff in_upd_where revoking_connection_def)

lemma bindings_disabled_commit:
  assumes "fenced d" "commitAccessChange now d = Inr d'" "bindings_disabled uid d"
  shows "bindings_disabled uid d'"
  using assms(3) unfolding bindings_disabled_def commitAccessChange_rows(1) [OF assms(1,2)]
  by (auto simp: list_all_iff in_upd_where disable_binding_def)

text \<open>A commit leaves users, sessions and login codes alone.\<close>

lemma commitAccessChange_accounts:
  assumes "fenced d" "commitAccessChange now d = Inr d'"
  shows "users d' = users d" "web_sessions d' = web_sessions d" "native_sessions d' = native_sessions d"
    "native_auth_codes d' = native_auth_codes d" "api_tokens d' = api_tokens d"
  using commitAccessChange_frame [OF assms] by auto

definition user_disabled :: "string \<Rightarrow> db \<Rightarrow> bool" where
  "user_disabled uid d \<longleftrightarrow> list_all (\<lambda>u. u_id u = uid \<longrightarrow> u_disabled u) (users d)"

lemma user_disabled_no_access: "user_disabled uid d \<Longrightarrow> \<not> effective_user_desktop_access d uid vmid"
  by (auto simp: user_disabled_def effective_user_desktop_access_def list_all_iff list_ex_iff)

lemma user_disabled_not_live: "user_disabled uid d \<Longrightarrow> live_user d uid = None"
  by (auto simp: user_disabled_def live_user_def find_None_iff list_all_iff)

lemma live_user_id: "live_user d uid = Some u \<Longrightarrow> u_id u = uid"
  unfolding live_user_def by (auto dest: find_SomeD)

text \<open>A disabled user cannot be the owner of any session that authenticates.\<close>

lemma SessionByToken_live:
  "SessionByToken fault fault2 now digest d = (d', Inr s) \<Longrightarrow> \<exists>u. se_user s = scan_user u \<and> (\<exists>uid. live_user d uid = Some u)"
  by (auto simp: SessionByToken_def run_query_def bindE_eq_Inr query_row_eq_Inr
      split: sum.splits if_splits dest!: find_SomeD)

lemma NativeSessionByToken_live:
  "NativeSessionByToken fault fault2 now digest d = (d', Inr v) \<Longrightarrow> \<exists>u. v = scan_user u \<and> (\<exists>uid. live_user d uid = Some u)"
  by (auto simp: NativeSessionByToken_def run_query_def bindE_eq_Inr query_row_eq_Inr
      split: sum.splits if_splits dest!: find_SomeD)

lemma SessionByAPIToken_live:
  "SessionByAPIToken fault now digest d = (d', Inr s) \<Longrightarrow> \<exists>u. se_user s = scan_user u \<and> (\<exists>uid. live_user d uid = Some u)"
  by (auto simp: SessionByAPIToken_def api_session_tx_def Let_def then_check_eq_Inr run_tx_eq_Inr
      split: option.splits)

lemma disabled_no_login:
  assumes "user_disabled uid d"
  shows "SessionByToken fault fault2 now digest d = (d', Inr s) \<Longrightarrow> u_id (se_user s) \<noteq> uid"
    and "NativeSessionByToken fault fault2 now digest d = (d', Inr v) \<Longrightarrow> u_id v \<noteq> uid"
    and "SessionByAPIToken fault now digest d = (d', Inr s) \<Longrightarrow> u_id (se_user s) \<noteq> uid"
proof -
  have live: "u_id u \<noteq> uid" if "live_user d x = Some u" for x u
    using that live_user_id [OF that] user_disabled_not_live [OF assms] by auto
  have scan: "u_id (scan_user u) = u_id u" for u by (simp add: scan_user_def)
  show "SessionByToken fault fault2 now digest d = (d', Inr s) \<Longrightarrow> u_id (se_user s) \<noteq> uid"
    by (drule SessionByToken_live) (auto simp: scan dest: live)
  show "NativeSessionByToken fault fault2 now digest d = (d', Inr v) \<Longrightarrow> u_id v \<noteq> uid"
    by (drule NativeSessionByToken_live) (auto simp: scan dest: live)
  show "SessionByAPIToken fault now digest d = (d', Inr s) \<Longrightarrow> u_id (se_user s) \<noteq> uid"
    by (drule SessionByAPIToken_live) (auto simp: scan dest: live)
qed

text \<open>
  C10. Disabling a user takes effect everywhere at once.  When the call succeeds the user has no web or
  Native session and no pending login code, no session or API token authenticates as them any more, they
  have access to no desktop, their Guest identities are disabled, every connection that is still open is
  being torn down, and what the change took back has been queued; the sessions of other users are as
  they were.
\<close>

theorem SetUserDisabled_locks_out:
  assumes "fenced d" "identity_queue_wf d" "SetUserDisabled fault now uid True d = (d', Inr acc)"
  shows "ua_disabled acc \<and> user_disabled uid d' \<and> (\<forall>vmid. \<not> effective_user_desktop_access d' uid vmid) \<and>
         web_sessions d' = filter (\<lambda>w. ws_user_id w \<noteq> uid) (web_sessions d) \<and>
         native_sessions d' = filter (\<lambda>n. ns_user_id n \<noteq> uid) (native_sessions d) \<and>
         native_auth_codes d' = filter (\<lambda>c. nc_user_id c \<noteq> uid) (native_auth_codes d) \<and>
         connections_revoking uid d' \<and> bindings_disabled uid d' \<and> settled d' \<and>
         (\<forall>b \<in> set (guest_identity_bindings d). b_user_id b = uid \<and> b_state b \<noteq> BindDisabled \<longrightarrow>
            identity_pending d' (b_desktop_vmid b) uid (b_guest_username b)) \<and>
         (\<forall>f f2 t digest s e. SessionByToken f f2 t digest d' = (e, Inr s) \<longrightarrow> u_id (se_user s) \<noteq> uid) \<and>
         (\<forall>f f2 t digest u e. NativeSessionByToken f f2 t digest d' = (e, Inr u) \<longrightarrow> u_id u \<noteq> uid) \<and>
         (\<forall>f t digest s e. SessionByAPIToken f t digest d' = (e, Inr s) \<longrightarrow> u_id (se_user s) \<noteq> uid)"
proof -
  from assms(3) obtain d1 where b: "disable_user_tx now uid True d = Inr (acc, d1)"
    and c: "commitAccessChange now d1 = Inr d'"
    by (auto simp: SetUserDisabled_def run_tx_eq_Inr access_tx_Inr)
  have f: "fenced d1" by (rule same_authority_fenced [OF disable_user_tx_authority [OF b] assms(1)])
  from b obtain u where acc: "acc = user_account (u\<lparr>u_disabled := True, u_updated_at := now\<rparr>)"
    and d1: "d1 = (delete_user_sessions uid (\<lambda>_. False) (d\<lparr>users := upd_where (\<lambda>u. u_id u = uid)
               (\<lambda>u. u\<lparr>u_disabled := True, u_updated_at := now\<rparr>) (users d)\<rparr>))
             \<lparr>desktop_connection_sessions := upd_where (\<lambda>c. c_user_id c = uid \<and> c_state c = ConnActive)
                (revoking_connection now) (desktop_connection_sessions d)\<rparr>"
    by (auto simp: disable_user_tx_def update_user_def bindE_eq_Inr)
  note same = commitAccessChange_accounts [OF f c]
  have "user_disabled uid d1" 
    by (simp add: d1 user_disabled_def delete_user_sessions_def list_all_iff ball_upd_where)
  then have dis: "user_disabled uid d'" by (simp add: user_disabled_def same)
  have "settled d'" by (rule commitAccessChange_settled [OF f c])
  moreover have "bindings_disabled uid d'" "connections_revoking uid d'"
    using \<open>settled d'\<close> user_disabled_no_access [OF dis]
    by (auto simp: settled_def binding_settled_def connection_settled_def bindings_disabled_def
        connections_revoking_def list_all_iff)
  moreover have "\<forall>b \<in> set (guest_identity_bindings d). b_user_id b = uid \<and> b_state b \<noteq> BindDisabled \<longrightarrow>
            identity_pending d' (b_desktop_vmid b) uid (b_guest_username b)"
  proof (intro ballI impI)
    fix b assume that: "b \<in> set (guest_identity_bindings d)" "b_user_id b = uid \<and> b_state b \<noteq> BindDisabled"
    have "identity_queue_wf d1" using assms(2) by (simp add: d1 delete_user_sessions_def identity_queue_wf_def)
    moreover have "b \<in> set (guest_identity_bindings d1)" using that by (simp add: d1 delete_user_sessions_def)
    ultimately show "identity_pending d' (b_desktop_vmid b) uid (b_guest_username b)"
      using commitAccessChange_pending(2) [OF f c, of b] that user_disabled_no_access [OF \<open>user_disabled uid d1\<close>]
      by simp
  qed
  moreover have "ua_disabled acc" by (simp add: acc user_account_def)
  moreover have "web_sessions d' = filter (\<lambda>w. ws_user_id w \<noteq> uid) (web_sessions d)"
    "native_sessions d' = filter (\<lambda>n. ns_user_id n \<noteq> uid) (native_sessions d)"
    "native_auth_codes d' = filter (\<lambda>c. nc_user_id c \<noteq> uid) (native_auth_codes d)"
    by (simp_all add: same d1 delete_user_sessions_def del_where_def)
  moreover have "(\<forall>f f2 t digest s e. SessionByToken f f2 t digest d' = (e, Inr s) \<longrightarrow> u_id (se_user s) \<noteq> uid) \<and>
         (\<forall>f f2 t digest u e. NativeSessionByToken f f2 t digest d' = (e, Inr u) \<longrightarrow> u_id u \<noteq> uid) \<and>
         (\<forall>f t digest s e. SessionByAPIToken f t digest d' = (e, Inr s) \<longrightarrow> u_id (se_user s) \<noteq> uid)"
    by (intro conjI allI impI) (erule disabled_no_login [OF dis])+
  moreover have "\<forall>vmid. \<not> effective_user_desktop_access d' uid vmid" using user_disabled_no_access [OF dis] by blast
  ultimately show ?thesis using dis by blast
qed

lemma revoke_user_access_pending:
  assumes "identity_queue_wf d" "b \<in> set (guest_identity_bindings d)" "b_user_id b = uid"
  shows "identity_pending (revoke_user_access now uid d) (b_desktop_vmid b) uid (b_guest_username b)"
proof -
  let ?d = "d\<lparr>desktop_connection_sessions := upd_where (\<lambda>c. c_user_id c = uid \<and> conn_open c)
              (revoking_connection now) (desktop_connection_sessions d)\<rparr>"
  have "identity_queue_wf ?d" using assms(1) by (simp add: identity_queue_wf_def)
  then show ?thesis
    using queue_identities_pending [of ?d b "\<lambda>b. b_user_id b = uid" now CredentialRevoked] assms(2,3)
    unfolding revoke_user_access_def by simp
qed

lemma revoke_user_access_wf: "identity_queue_wf d \<Longrightarrow> identity_queue_wf (revoke_user_access now uid d)"
  unfolding revoke_user_access_def by (rule queue_identities_wf) (simp add: identity_queue_wf_def)

lemma revoke_user_access_revokes:
  "connections_revoking uid (revoke_user_access now uid d)" "bindings_disabled uid (revoke_user_access now uid d)"
  by (auto simp: revoke_user_access_def connections_revoking_def bindings_disabled_def
      queueGuestIdentityRevocations_def list_all_iff ball_upd_where revoking_connection_def disable_binding_def)

text \<open>A login that was verified against another password than the current one is refused.\<close>

lemma stale_login_refused:
  assumes "list_all (\<lambda>u. u_id u = u_id user \<longrightarrow> coalesce (u_password_hash u) \<noteq> coalesce (u_password_hash user)) (users d)"
  shows "createVerifiedLoginSession fault now clock digest user csrf expires native d = (d, Inl (if fault = TxFails then DriverErr else ErrNotFound))"
proof -
  have "\<not> list_ex (\<lambda>u. u_id u = u_id user \<and> \<not> u_disabled u \<and>
           coalesce (u_password_hash u) = coalesce (u_password_hash user)) (users d)"
    using assms by (auto simp: list_all_iff list_ex_iff)
  then show ?thesis
    by (simp add: createVerifiedLoginSession_def run_tx_def verified_login_tx_def)
qed

text \<open>
  C11. Replacing a password ends every login of the user except the web session that is explicitly kept:
  no other web session, no Native session and no login code survives, every open connection is being torn
  down, every Guest identity of the user is disabled with its revocation pending, and a password check
  that was made before the change can no longer mint a session.
\<close>

theorem SetUserPassword_revokes:
  assumes "fenced d" "identity_queue_wf d" "unique_by u_id (users d)"
    and "SetUserPassword fault now uid hash retained d = (d', Inr acc)"
  shows "web_sessions d' =
           filter (\<lambda>w. ws_user_id w \<noteq> uid \<or> (retained \<noteq> [] \<and> ws_token_digest w = retained)) (web_sessions d) \<and>
         native_sessions d' = filter (\<lambda>n. ns_user_id n \<noteq> uid) (native_sessions d) \<and>
         native_auth_codes d' = filter (\<lambda>c. nc_user_id c \<noteq> uid) (native_auth_codes d) \<and>
         connections_revoking uid d' \<and> bindings_disabled uid d' \<and>
         (\<forall>b \<in> set (guest_identity_bindings d). b_user_id b = uid \<longrightarrow>
            identity_pending d' (b_desktop_vmid b) uid (b_guest_username b)) \<and>
         (\<forall>f t t2 digest user csrf ex native. u_id user = uid \<and> coalesce (u_password_hash user) \<noteq> hash \<longrightarrow>
            createVerifiedLoginSession f t t2 digest user csrf ex native d' =
              (d', Inl (if f = TxFails then DriverErr else ErrNotFound)))"
proof -
  from assms(4) obtain d1 where b: "password_tx now uid hash retained d = Inr (acc, d1)"
    and c: "commitAccessChange now d1 = Inr d'"
    by (auto simp: SetUserPassword_def run_tx_eq_Inr access_tx_Inr split: if_splits)
  let ?p = "\<lambda>u. u_id u = uid \<and> u_password_hash u \<noteq> None"
  let ?f = "\<lambda>u. u\<lparr>u_password_hash := Some hash, u_updated_at := now\<rparr>"
  have f: "fenced d1" by (rule same_authority_fenced [OF password_tx_authority [OF b] assms(1)])
  define d0 where "d0 = delete_user_sessions uid (\<lambda>w. retained \<noteq> [] \<and> ws_token_digest w = retained)
             (d\<lparr>users := upd_where ?p ?f (users d)\<rparr>)"
  from b obtain u where u: "find ?p (users d) = Some u" and d1: "d1 = revoke_user_access now uid d0"
    by (auto simp: password_tx_def update_user_def bindE_eq_Inr query_row_eq_Inr d0_def)
  note same = commitAccessChange_accounts [OF f c]
  have d0: "identity_queue_wf d0" "guest_identity_bindings d0 = guest_identity_bindings d"
    "users d0 = upd_where ?p ?f (users d)"
    using assms(2) by (simp_all add: d0_def delete_user_sessions_def identity_queue_wf_def)
  have rows: "web_sessions d1 = web_sessions d0" "native_sessions d1 = native_sessions d0" "users d1 = users d0"
    "native_auth_codes d1 = native_auth_codes d0"
    by (simp_all add: d1 revoke_user_access_def queueGuestIdentityRevocations_def)
  have "web_sessions d' = filter (\<lambda>w. ws_user_id w \<noteq> uid \<or> (retained \<noteq> [] \<and> ws_token_digest w = retained)) (web_sessions d)"
    "native_sessions d' = filter (\<lambda>n. ns_user_id n \<noteq> uid) (native_sessions d)"
    "native_auth_codes d' = filter (\<lambda>c. nc_user_id c \<noteq> uid) (native_auth_codes d)"
    unfolding same rows by (simp_all add: d0_def delete_user_sessions_def del_where_def)
  moreover have "connections_revoking uid d'" "bindings_disabled uid d'"
    using connections_revoking_commit [OF f c] bindings_disabled_commit [OF f c] revoke_user_access_revokes
    by (auto simp: d1)
  moreover have "\<forall>b \<in> set (guest_identity_bindings d). b_user_id b = uid \<longrightarrow>
            identity_pending d' (b_desktop_vmid b) uid (b_guest_username b)"
    using commitAccessChange_pending(2) [OF f c] revoke_user_access_wf [OF d0(1)] revoke_user_access_pending [OF d0(1)]
    by (simp add: d1 d0(2)) metis
  moreover have hashed: "u_password_hash v \<noteq> None" if "v \<in> set (users d)" "u_id v = uid" for v
    using find_SomeD [OF u] unique_by_same [OF assms(3) that(1), of u] that(2) by auto
  have "list_all (\<lambda>v. u_id v = uid \<longrightarrow> coalesce (u_password_hash v) = hash) (users d')"
    by (auto simp: same rows d0(3) list_all_iff ball_upd_where coalesce_def dest: hashed)
  then have "\<forall>f t t2 digest user csrf ex native. u_id user = uid \<and> coalesce (u_password_hash user) \<noteq> hash \<longrightarrow>
            createVerifiedLoginSession f t t2 digest user csrf ex native d' =
              (d', Inl (if f = TxFails then DriverErr else ErrNotFound))"
    by (intro allI impI stale_login_refused) (auto simp: list_all_iff)
  ultimately show ?thesis by blast
qed

section \<open>Single-use codes and external identities\<close>


definition users_wf :: "(string \<Rightarrow> string) \<Rightarrow> db \<Rightarrow> bool" where
  "users_wf ulower d \<longleftrightarrow>
     unique_by u_id (users d) \<and> unique_by u_username_normalized (users d) \<and>
     list_all (\<lambda>u. u_username_normalized u = ToLower ulower (u_username u)) (users d)"

lemma insert_user_wf:
  "users_wf ulower d \<Longrightarrow>
     insert_user (new_user ulower now uid name display_name hash role) d = Inr d' \<Longrightarrow> users_wf ulower d'"
  by (fastforce simp: insert_user_def users_wf_def new_user_def bindE_eq_Inr guardE_eq_Inr list_ex_iff)

lemma update_user_wf:
  assumes "users_wf ulower d" "update_user e p f d = Inr (u, d')"
    and "\<And>u. u_id (f u) = u_id u \<and> u_username (f u) = u_username u \<and> u_username_normalized (f u) = u_username_normalized u"
  shows "users_wf ulower d'"
  using assms by (fastforce simp: update_user_def users_wf_def bindE_eq_Inr map_upd_where_key list_all_iff in_upd_where)

lemma users_wf_frame: "users d' = users d \<Longrightarrow> users_wf ulower d \<Longrightarrow> users_wf ulower d'"
  by (simp add: users_wf_def)


section \<open>An example\<close>

text \<open>A user of desktop 100 with one web session, one Native session, a Guest identity and a connection.\<close>

definition ex_user :: User where
  "ex_user = \<lparr>u_id = ''u1'', u_username = ''Ada'', u_username_normalized = ''ada'', u_display_name = ''Ada'',
     u_password_hash = Some ''h1'', u_role = RoleUser, u_disabled = False, u_created_at = 0, u_updated_at = 0\<rparr>"

definition ex_connection :: DesktopConnectionSession where
  "ex_connection = \<lparr>c_id = ''conn_00000001'', c_user_id = ''u1'', c_desktop_vmid = 100, c_guest_username = ''vcwada'',
     c_state = ConnActive, c_expires_at = 90, c_created_at = 0, c_updated_at = 0, c_closed_at = None,
     c_termination_required = False, c_native_session_digest = Some ''n1''\<rparr>"

definition ex_binding :: GuestIdentityBinding where
  "ex_binding = \<lparr>b_desktop_vmid = 100, b_user_id = ''u1'', b_profile_id = None, b_guest_username = ''vcwada'',
     b_state = BindReady, b_last_error = [], b_session_expires_at = Some 90, b_created_at = 0, b_updated_at = 0\<rparr>"

definition ex_users_db :: db where
  "ex_users_db = ex_db\<lparr>
     users := [ex_user],
     web_sessions := [\<lparr>ws_token_digest = ''w1'', ws_user_id = ''u1'', ws_csrf_token = ''x'', ws_expires_at = 90,
       ws_created_at = 0, ws_last_seen_at = 0\<rparr>],
     native_sessions := [\<lparr>ns_token_digest = ''n1'', ns_user_id = ''u1'', ns_expires_at = 90, ns_created_at = 0,
       ns_last_seen_at = 0\<rparr>],
     native_auth_codes := [\<lparr>nc_code_digest = ''k1'', nc_user_id = ''u1'', nc_expires_at = 90, nc_created_at = 0\<rparr>],
     oidc_providers := [\<lparr>op_id = ''p1'', op_name = ''idp'', op_issuer = ''https://idp'', op_client_id = ''c'', op_enabled = True\<rparr>],
     user_desktop_assignments := [\<lparr>as_subject_id = ''u1'', as_desktop_vmid = 100, as_created_by = None, as_created_at = 0\<rparr>],
     guest_identity_bindings := [ex_binding],
     desktop_connection_sessions := [ex_connection]\<rparr>"

lemma ex_users_fenced: "fenced ex_users_db"
  by (rule same_authority_fenced [OF _ ex_db_fenced]) (simp add: ex_users_db_def same_authority_def)

lemma ex_users_queue: "identity_queue_wf ex_users_db"
  by code_simp

lemma succeeds: "\<not> isl (snd x) \<Longrightarrow> \<exists>y. x = (fst x, Inr y)"
  by (cases x; cases "snd x") auto

theorem SetUserDisabled_locks_out_witness:
  "effective_user_desktop_access ex_users_db ''u1'' 100 \<and>
   (\<exists>d' acc. SetUserDisabled NoFault 60 ''u1'' True ex_users_db = (d', Inr acc) \<and>
      \<not> effective_user_desktop_access d' ''u1'' 100 \<and> identity_pending d' 100 ''u1'' ''vcwada'')"
proof -
  have "\<not> isl (snd (SetUserDisabled NoFault 60 ''u1'' True ex_users_db))" by code_simp
  then obtain d' acc where ok: "SetUserDisabled NoFault 60 ''u1'' True ex_users_db = (d', Inr acc)"
    using succeeds by blast
  have "effective_user_desktop_access ex_users_db ''u1'' 100" by code_simp
  with SetUserDisabled_locks_out [OF ex_users_fenced ex_users_queue ok] ok show ?thesis
    by (simp add: ex_users_db_def ex_binding_def)
qed

theorem SetUserPassword_revokes_witness:
  "\<exists>d' acc. SetUserPassword NoFault 60 ''u1'' ''h2'' ''w1'' ex_users_db = (d', Inr acc) \<and>
     web_sessions d' = web_sessions ex_users_db \<and> native_sessions d' = [] \<and>
     createVerifiedLoginSession NoFault 61 61 ''w2'' ex_user ''x'' 95 False d' = (d', Inl ErrNotFound)"
proof -
  have "\<not> isl (snd (SetUserPassword NoFault 60 ''u1'' ''h2'' ''w1'' ex_users_db))" by code_simp
  then obtain d' acc where ok: "SetUserPassword NoFault 60 ''u1'' ''h2'' ''w1'' ex_users_db = (d', Inr acc)"
    using succeeds by blast
  have "unique_by u_id (users ex_users_db)" by code_simp
  from SetUserPassword_revokes [OF ex_users_fenced ex_users_queue this ok] ok show ?thesis
    by (simp add: ex_users_db_def ex_user_def coalesce_def)
qed



end
