(* ===== verification/Desktops.thy ===== *)
theory Desktops
  imports Accounts
begin

text \<open>
  The inventory of desktops, agents, assignments, identity profiles and groups of \<open>store.go\<close>, with the
  authorization changes that take access back.  \<open>ulower\<close>, \<open>sql_lower\<close> and \<open>coll\<close> are as in theory
  \<open>Accounts\<close>; text that reaches a text column is valid UTF-8 unless the code itself cuts it.
\<close>

section \<open>The inventory\<close>

text \<open>The fields of a \<open>ManagedDesktop\<close> that an inventory entry fills in.\<close>

record DesktopInput =
  di_vmid :: int
  di_display_name :: string
  di_node :: string
  di_os_family :: string

definition normalizeManagedDesktopOSFamily :: "(string \<Rightarrow> string) \<Rightarrow> string \<Rightarrow> os_family" where
  "normalizeManagedDesktopOSFamily ulower value =
     (let v = ToLower ulower (TrimSpace value)
      in if v = ''linux'' then OsLinux else if v = ''windows'' then OsWindows else OsUnknown)"

definition ManagedDesktops ::
  "(string \<Rightarrow> string \<Rightarrow> bool) \<Rightarrow> (string \<Rightarrow> string) \<Rightarrow> tx_fault \<Rightarrow> db \<Rightarrow> err + ManagedDesktop list" where
  "ManagedDesktops coll sql_lower fault d =
     run_query fault (\<lambda>d. Inr (order_by
       (then_by (by_key coll (\<lambda>m. sql_lower (md_display_name m))) (by_key (\<le>) md_vmid)) (managed_desktops d))) d"

definition ManagedDesktopByVMID :: "tx_fault \<Rightarrow> int \<Rightarrow> db \<Rightarrow> err + ManagedDesktop" where
  "ManagedDesktopByVMID fault vmid d =
     run_query fault (\<lambda>d. query_row ErrNotFound (\<lambda>m. md_vmid m = vmid) (managed_desktops d)) d"

text \<open>A new row takes the column defaults of migrations 013 to 016.\<close>

definition new_desktop :: "(string \<Rightarrow> string) \<Rightarrow> time \<Rightarrow> DesktopInput \<Rightarrow> bool \<Rightarrow> ManagedDesktop" where
  "new_desktop ulower now i enabled =
     \<lparr>md_vmid = di_vmid i, md_display_name = TrimSpace (di_display_name i), md_node = TrimSpace (di_node i),
      md_os_family = normalizeManagedDesktopOSFamily ulower (di_os_family i), md_present = True,
      md_enabled = enabled, md_access_mode = Personal, md_owner_user_id = None, md_identity_profile_id = None,
      md_identity_state = IdentityPending, md_applied_identity_profile_id = None, md_identity_last_error = [],
      md_identity_updated_at = now, md_first_seen_at = now, md_last_seen_at = now, md_updated_at = now\<rparr>"

definition seen_desktop :: "(string \<Rightarrow> string) \<Rightarrow> time \<Rightarrow> DesktopInput \<Rightarrow> ManagedDesktop \<Rightarrow> ManagedDesktop" where
  "seen_desktop ulower now i m =
     (let os = normalizeManagedDesktopOSFamily ulower (di_os_family i)
      in m\<lparr>md_display_name := TrimSpace (di_display_name i), md_node := TrimSpace (di_node i),
           md_os_family := (if os = OsUnknown then md_os_family m else os),
           md_present := True, md_last_seen_at := now, md_updated_at := now\<rparr>)"

definition desktop_input_ok :: "DesktopInput \<Rightarrow> bool" where
  "desktop_input_ok i \<longleftrightarrow> \<not> (di_vmid i \<le> 0 \<or> TrimSpace (di_display_name i) = [])"

definition upsert_desktop :: "(string \<Rightarrow> string) \<Rightarrow> time \<Rightarrow> DesktopInput \<Rightarrow> db \<Rightarrow> db" where
  "upsert_desktop ulower now i d =
     d\<lparr>managed_desktops :=
         if list_ex (\<lambda>m. md_vmid m = di_vmid i) (managed_desktops d)
         then upd_where (\<lambda>m. md_vmid m = di_vmid i) (seen_desktop ulower now i) (managed_desktops d)
         else managed_desktops d @ [new_desktop ulower now i True]\<rparr>"

abbreviation desktop_invalid :: err where
  "desktop_invalid \<equiv> ErrMsg ''managed desktop is invalid''"

definition reconcile_tx :: "(string \<Rightarrow> string) \<Rightarrow> time \<Rightarrow> DesktopInput list \<Rightarrow> db \<Rightarrow> err + (unit \<times> db)" where
  "reconcile_tx ulower now desktops d =
     bindE (foldE (\<lambda>i d. bindE (guardE desktop_invalid (desktop_input_ok i)) (\<lambda>_. Inr (upsert_desktop ulower now i d)))
              desktops
              (d\<lparr>managed_desktops := upd_where md_present (\<lambda>m. m\<lparr>md_present := False, md_updated_at := now\<rparr>)
                   (managed_desktops d)\<rparr>))
       (\<lambda>d1. Inr ((), d1))"

definition ReconcileManagedDesktops ::
  "(string \<Rightarrow> string) \<Rightarrow> tx_fault \<Rightarrow> time \<Rightarrow> DesktopInput list \<Rightarrow> db \<Rightarrow> db \<times> (err + unit)" where
  "ReconcileManagedDesktops ulower fault now desktops d =
     run_tx fault (access_tx now (reconcile_tx ulower now desktops)) d"

definition UpsertManagedDesktop ::
  "(string \<Rightarrow> string) \<Rightarrow> tx_fault \<Rightarrow> time \<Rightarrow> DesktopInput \<Rightarrow> db \<Rightarrow> db \<times> (err + unit)" where
  "UpsertManagedDesktop ulower fault now i d =
     (if \<not> desktop_input_ok i then (d, Inl desktop_invalid)
      else run_tx fault (\<lambda>d. Inr ((), upsert_desktop ulower now i d)) d)"

definition quarantine_tx :: "(string \<Rightarrow> string) \<Rightarrow> time \<Rightarrow> DesktopInput \<Rightarrow> db \<Rightarrow> err + (unit \<times> db)" where
  "quarantine_tx ulower now i d =
     Inr ((), d\<lparr>managed_desktops :=
         if list_ex (\<lambda>m. md_vmid m = di_vmid i) (managed_desktops d)
         then upd_where (\<lambda>m. md_vmid m = di_vmid i) (\<lambda>m. m\<lparr>md_enabled := False, md_updated_at := now\<rparr>) (managed_desktops d)
         else managed_desktops d @ [new_desktop ulower now i False]\<rparr>)"

definition QuarantineClonedDesktop ::
  "(string \<Rightarrow> string) \<Rightarrow> tx_fault \<Rightarrow> time \<Rightarrow> DesktopInput \<Rightarrow> db \<Rightarrow> db \<times> (err + unit)" where
  "QuarantineClonedDesktop ulower fault now i d =
     (if \<not> desktop_input_ok i then (d, Inl desktop_invalid)
      else run_tx fault (access_tx now (quarantine_tx ulower now i)) d)"

section \<open>Who may use a desktop\<close>

text \<open>The view has one row per user and desktop.\<close>

definition UserAssignedDesktopVMIDs :: "tx_fault \<Rightarrow> string \<Rightarrow> db \<Rightarrow> err + int list" where
  "UserAssignedDesktopVMIDs fault uid d =
     run_query fault (\<lambda>d. Inr (order_by (\<le>) (remdups (map md_vmid
       (filter (\<lambda>m. effective_user_desktop_access d uid (md_vmid m)) (managed_desktops d)))))) d"

definition agent_on :: "db \<Rightarrow> string \<Rightarrow> Assignment \<Rightarrow> bool" where
  "agent_on d aid a \<longleftrightarrow>
     as_subject_id a = aid \<and> list_ex (\<lambda>p. ap_id p = aid \<and> ap_enabled p) (agent_principals d) \<and>
     list_ex (\<lambda>m. md_vmid m = as_desktop_vmid a \<and> md_present m \<and> md_enabled m \<and> desktop_clone_ready d (md_vmid m))
       (managed_desktops d)"

definition AgentAssignedDesktopVMIDs :: "tx_fault \<Rightarrow> string \<Rightarrow> db \<Rightarrow> err + int list" where
  "AgentAssignedDesktopVMIDs fault aid d =
     run_query fault (\<lambda>d. Inr (order_by (\<le>) (map as_desktop_vmid
       (filter (agent_on d aid) (agent_desktop_assignments d))))) d"

definition UserCanAccessDesktop :: "tx_fault \<Rightarrow> string \<Rightarrow> int \<Rightarrow> db \<Rightarrow> err + bool" where
  "UserCanAccessDesktop fault uid vmid d = run_query fault (\<lambda>d. Inr (effective_user_desktop_access d uid vmid)) d"

definition AgentCanAccessDesktop :: "tx_fault \<Rightarrow> string \<Rightarrow> int \<Rightarrow> db \<Rightarrow> err + bool" where
  "AgentCanAccessDesktop fault aid vmid d =
     run_query fault (\<lambda>d. Inr (agent_desktop_access d aid (\<lambda>m. md_vmid m = vmid))) d"

section \<open>Agents\<close>

definition AgentPrincipals ::
  "(string \<Rightarrow> string \<Rightarrow> bool) \<Rightarrow> (string \<Rightarrow> string) \<Rightarrow> tx_fault \<Rightarrow> db \<Rightarrow> err + AgentPrincipal list" where
  "AgentPrincipals coll sql_lower fault d =
     run_query fault (\<lambda>d. Inr (order_by
       (then_by (by_key coll (\<lambda>a. sql_lower (ap_display_name a))) (by_key coll ap_id)) (agent_principals d))) d"

definition user_ref_ok :: "db \<Rightarrow> string option \<Rightarrow> bool" where
  "user_ref_ok d r \<longleftrightarrow> (case r of None \<Rightarrow> True | Some uid \<Rightarrow> list_ex (\<lambda>u. u_id u = uid) (users d))"

definition insert_agent :: "time \<Rightarrow> AgentPrincipal \<Rightarrow> string \<Rightarrow> db \<Rightarrow> err + (AgentPrincipal \<times> db)" where
  "insert_agent now agent digest d =
     (let row = \<lparr>ap_id = ap_id agent, ap_display_name = ap_display_name agent, ap_token_digest = Some digest,
                 ap_enabled = True, ap_created_by = nullif (coalesce (ap_created_by agent)), ap_created_at = now,
                 ap_updated_at = now, ap_last_used_at = None\<rparr>
      in bindE (guardE (SqlErr UniqueViolation)
                  (\<not> list_ex (\<lambda>a. ap_id a = ap_id agent \<or> ap_token_digest a = Some digest) (agent_principals d))) (\<lambda>_.
         bindE (guardE (SqlErr ForeignKeyViolation) (user_ref_ok d (ap_created_by row))) (\<lambda>_.
           Inr (row, d\<lparr>agent_principals := agent_principals d @ [row]\<rparr>))))"

definition CreateAgentPrincipal ::
  "tx_fault \<Rightarrow> time \<Rightarrow> AgentPrincipal \<Rightarrow> string \<Rightarrow> db \<Rightarrow> db \<times> (err + AgentPrincipal)" where
  "CreateAgentPrincipal fault now agent digest d =
     (let (d', r) = run_tx fault (insert_agent now agent digest) d in (d', mapErr unique_conflict r))"

text \<open>\<open>UPDATE agent_principals ... RETURNING\<close> by primary or unique key.\<close>

definition update_agent ::
  "(AgentPrincipal \<Rightarrow> bool) \<Rightarrow> (AgentPrincipal \<Rightarrow> AgentPrincipal) \<Rightarrow> db \<Rightarrow> err + (AgentPrincipal \<times> db)" where
  "update_agent p f d =
     bindE (query_row ErrNotFound p (agent_principals d)) (\<lambda>a.
       Inr (f a, d\<lparr>agent_principals := upd_where p f (agent_principals d)\<rparr>))"

definition rotate_tx :: "time \<Rightarrow> string \<Rightarrow> string \<Rightarrow> db \<Rightarrow> err + (AgentPrincipal \<times> db)" where
  "rotate_tx now aid digest d =
     bindE (query_row ErrNotFound (\<lambda>a. ap_id a = aid) (agent_principals d)) (\<lambda>_.
     bindE (guardE (SqlErr UniqueViolation)
              (\<not> list_ex (\<lambda>a. ap_id a \<noteq> aid \<and> ap_token_digest a = Some digest) (agent_principals d))) (\<lambda>_.
       update_agent (\<lambda>a. ap_id a = aid) (\<lambda>a. a\<lparr>ap_token_digest := Some digest, ap_updated_at := now\<rparr>) d))"

definition RotateAgentToken :: "tx_fault \<Rightarrow> time \<Rightarrow> string \<Rightarrow> string \<Rightarrow> db \<Rightarrow> db \<times> (err + AgentPrincipal)" where
  "RotateAgentToken fault now aid digest d = run_tx fault (rotate_tx now aid digest) d"

definition agent_enabled_tx :: "time \<Rightarrow> string \<Rightarrow> bool \<Rightarrow> db \<Rightarrow> err + (AgentPrincipal \<times> db)" where
  "agent_enabled_tx now aid enabled d =
     bindE (update_agent (\<lambda>a. ap_id a = aid) (\<lambda>a. a\<lparr>ap_enabled := enabled, ap_updated_at := now\<rparr>) d) (\<lambda>(a, d1).
       if enabled then Inr (a, d1)
       else bindE (update_leases now (\<lambda>l. l_state l = LeaseActive \<and> l_agent_id l = aid) (close_lease_as LeaseRevoked now) d1)
              (\<lambda>(_, d2). Inr (a, d2)))"

definition SetAgentEnabled :: "tx_fault \<Rightarrow> time \<Rightarrow> string \<Rightarrow> bool \<Rightarrow> db \<Rightarrow> db \<times> (err + AgentPrincipal)" where
  "SetAgentEnabled fault now aid enabled d = run_tx fault (agent_enabled_tx now aid enabled) d"

definition AgentByTokenDigest :: "tx_fault \<Rightarrow> time \<Rightarrow> string \<Rightarrow> db \<Rightarrow> db \<times> (err + AgentPrincipal)" where
  "AgentByTokenDigest fault now digest d =
     run_tx fault (update_agent (\<lambda>a. ap_token_digest a = Some digest \<and> ap_enabled a)
       (\<lambda>a. a\<lparr>ap_last_used_at := Some now\<rparr>)) d"

section \<open>Assignments\<close>

record DesktopAssignment =
  da_subject_type :: string
  da_subject_id :: string
  da_desktop_vmid :: int
  da_created_by :: string
  da_created_at :: time

definition assignment_of :: "string \<Rightarrow> Assignment \<Rightarrow> DesktopAssignment" where
  "assignment_of kind a =
     \<lparr>da_subject_type = kind, da_subject_id = as_subject_id a, da_desktop_vmid = as_desktop_vmid a,
      da_created_by = coalesce (as_created_by a), da_created_at = as_created_at a\<rparr>"

definition owner_assignment :: "ManagedDesktop \<Rightarrow> DesktopAssignment" where
  "owner_assignment m =
     \<lparr>da_subject_type = ''user'', da_subject_id = coalesce (md_owner_user_id m), da_desktop_vmid = md_vmid m,
      da_created_by = [], da_created_at = md_updated_at m\<rparr>"

definition DesktopAssignments ::
  "(string \<Rightarrow> string \<Rightarrow> bool) \<Rightarrow> tx_fault \<Rightarrow> db \<Rightarrow> err + DesktopAssignment list" where
  "DesktopAssignments coll fault d =
     run_query fault (\<lambda>d. Inr (order_by
       (then_by (by_key coll da_subject_type) (then_by (by_key coll da_subject_id) (by_key (\<le>) da_desktop_vmid)))
       (map owner_assignment (filter (\<lambda>m. md_access_mode m = Personal \<and> md_owner_user_id m \<noteq> None) (managed_desktops d)) @
        map (assignment_of ''user'') (filter (\<lambda>a. list_ex (\<lambda>m. md_vmid m = as_desktop_vmid a \<and> md_access_mode m = Shared)
               (managed_desktops d)) (user_desktop_assignments d)) @
        map (assignment_of ''agent'') (agent_desktop_assignments d) @
        map (assignment_of ''group'') (group_desktop_assignments d)))) d"

definition foreign_key_not_found :: "err \<Rightarrow> err" where
  "foreign_key_not_found e = (if e = SqlErr ForeignKeyViolation then ErrNotFound else e)"

definition profile_ref_ok :: "db \<Rightarrow> string option \<Rightarrow> bool" where
  "profile_ref_ok d r \<longleftrightarrow> (case r of None \<Rightarrow> True | Some pid \<Rightarrow> list_ex (\<lambda>p. ip_id p = pid) (identity_profiles d))"

text \<open>\<open>UPDATE managed_desktops ... WHERE vmid = $1 RETURNING\<close>\<close>

definition update_desktop ::
  "int \<Rightarrow> (ManagedDesktop \<Rightarrow> ManagedDesktop) \<Rightarrow> db \<Rightarrow> err + (ManagedDesktop \<times> db)" where
  "update_desktop vmid f d =
     bindE (query_row ErrNotFound (\<lambda>m. md_vmid m = vmid) (managed_desktops d)) (\<lambda>m.
     bindE (guardE (SqlErr ForeignKeyViolation)
              (user_ref_ok d (md_owner_user_id (f m)) \<and> profile_ref_ok d (md_identity_profile_id (f m)) \<and>
               profile_ref_ok d (md_applied_identity_profile_id (f m)))) (\<lambda>_.
       Inr (f m, d\<lparr>managed_desktops := upd_where (\<lambda>m. md_vmid m = vmid) f (managed_desktops d)\<rparr>)))"

definition desktop_identity_tx ::
  "time \<Rightarrow> int \<Rightarrow> access_mode \<Rightarrow> string \<Rightarrow> string \<Rightarrow> db \<Rightarrow> err + (ManagedDesktop \<times> db)" where
  "desktop_identity_tx now vmid mode owner profile d =
     bindE (guardE (ErrMsg ''personal desktop requires an owner'') (\<not> (mode = Personal \<and> owner = []))) (\<lambda>_.
     bindE (mapErr foreign_key_not_found (update_desktop vmid
              (\<lambda>m. m\<lparr>md_access_mode := mode, md_owner_user_id := (if mode = Shared then None else nullif owner),
                     md_identity_profile_id := nullif profile, md_identity_state := IdentityPending,
                     md_identity_last_error := [], md_identity_updated_at := now, md_updated_at := now\<rparr>) d))
       (\<lambda>(m, d1). Inr (m,
          if mode = Personal
          then d1\<lparr>user_desktop_assignments := del_where (\<lambda>a. as_desktop_vmid a = vmid) (user_desktop_assignments d1),
                  group_desktop_assignments := del_where (\<lambda>a. as_desktop_vmid a = vmid) (group_desktop_assignments d1)\<rparr>
          else d1)))"

definition UpdateManagedDesktopIdentity ::
  "tx_fault \<Rightarrow> time \<Rightarrow> int \<Rightarrow> string \<Rightarrow> string \<Rightarrow> string \<Rightarrow> db \<Rightarrow> db \<times> (err + ManagedDesktop)" where
  "UpdateManagedDesktopIdentity fault now vmid accessMode owner profile d =
     (if accessMode = ''personal'' then run_tx fault (access_tx now (desktop_identity_tx now vmid Personal owner profile)) d
      else if accessMode = ''shared'' then run_tx fault (access_tx now (desktop_identity_tx now vmid Shared owner profile)) d
      else (d, Inl (ErrMsg ''desktop access mode is invalid'')))"

text \<open>
  \<open>INSERT ... ON CONFLICT DO NOTHING\<close> into one of the assignment tables: the new table and the number of
  rows written.  References are checked for a row that is written.
\<close>

definition put_assignment ::
  "time \<Rightarrow> bool \<Rightarrow> DesktopAssignment \<Rightarrow> db \<Rightarrow> Assignment list \<Rightarrow> err + (bool \<times> Assignment list)" where
  "put_assignment now subject_exists a d t =
     (if list_ex (\<lambda>x. as_subject_id x = da_subject_id a \<and> as_desktop_vmid x = da_desktop_vmid a) t then Inr (False, t)
      else bindE (guardE (SqlErr ForeignKeyViolation)
                    (subject_exists \<and> list_ex (\<lambda>m. md_vmid m = da_desktop_vmid a) (managed_desktops d) \<and>
                     user_ref_ok d (nullif (da_created_by a)))) (\<lambda>_.
             Inr (True, t @ [\<lparr>as_subject_id = da_subject_id a, as_desktop_vmid = da_desktop_vmid a,
                              as_created_by = nullif (da_created_by a), as_created_at = now\<rparr>])))"

abbreviation subject_type_invalid :: err where
  "subject_type_invalid \<equiv> ErrMsg ''assignment subject type is invalid''"

definition own_desktop_tx :: "time \<Rightarrow> DesktopAssignment \<Rightarrow> string \<Rightarrow> db \<Rightarrow> err + (bool \<times> db)" where
  "own_desktop_tx now a owner d =
     (if owner \<noteq> [] \<and> owner \<noteq> da_subject_id a then Inl ErrConflict
      else if owner = []
      then bindE (mapErr foreign_key_not_found (update_desktop (da_desktop_vmid a)
                    (\<lambda>m. m\<lparr>md_owner_user_id := Some (da_subject_id a), md_updated_at := now\<rparr>) d)) (\<lambda>(_, d1). Inr (True, d1))
      else Inr (False, d))"

definition put_assignment_tx :: "time \<Rightarrow> DesktopAssignment \<Rightarrow> db \<Rightarrow> err + (bool \<times> db)" where
  "put_assignment_tx now a d =
     bindE (query_row ErrNotFound (\<lambda>m. md_vmid m = da_desktop_vmid a) (managed_desktops d)) (\<lambda>m.
       if da_subject_type a = ''user'' then
         (if md_access_mode m = Personal then own_desktop_tx now a (coalesce (md_owner_user_id m)) d
          else bindE (mapErr foreign_key_not_found (put_assignment now (list_ex (\<lambda>u. u_id u = da_subject_id a) (users d)) a d
                        (user_desktop_assignments d))) (\<lambda>(n, t). Inr (n, d\<lparr>user_desktop_assignments := t\<rparr>)))
       else if da_subject_type a = ''agent'' then
         bindE (mapErr foreign_key_not_found (put_assignment now (list_ex (\<lambda>p. ap_id p = da_subject_id a) (agent_principals d)) a d
                  (agent_desktop_assignments d))) (\<lambda>(n, t). Inr (n, d\<lparr>agent_desktop_assignments := t\<rparr>))
       else if da_subject_type a = ''group'' then
         bindE (guardE ErrConflict (md_access_mode m = Shared)) (\<lambda>_.
         bindE (mapErr foreign_key_not_found (put_assignment now (list_ex (\<lambda>g. g_id g = da_subject_id a) (identity_groups d)) a d
                  (group_desktop_assignments d))) (\<lambda>(n, t). Inr (n, d\<lparr>group_desktop_assignments := t\<rparr>)))
       else Inl subject_type_invalid)"

definition PutDesktopAssignment :: "tx_fault \<Rightarrow> time \<Rightarrow> DesktopAssignment \<Rightarrow> db \<Rightarrow> db \<times> (err + bool)" where
  "PutDesktopAssignment fault now a d = run_tx fault (access_tx now (put_assignment_tx now a)) d"

text \<open>\<open>DELETE FROM ... WHERE subject = $1 AND desktop_vmid = $2\<close>: the rows that go, and those that stay.\<close>

definition assigned :: "string \<Rightarrow> int \<Rightarrow> Assignment \<Rightarrow> bool" where
  "assigned sid vmid a \<longleftrightarrow> as_subject_id a = sid \<and> as_desktop_vmid a = vmid"

definition delete_user_assignment_tx :: "time \<Rightarrow> string \<Rightarrow> int \<Rightarrow> db \<Rightarrow> err + (bool \<times> db)" where
  "delete_user_assignment_tx now sid vmid d =
     bindE (query_row ErrNotFound (\<lambda>m. md_vmid m = vmid) (managed_desktops d)) (\<lambda>m.
       if md_access_mode m = Personal then
         (if coalesce (md_owner_user_id m) \<noteq> sid then Inr (False, d)
          else let p = (\<lambda>m. md_vmid m = vmid \<and> md_owner_user_id m = Some sid)
               in Inr (length (filter p (managed_desktops d)) = 1,
                       d\<lparr>managed_desktops := upd_where p (\<lambda>m. m\<lparr>md_owner_user_id := None, md_updated_at := now\<rparr>)
                            (managed_desktops d)\<rparr>))
       else Inr (length (filter (assigned sid vmid) (user_desktop_assignments d)) = 1,
                 d\<lparr>user_desktop_assignments := del_where (assigned sid vmid) (user_desktop_assignments d)\<rparr>))"

definition delete_agent_assignment_tx :: "time \<Rightarrow> string \<Rightarrow> int \<Rightarrow> db \<Rightarrow> err + (bool \<times> db)" where
  "delete_agent_assignment_tx now sid vmid d =
     (let n = length (filter (assigned sid vmid) (agent_desktop_assignments d));
          d1 = d\<lparr>agent_desktop_assignments := del_where (assigned sid vmid) (agent_desktop_assignments d)\<rparr>
      in if 0 < n
         then bindE (update_leases now (\<lambda>l. l_state l = LeaseActive \<and> l_agent_id l = sid \<and> l_desktop_id l = Itoa vmid)
                       (close_lease_as LeaseRevoked now) d1) (\<lambda>(_, d2). Inr (n = 1, d2))
         else Inr (n = 1, d1))"

definition delete_assignment_tx :: "time \<Rightarrow> string \<Rightarrow> string \<Rightarrow> int \<Rightarrow> db \<Rightarrow> err + (bool \<times> db)" where
  "delete_assignment_tx now kind sid vmid d =
     (if kind = ''user'' then delete_user_assignment_tx now sid vmid d
      else if kind = ''agent'' then delete_agent_assignment_tx now sid vmid d
      else if kind = ''group''
      then Inr (length (filter (assigned sid vmid) (group_desktop_assignments d)) = 1,
                d\<lparr>group_desktop_assignments := del_where (assigned sid vmid) (group_desktop_assignments d)\<rparr>)
      else Inl subject_type_invalid)"

definition DeleteDesktopAssignment ::
  "tx_fault \<Rightarrow> time \<Rightarrow> string \<Rightarrow> string \<Rightarrow> int \<Rightarrow> db \<Rightarrow> db \<times> (err + bool)" where
  "DeleteDesktopAssignment fault now kind sid vmid d =
     run_tx fault (access_tx now (delete_assignment_tx now kind sid vmid)) d"

section \<open>Identity profiles\<close>

definition IdentityProfiles ::
  "(string \<Rightarrow> string \<Rightarrow> bool) \<Rightarrow> (string \<Rightarrow> string) \<Rightarrow> tx_fault \<Rightarrow> db \<Rightarrow> err + IdentityProfile list" where
  "IdentityProfiles coll sql_lower fault d =
     run_query fault (\<lambda>d. Inr (order_by
       (then_by (by_key coll (\<lambda>p. os_text (ip_platform p)))
         (then_by (\<lambda>a b. ip_experimental a \<longrightarrow> ip_experimental b)
           (then_by (by_key coll (\<lambda>p. sql_lower (ip_display_name p))) (by_key coll ip_id)))) (identity_profiles d))) d"

definition IdentityProfileByID :: "tx_fault \<Rightarrow> string \<Rightarrow> db \<Rightarrow> err + IdentityProfile" where
  "IdentityProfileByID fault pid d =
     run_query fault (\<lambda>d. query_row ErrNotFound (\<lambda>p. ip_id p = pid) (identity_profiles d)) d"

text \<open>The CHECK constraints of migration 014.\<close>

definition linux_mode :: "profile_mode \<Rightarrow> bool" where
  "linux_mode m \<longleftrightarrow> m = LinuxSssdAd \<or> m = LinuxSssdFreeipa \<or> m = LinuxSssdLdap \<or> m = LinuxSssdOidc"

definition windows_mode :: "profile_mode \<Rightarrow> bool" where
  "windows_mode m \<longleftrightarrow> m = WindowsAd \<or> m = WindowsEntra"

definition profile_check :: "os_family \<Rightarrow> profile_mode \<Rightarrow> bool" where
  "profile_check platform mode \<longleftrightarrow>
     platform \<noteq> OsUnknown \<and>
     ((platform = OsLinux \<and> linux_mode mode) \<or> (platform = OsWindows \<and> windows_mode mode) \<or> mode = ManagedLocal)"

definition put_profile_tx :: "time \<Rightarrow> IdentityProfile \<Rightarrow> db \<Rightarrow> err + (IdentityProfile \<times> db)" where
  "put_profile_tx now p d =
     (let cfg = (if ip_config p = [] then ''{}'' else ip_config p);
          row = p\<lparr>ip_config := cfg, ip_created_by := nullif (coalesce (ip_created_by p)), ip_created_at := now, ip_updated_at := now\<rparr>;
          upd = (\<lambda>q. row\<lparr>ip_created_by := ip_created_by q, ip_created_at := ip_created_at q\<rparr>)
      in bindE (guardE (SqlErr CheckViolation) (profile_check (ip_platform p) (ip_mode p))) (\<lambda>_.
         bindE (case find (\<lambda>q. ip_id q = ip_id p) (identity_profiles d) of
                  Some q \<Rightarrow> Inr (upd q, d\<lparr>identity_profiles := upd_where (\<lambda>q. ip_id q = ip_id p) upd (identity_profiles d)\<rparr>)
                | None \<Rightarrow> bindE (guardE (SqlErr ForeignKeyViolation) (user_ref_ok d (ip_created_by row))) (\<lambda>_.
                            Inr (row, d\<lparr>identity_profiles := identity_profiles d @ [row]\<rparr>))) (\<lambda>(r, d1).
           Inr (r, d1\<lparr>managed_desktops := upd_where (\<lambda>m. md_identity_profile_id m = Some (ip_id r))
                  (\<lambda>m. m\<lparr>md_identity_state := IdentityPending, md_identity_last_error := [],
                         md_identity_updated_at := now, md_updated_at := now\<rparr>) (managed_desktops d1)\<rparr>))))"

definition PutIdentityProfile :: "tx_fault \<Rightarrow> time \<Rightarrow> IdentityProfile \<Rightarrow> db \<Rightarrow> db \<times> (err + IdentityProfile)" where
  "PutIdentityProfile fault now p d = run_tx fault (put_profile_tx now p) d"

text \<open>
  \<open>markManagedDesktopIdentity\<close> cuts the message to 500 bytes.  A cut inside a character leaves text the
  database refuses.
\<close>

definition mark_identity_tx ::
  "time \<Rightarrow> int \<Rightarrow> identity_state \<Rightarrow> string \<Rightarrow> string \<Rightarrow> db \<Rightarrow> err + (ManagedDesktop \<times> db)" where
  "mark_identity_tx now vmid state applied message d =
     bindE (guardE (SqlErr CharacterNotInRepertoire) (utf8_valid message)) (\<lambda>_.
       update_desktop vmid (\<lambda>m. m\<lparr>md_identity_state := state, md_applied_identity_profile_id := nullif applied,
         md_identity_last_error := message, md_identity_updated_at := now, md_updated_at := now\<rparr>) d)"

definition markManagedDesktopIdentity ::
  "tx_fault \<Rightarrow> time \<Rightarrow> int \<Rightarrow> identity_state \<Rightarrow> string \<Rightarrow> string \<Rightarrow> db \<Rightarrow> db \<times> (err + ManagedDesktop)" where
  "markManagedDesktopIdentity fault now vmid state applied message d =
     run_tx fault (mark_identity_tx now vmid state applied (take 500 message)) d"

definition MarkManagedDesktopIdentityApplied ::
  "tx_fault \<Rightarrow> time \<Rightarrow> int \<Rightarrow> string \<Rightarrow> db \<Rightarrow> db \<times> (err + ManagedDesktop)" where
  "MarkManagedDesktopIdentityApplied fault now vmid profile d =
     markManagedDesktopIdentity fault now vmid IdentityApplied profile [] d"

definition MarkManagedDesktopIdentityRestartRequired ::
  "tx_fault \<Rightarrow> time \<Rightarrow> int \<Rightarrow> string \<Rightarrow> db \<Rightarrow> db \<times> (err + ManagedDesktop)" where
  "MarkManagedDesktopIdentityRestartRequired fault now vmid profile d =
     markManagedDesktopIdentity fault now vmid IdentityRestartRequired profile [] d"

definition MarkManagedDesktopIdentityFailed ::
  "tx_fault \<Rightarrow> time \<Rightarrow> int \<Rightarrow> string \<Rightarrow> db \<Rightarrow> db \<times> (err + ManagedDesktop)" where
  "MarkManagedDesktopIdentityFailed fault now vmid message d =
     markManagedDesktopIdentity fault now vmid IdentityFailed [] message d"

section \<open>Groups\<close>

fun source_text :: "group_source \<Rightarrow> string" where
  "source_text SourceLocal = ''local''"
| "source_text SourceOidc = ''oidc''"
| "source_text SourceScim = ''scim''"

definition member_count :: "db \<Rightarrow> string \<Rightarrow> nat" where
  "member_count d gid = length (filter (\<lambda>m. m_group_id m = gid) (identity_group_memberships d))"

definition IdentityGroups ::
  "(string \<Rightarrow> string \<Rightarrow> bool) \<Rightarrow> (string \<Rightarrow> string) \<Rightarrow> tx_fault \<Rightarrow> db \<Rightarrow> err + (IdentityGroup \<times> nat) list" where
  "IdentityGroups coll sql_lower fault d =
     run_query fault (\<lambda>d. Inr (map (\<lambda>g. (g, member_count d (g_id g))) (order_by
       (then_by (by_key coll (\<lambda>g. source_text (g_source g)))
         (then_by (by_key coll (\<lambda>g. sql_lower (g_display_name g))) (by_key coll g_id))) (identity_groups d)))) d"

definition provider_ref_ok :: "db \<Rightarrow> string option \<Rightarrow> bool" where
  "provider_ref_ok d r \<longleftrightarrow> (case r of None \<Rightarrow> True | Some pid \<Rightarrow> list_ex (\<lambda>p. op_id p = pid) (oidc_providers d))"

text \<open>The primary key and \<open>UNIQUE(provider_id, external_id)\<close>, in which NULL differs from NULL.\<close>

definition group_clash :: "IdentityGroup \<Rightarrow> IdentityGroup \<Rightarrow> bool" where
  "group_clash a b \<longleftrightarrow>
     g_id a = g_id b \<or>
     (g_provider_id a \<noteq> None \<and> g_external_id a \<noteq> None \<and> g_provider_id a = g_provider_id b \<and> g_external_id a = g_external_id b)"

definition put_group_tx :: "time \<Rightarrow> IdentityGroup \<Rightarrow> db \<Rightarrow> err + (IdentityGroup \<times> db)" where
  "put_group_tx now g d =
     (let row = g\<lparr>g_provider_id := nullif (coalesce (g_provider_id g)), g_external_id := nullif (coalesce (g_external_id g)),
                  g_created_by := nullif (coalesce (g_created_by g)), g_created_at := now, g_updated_at := now\<rparr>
      in bindE (guardE (SqlErr UniqueViolation) (\<not> list_ex (group_clash row) (identity_groups d))) (\<lambda>_.
         bindE (guardE (SqlErr ForeignKeyViolation) (provider_ref_ok d (g_provider_id row) \<and> user_ref_ok d (g_created_by row))) (\<lambda>_.
           Inr (row, d\<lparr>identity_groups := identity_groups d @ [row]\<rparr>))))"

definition PutIdentityGroup :: "tx_fault \<Rightarrow> time \<Rightarrow> IdentityGroup \<Rightarrow> db \<Rightarrow> db \<times> (err + IdentityGroup)" where
  "PutIdentityGroup fault now g d =
     (let (d', r) = run_tx fault (put_group_tx now g) d in (d', mapErr unique_conflict r))"

definition group_enabled_tx :: "time \<Rightarrow> string \<Rightarrow> bool \<Rightarrow> db \<Rightarrow> err + ((IdentityGroup \<times> nat) \<times> db)" where
  "group_enabled_tx now gid enabled d =
     (let f = (\<lambda>g. g\<lparr>g_enabled := enabled, g_updated_at := now\<rparr>)
      in bindE (query_row ErrNotFound (\<lambda>g. g_id g = gid) (identity_groups d)) (\<lambda>g.
           Inr ((f g, member_count d gid), d\<lparr>identity_groups := upd_where (\<lambda>g. g_id g = gid) f (identity_groups d)\<rparr>)))"

definition SetIdentityGroupEnabled ::
  "tx_fault \<Rightarrow> time \<Rightarrow> string \<Rightarrow> bool \<Rightarrow> db \<Rightarrow> db \<times> (err + (IdentityGroup \<times> nat))" where
  "SetIdentityGroupEnabled fault now gid enabled d = run_tx fault (access_tx now (group_enabled_tx now gid enabled)) d"

definition IdentityGroupMemberships ::
  "(string \<Rightarrow> string \<Rightarrow> bool) \<Rightarrow> tx_fault \<Rightarrow> db \<Rightarrow> err + IdentityGroupMembership list" where
  "IdentityGroupMemberships coll fault d =
     run_query fault (\<lambda>d. Inr (order_by (then_by (by_key coll m_group_id) (by_key coll m_user_id))
       (identity_group_memberships d))) d"

text \<open>\<open>INSERT INTO identity_group_memberships ... ON CONFLICT DO UPDATE\<close>\<close>

definition member_of :: "string \<Rightarrow> string \<Rightarrow> IdentityGroupMembership \<Rightarrow> bool" where
  "member_of gid uid m \<longleftrightarrow> m_group_id m = gid \<and> m_user_id m = uid"

definition upsert_membership ::
  "time \<Rightarrow> string \<Rightarrow> string \<Rightarrow> group_source \<Rightarrow> db \<Rightarrow> err + (IdentityGroupMembership \<times> db)" where
  "upsert_membership now gid uid source d =
     (let row = \<lparr>m_group_id = gid, m_user_id = uid, m_source = source, m_created_at = now, m_updated_at = now\<rparr>;
          f = (\<lambda>m. m\<lparr>m_source := source, m_updated_at := now\<rparr>)
      in case find (member_of gid uid) (identity_group_memberships d) of
           Some m \<Rightarrow> Inr (f m, d\<lparr>identity_group_memberships :=
                               upd_where (member_of gid uid) f (identity_group_memberships d)\<rparr>)
         | None \<Rightarrow> bindE (guardE (SqlErr ForeignKeyViolation)
                             (list_ex (\<lambda>u. u_id u = uid) (users d) \<and> list_ex (\<lambda>g. g_id g = gid) (identity_groups d))) (\<lambda>_.
                     Inr (row, d\<lparr>identity_group_memberships := identity_group_memberships d @ [row]\<rparr>)))"

text \<open>
  \<open>PutIdentityGroupMembership\<close>: the insert selects the group if it is not one of the identity provider's;
  when no row came back a second query tells why.  \<open>fault2\<close> is the driver on that query.
\<close>

definition put_membership_tx ::
  "time \<Rightarrow> IdentityGroupMembership \<Rightarrow> db \<Rightarrow> err + (IdentityGroupMembership option \<times> db)" where
  "put_membership_tx now m d =
     (if list_ex (\<lambda>g. g_id g = m_group_id m \<and> g_source g \<noteq> SourceOidc) (identity_groups d)
      then bindE (upsert_membership now (m_group_id m) (m_user_id m) (m_source m) d) (\<lambda>(r, d1). Inr (Some r, d1))
      else Inr (None, d))"

definition PutIdentityGroupMembership ::
  "tx_fault \<Rightarrow> tx_fault \<Rightarrow> time \<Rightarrow> IdentityGroupMembership \<Rightarrow> db \<Rightarrow> db \<times> (err + IdentityGroupMembership)" where
  "PutIdentityGroupMembership fault fault2 now m d =
     (let (d', r) = run_tx fault (put_membership_tx now m) d
      in (d', bindE (mapErr foreign_key_not_found r) (\<lambda>x. case x of
           Some row \<Rightarrow> Inr row
         | None \<Rightarrow> bindE (run_query fault2 (\<lambda>d. Inr (list_ex (\<lambda>g. g_id g = m_group_id m) (identity_groups d))) d')
                     (\<lambda>exists. Inl (if exists then ErrConflict else ErrNotFound)))))"

definition manual_member :: "string \<Rightarrow> string \<Rightarrow> IdentityGroupMembership \<Rightarrow> bool" where
  "manual_member gid uid m \<longleftrightarrow> member_of gid uid m \<and> m_source m \<noteq> SourceOidc"

definition delete_membership_tx :: "string \<Rightarrow> string \<Rightarrow> db \<Rightarrow> err + (bool \<times> db)" where
  "delete_membership_tx gid uid d =
     Inr (length (filter (manual_member gid uid) (identity_group_memberships d)) = 1,
          d\<lparr>identity_group_memberships := del_where (manual_member gid uid) (identity_group_memberships d)\<rparr>)"

definition DeleteIdentityGroupMembership ::
  "tx_fault \<Rightarrow> time \<Rightarrow> string \<Rightarrow> string \<Rightarrow> db \<Rightarrow> db \<times> (err + bool)" where
  "DeleteIdentityGroupMembership fault now gid uid d = run_tx fault (access_tx now (delete_membership_tx gid uid)) d"

text \<open>
  \<open>SyncOIDCGroupMemberships\<close>: a claimed group is its identifier, external identifier and display name.
  Each one is upserted by provider and external identifier, and the user becomes a member of the group
  that has them; memberships from the provider that are not claimed any more are deleted.
\<close>

type_synonym claimed_group = "string \<times> string \<times> string"

definition of_provider :: "string \<Rightarrow> string \<Rightarrow> IdentityGroup \<Rightarrow> bool" where
  "of_provider pid ext g \<longleftrightarrow> g_provider_id g = Some pid \<and> g_external_id g = Some ext"

definition upsert_oidc_group :: "time \<Rightarrow> string \<Rightarrow> claimed_group \<Rightarrow> db \<Rightarrow> err + db" where
  "upsert_oidc_group now pid c d =
     (case c of (gid, ext, name) \<Rightarrow>
        if list_ex (of_provider pid ext) (identity_groups d)
        then Inr (d\<lparr>identity_groups := upd_where (of_provider pid ext)
                      (\<lambda>g. g\<lparr>g_display_name := name, g_updated_at := now\<rparr>) (identity_groups d)\<rparr>)
        else bindE (guardE (SqlErr UniqueViolation) (\<not> list_ex (\<lambda>g. g_id g = gid) (identity_groups d))) (\<lambda>_.
             bindE (guardE (SqlErr ForeignKeyViolation) (provider_ref_ok d (Some pid))) (\<lambda>_.
               Inr (d\<lparr>identity_groups := identity_groups d @
                      [\<lparr>g_id = gid, g_provider_id = Some pid, g_external_id = Some ext, g_display_name = name,
                        g_source = SourceOidc, g_enabled = True, g_created_by = None, g_created_at = now,
                        g_updated_at = now\<rparr>]\<rparr>))))"

definition claim_ok :: "claimed_group \<Rightarrow> bool" where
  "claim_ok c \<longleftrightarrow> (case c of (gid, ext, name) \<Rightarrow> \<not> (gid = [] \<or> ext = [] \<or> name = []))"

definition sync_group :: "time \<Rightarrow> string \<Rightarrow> string \<Rightarrow> claimed_group \<Rightarrow> string list \<times> db \<Rightarrow> err + (string list \<times> db)" where
  "sync_group now pid uid c s =
     (case s of (ids, d) \<Rightarrow>
        bindE (guardE (ErrMsg ''OIDC group is invalid'') (claim_ok c)) (\<lambda>_.
        bindE (upsert_oidc_group now pid c d) (\<lambda>d1.
        bindE (query_row (ErrMsg ''no rows in result set'') (of_provider pid (fst (snd c))) (identity_groups d1)) (\<lambda>g.
        bindE (upsert_membership now (g_id g) uid SourceOidc d1) (\<lambda>(_, d2). Inr (ids @ [g_id g], d2))))))"

definition stale_member :: "db \<Rightarrow> string \<Rightarrow> string \<Rightarrow> string list \<Rightarrow> IdentityGroupMembership \<Rightarrow> bool" where
  "stale_member d pid uid ids m \<longleftrightarrow>
     list_ex (\<lambda>g. g_id g = m_group_id m \<and> g_provider_id g = Some pid) (identity_groups d) \<and>
     m_user_id m = uid \<and> m_source m = SourceOidc \<and> m_group_id m \<notin> set ids"

definition sync_tx :: "time \<Rightarrow> string \<Rightarrow> string \<Rightarrow> claimed_group list \<Rightarrow> db \<Rightarrow> err + (unit \<times> db)" where
  "sync_tx now pid uid groups d =
     bindE (foldE (sync_group now pid uid) groups ([], d)) (\<lambda>(ids, d1).
       Inr ((), d1\<lparr>identity_group_memberships :=
                   del_where (stale_member d1 pid uid ids) (identity_group_memberships d1)\<rparr>))"

definition SyncOIDCGroupMemberships ::
  "tx_fault \<Rightarrow> time \<Rightarrow> string \<Rightarrow> string \<Rightarrow> claimed_group list \<Rightarrow> db \<Rightarrow> db \<times> (err + unit)" where
  "SyncOIDCGroupMemberships fault now pid uid groups d = run_tx fault (access_tx now (sync_tx now pid uid groups)) d"

section \<open>Every operation keeps the fencing invariant\<close>

lemma image_upd_where: "(\<And>r. k (f r) = k r) \<Longrightarrow> k ` set (upd_where p f t) = k ` set t"
  unfolding set_upd_where image_image by (rule image_cong) auto

lemma same_authority_trans: "same_authority a b \<Longrightarrow> same_authority b c \<Longrightarrow> same_authority a c"
  by (auto simp: same_authority_def)

lemma same_authority_desktops:
  "md_vmid ` set (managed_desktops d) \<subseteq> md_vmid ` set ms \<Longrightarrow> same_authority d (d\<lparr>managed_desktops := ms\<rparr>)"
  by (simp add: same_authority_def)

lemma same_authority_tables [simp]:
  "same_authority d (d\<lparr>user_desktop_assignments := ua\<rparr>)" "same_authority d (d\<lparr>agent_desktop_assignments := aa\<rparr>)"
  "same_authority d (d\<lparr>group_desktop_assignments := ga\<rparr>)" "same_authority d (d\<lparr>identity_groups := gs\<rparr>)"
  "same_authority d (d\<lparr>identity_group_memberships := ms\<rparr>)" "same_authority d (d\<lparr>agent_principals := ps\<rparr>)"
  by (simp_all add: same_authority_def)

lemma upsert_desktop_authority: "same_authority d (upsert_desktop ulower now i d)"
  unfolding upsert_desktop_def
  by (rule same_authority_desktops) (auto simp: image_upd_where [of md_vmid] seen_desktop_def Let_def)

lemma reconcile_tx_authority:
  assumes "reconcile_tx ulower now desktops d = Inr (x, d')"
  shows "same_authority d d'"
proof -
  let ?d = "d\<lparr>managed_desktops := upd_where md_present (\<lambda>m. m\<lparr>md_present := False, md_updated_at := now\<rparr>) (managed_desktops d)\<rparr>"
  let ?f = "\<lambda>i d. bindE (guardE desktop_invalid (desktop_input_ok i)) (\<lambda>_. Inr (upsert_desktop ulower now i d))"
  have fold: "foldE ?f desktops ?d = Inr d'" using assms by (auto simp: reconcile_tx_def bindE_eq_Inr)
  have start: "same_authority d ?d"
    by (rule same_authority_desktops) (simp add: image_upd_where [of md_vmid])
  show ?thesis
    by (rule foldE_preserves [where P = "same_authority d", OF _ start fold])
      (auto simp: bindE_eq_Inr guardE_eq_Inr intro: same_authority_trans upsert_desktop_authority)
qed

lemma quarantine_tx_authority: "quarantine_tx ulower now i d = Inr (x, d') \<Longrightarrow> same_authority d d'"
  unfolding quarantine_tx_def
  by (auto intro!: same_authority_desktops simp: image_upd_where [of md_vmid])

lemma update_desktop_authority:
  assumes "update_desktop vmid f d = Inr (x, d')" "\<And>m. md_vmid (f m) = md_vmid m"
  shows "same_authority d d'"
  using assms by (auto simp: update_desktop_def bindE_eq_Inr image_upd_where [of md_vmid] intro!: same_authority_desktops)

lemma desktop_identity_tx_authority:
  "desktop_identity_tx now vmid mode owner profile d = Inr (x, d') \<Longrightarrow> same_authority d d'"
  by (cases mode) (auto simp: desktop_identity_tx_def update_desktop_def bindE_eq_Inr mapErr_eq_Inr same_authority_def
      image_upd_where [of md_vmid] simp del: image_subset_iff)

lemma own_desktop_tx_authority: "own_desktop_tx now a owner d = Inr (x, d') \<Longrightarrow> same_authority d d'"
  by (auto simp: own_desktop_tx_def bindE_eq_Inr mapErr_eq_Inr split: if_splits dest!: update_desktop_authority)

lemma put_assignment_tx_authority: "put_assignment_tx now a d = Inr (x, d') \<Longrightarrow> same_authority d d'"
  by (auto simp: put_assignment_tx_def bindE_eq_Inr mapErr_eq_Inr guardE_eq_Inr split: if_splits
      intro: own_desktop_tx_authority)

lemma disown_authority:
  "same_authority d (d\<lparr>managed_desktops := upd_where p (\<lambda>m. m\<lparr>md_owner_user_id := x, md_updated_at := now\<rparr>) (managed_desktops d)\<rparr>)"
  by (rule same_authority_desktops) (simp add: image_upd_where [of md_vmid])

lemma delete_user_assignment_tx_cases:
  assumes "delete_user_assignment_tx now sid vmid d = Inr (x, d')"
  shows "d' = d \<or>
    d' = d\<lparr>managed_desktops := upd_where (\<lambda>m. md_vmid m = vmid \<and> md_owner_user_id m = Some sid)
           (\<lambda>m. m\<lparr>md_owner_user_id := None, md_updated_at := now\<rparr>) (managed_desktops d)\<rparr> \<or>
    d' = d\<lparr>user_desktop_assignments := del_where (assigned sid vmid) (user_desktop_assignments d)\<rparr>"
proof -
  from assms obtain m :: ManagedDesktop where e: "(if md_access_mode m = Personal then
         (if coalesce (md_owner_user_id m) \<noteq> sid then Inr (False, d)
          else let p = (\<lambda>m. md_vmid m = vmid \<and> md_owner_user_id m = Some sid)
               in Inr (length (filter p (managed_desktops d)) = 1,
                       d\<lparr>managed_desktops := upd_where p (\<lambda>m. m\<lparr>md_owner_user_id := None, md_updated_at := now\<rparr>)
                            (managed_desktops d)\<rparr>))
       else Inr (length (filter (assigned sid vmid) (user_desktop_assignments d)) = 1,
                 d\<lparr>user_desktop_assignments := del_where (assigned sid vmid) (user_desktop_assignments d)\<rparr>)) = (Inr (x, d') :: err + _)"
    unfolding delete_user_assignment_tx_def bindE_eq_Inr by blast
  show ?thesis
    by (cases "md_access_mode m = Personal"; cases "coalesce (md_owner_user_id m) = sid")
      (use e in \<open>simp_all only: if_True if_False Let_def sum.inject prod.inject not_True_eq_False not_False_eq_True simp_thms\<close>)
qed

lemma delete_user_assignment_tx_authority:
  assumes "delete_user_assignment_tx now sid vmid d = Inr (x, d')"
  shows "same_authority d d'"
  using delete_user_assignment_tx_cases [OF assms] disown_authority by (elim disjE) simp_all

lemma group_enabled_tx_authority: "group_enabled_tx now gid enabled d = Inr (x, d') \<Longrightarrow> same_authority d d'"
  by (auto simp: group_enabled_tx_def bindE_eq_Inr Let_def same_authority_def)

lemma delete_membership_tx_authority: "delete_membership_tx gid uid d = Inr (x, d') \<Longrightarrow> same_authority d d'"
  by (auto simp: delete_membership_tx_def same_authority_def)

lemma upsert_membership_authority: "upsert_membership now gid uid source d = Inr (x, d') \<Longrightarrow> same_authority d d'"
  by (auto simp: upsert_membership_def bindE_eq_Inr Let_def same_authority_def split: option.splits)

lemma upsert_oidc_group_authority: "upsert_oidc_group now pid c d = Inr d' \<Longrightarrow> same_authority d d'"
  by (auto simp: upsert_oidc_group_def bindE_eq_Inr same_authority_def split: prod.splits if_splits)

lemma sync_group_authority:
  "sync_group now pid uid c (ids, d) = Inr (ids', d') \<Longrightarrow> same_authority d d'"
  by (auto simp: sync_group_def bindE_eq_Inr dest!: upsert_oidc_group_authority upsert_membership_authority
      elim: same_authority_trans)

lemma sync_tx_authority:
  assumes "sync_tx now pid uid groups d = Inr (x, d')"
  shows "same_authority d d'"
proof -
  from assms obtain ids d1 where fold: "foldE (sync_group now pid uid) groups ([], d) = Inr (ids, d1)"
    and d': "d' = d1\<lparr>identity_group_memberships := del_where (stale_member d1 pid uid ids) (identity_group_memberships d1)\<rparr>"
    by (auto simp: sync_tx_def bindE_eq_Inr)
  have "same_authority d (snd (ids, d1))"
    by (rule foldE_preserves [where P = "\<lambda>s. same_authority d (snd s)", OF _ _ fold])
      (auto dest!: sync_group_authority elim: same_authority_trans)
  then show ?thesis by (simp add: d' same_authority_def)
qed

lemma delete_agent_assignment_tx_cases:
  assumes "delete_agent_assignment_tx now sid vmid d = Inr (x, d')"
  defines "d1 \<equiv> d\<lparr>agent_desktop_assignments := del_where (assigned sid vmid) (agent_desktop_assignments d)\<rparr>"
  shows "d' = d1 \<or> (\<exists>rs. update_leases now (\<lambda>l. l_state l = LeaseActive \<and> (l_agent_id l = sid \<and> l_desktop_id l = Itoa vmid))
                       (close_lease_as LeaseRevoked now) d1 = Inr (rs, d'))"
  using assms(1) unfolding d1_def by (auto simp: delete_agent_assignment_tx_def Let_def bindE_eq_Inr split: if_splits)

lemma delete_agent_assignment_tx_fenced:
  assumes "fenced d" "delete_agent_assignment_tx now sid vmid d = Inr (x, d')"
  shows "fenced d'" and "agent_desktop_assignments d' = del_where (assigned sid vmid) (agent_desktop_assignments d)"
proof -
  let ?d = "d\<lparr>agent_desktop_assignments := del_where (assigned sid vmid) (agent_desktop_assignments d)\<rparr>"
  have f: "fenced ?d" by (rule same_authority_fenced [OF _ assms(1)]) simp
  show "fenced d'" using delete_agent_assignment_tx_cases [OF assms(2)]
    by (elim disjE exE) (simp add: f, erule update_leases_fenced(1) [OF closes_revoked f])
  show "agent_desktop_assignments d' = del_where (assigned sid vmid) (agent_desktop_assignments d)"
    using delete_agent_assignment_tx_cases [OF assms(2)]
  proof (elim disjE exE)
    fix rs
    assume "update_leases now (\<lambda>l. l_state l = LeaseActive \<and> (l_agent_id l = sid \<and> l_desktop_id l = Itoa vmid))
                       (close_lease_as LeaseRevoked now) ?d = Inr (rs, d')"
    from closed_as_grants [OF update_leases_fenced(2) [OF closes_revoked f this]] show ?thesis
      by (simp add: same_grants_def)
  qed simp
qed

lemma delete_assignment_tx_fenced:
  assumes "fenced d" "delete_assignment_tx now kind sid vmid d = Inr (x, d')"
  shows "fenced d'"
proof -
  consider "delete_user_assignment_tx now sid vmid d = Inr (x, d')" | "delete_agent_assignment_tx now sid vmid d = Inr (x, d')"
    | "d' = d\<lparr>group_desktop_assignments := del_where (assigned sid vmid) (group_desktop_assignments d)\<rparr>"
    using assms(2) unfolding delete_assignment_tx_def by (metis prod.inject sum.distinct(1) sum.inject(2))
  then show ?thesis
  proof cases
    case 1
    show ?thesis by (rule same_authority_fenced [OF delete_user_assignment_tx_authority [OF 1] assms(1)])
  next
    case 2
    show ?thesis by (rule delete_agent_assignment_tx_fenced(1) [OF assms(1) 2])
  next
    case 3
    show ?thesis unfolding 3 by (rule same_authority_fenced [OF same_authority_tables(3) assms(1)])
  qed
qed

definition with_agent_enabled :: "time \<Rightarrow> string \<Rightarrow> bool \<Rightarrow> db \<Rightarrow> db" where
  "with_agent_enabled now aid enabled d =
     d\<lparr>agent_principals := upd_where (\<lambda>a. ap_id a = aid) (\<lambda>a. a\<lparr>ap_enabled := enabled, ap_updated_at := now\<rparr>)
         (agent_principals d)\<rparr>"

lemma agent_enabled_tx_cases:
  "agent_enabled_tx now aid True d = Inr (x, d') \<Longrightarrow> d' = with_agent_enabled now aid True d"
  "agent_enabled_tx now aid False d = Inr (x, d') \<Longrightarrow>
     \<exists>rs. update_leases now (\<lambda>l. l_state l = LeaseActive \<and> l_agent_id l = aid) (close_lease_as LeaseRevoked now)
            (with_agent_enabled now aid False d) = Inr (rs, d')"
  by (auto simp: agent_enabled_tx_def update_agent_def bindE_eq_Inr with_agent_enabled_def)

lemma agent_enabled_tx_fenced:
  assumes "fenced d" "agent_enabled_tx now aid enabled d = Inr (x, d')"
  shows "fenced d'"
proof -
  have f: "fenced (with_agent_enabled now aid enabled d)"
    unfolding with_agent_enabled_def by (rule same_authority_fenced [OF _ assms(1)]) simp
  show ?thesis
  proof (cases enabled)
    case True
    with agent_enabled_tx_cases(1) assms(2) f show ?thesis by auto
  next
    case False
    with assms(2) have off: "agent_enabled_tx now aid False d = Inr (x, d')" by simp
    from agent_enabled_tx_cases(2) [OF off] False obtain rs where
      "update_leases now (\<lambda>l. l_state l = LeaseActive \<and> l_agent_id l = aid) (close_lease_as LeaseRevoked now)
         (with_agent_enabled now aid enabled d) = Inr (rs, d')" by auto
    then show ?thesis by (rule update_leases_fenced(1) [OF closes_revoked f])
  qed
qed

lemmas desktop_tx_authority = reconcile_tx_authority quarantine_tx_authority desktop_identity_tx_authority
  put_assignment_tx_authority group_enabled_tx_authority delete_membership_tx_authority sync_tx_authority

lemma desktop_access_fenced:
  assumes "fenced d"
  shows "fenced (fst (ReconcileManagedDesktops ulower fault now desktops d))"
    "fenced (fst (QuarantineClonedDesktop ulower fault now i d))"
    "fenced (fst (UpdateManagedDesktopIdentity fault now vmid mode owner profile d))"
    "fenced (fst (PutDesktopAssignment fault now a d))"
    "fenced (fst (DeleteDesktopAssignment fault now kind sid vmid d))"
    "fenced (fst (SetIdentityGroupEnabled fault now gid enabled d))"
    "fenced (fst (DeleteIdentityGroupMembership fault now gid uid d))"
    "fenced (fst (SyncOIDCGroupMemberships fault now pid uid groups d))"
    "fenced (fst (SetAgentEnabled fault now aid enabled d))"
proof -
  have body: "fenced d1" if "same_authority d d1" for d1 by (rule same_authority_fenced [OF that assms])
  have mode: "fenced (fst (run_tx fault (access_tx now (desktop_identity_tx now vmid m owner profile)) d))" for m
    by (rule run_access_fenced [OF assms]) (rule body [OF desktop_identity_tx_authority])
  show "fenced (fst (ReconcileManagedDesktops ulower fault now desktops d))"
    unfolding ReconcileManagedDesktops_def
    by (rule run_access_fenced [OF assms]) (rule body [OF reconcile_tx_authority])
  have "fenced (fst (run_tx fault (access_tx now (quarantine_tx ulower now i)) d))"
    by (rule run_access_fenced [OF assms]) (rule body [OF quarantine_tx_authority])
  then show "fenced (fst (QuarantineClonedDesktop ulower fault now i d))"
    using assms by (simp add: QuarantineClonedDesktop_def)
  show "fenced (fst (UpdateManagedDesktopIdentity fault now vmid mode owner profile d))"
    using assms mode by (simp add: UpdateManagedDesktopIdentity_def)
  show "fenced (fst (PutDesktopAssignment fault now a d))"
    unfolding PutDesktopAssignment_def
    by (rule run_access_fenced [OF assms]) (rule body [OF put_assignment_tx_authority])
  show "fenced (fst (DeleteDesktopAssignment fault now kind sid vmid d))"
    unfolding DeleteDesktopAssignment_def
    by (rule run_access_fenced [OF assms]) (rule delete_assignment_tx_fenced [OF assms])
  show "fenced (fst (SetIdentityGroupEnabled fault now gid enabled d))"
    unfolding SetIdentityGroupEnabled_def
    by (rule run_access_fenced [OF assms]) (rule body [OF group_enabled_tx_authority])
  show "fenced (fst (DeleteIdentityGroupMembership fault now gid uid d))"
    unfolding DeleteIdentityGroupMembership_def
    by (rule run_access_fenced [OF assms]) (rule body [OF delete_membership_tx_authority])
  show "fenced (fst (SyncOIDCGroupMemberships fault now pid uid groups d))"
    unfolding SyncOIDCGroupMemberships_def
    by (rule run_access_fenced [OF assms]) (rule body [OF sync_tx_authority])
  show "fenced (fst (SetAgentEnabled fault now aid enabled d))"
    unfolding SetAgentEnabled_def by (rule run_tx_fenced [OF assms]) (rule agent_enabled_tx_fenced [OF assms])
qed

lemma desktop_frames:
  "same_authority d (fst (UpsertManagedDesktop ulower fault now i d))"
  "same_authority d (fst (CreateAgentPrincipal fault now agent digest d))"
  "same_authority d (fst (RotateAgentToken fault now aid digest d))"
  "same_authority d (fst (AgentByTokenDigest fault now digest d))"
  "same_authority d (fst (PutIdentityGroup fault now g d))"
  "same_authority d (fst (PutIdentityGroupMembership fault fault2 now m d))"
  "same_authority d (fst (markManagedDesktopIdentity fault now vmid state applied message d))"
proof -
  show "same_authority d (fst (UpsertManagedDesktop ulower fault now i d))"
    by (auto simp: UpsertManagedDesktop_def upsert_desktop_authority intro!: run_tx_same_authority)
  show "same_authority d (fst (CreateAgentPrincipal fault now agent digest d))"
    by (auto simp: CreateAgentPrincipal_def insert_agent_def run_tx_def bindE_def guardE_def Let_def split: sum.splits prod.splits)
  show "same_authority d (fst (RotateAgentToken fault now aid digest d))"
    by (auto simp: RotateAgentToken_def rotate_tx_def update_agent_def bindE_eq_Inr intro!: run_tx_same_authority)
  show "same_authority d (fst (AgentByTokenDigest fault now digest d))"
    by (auto simp: AgentByTokenDigest_def update_agent_def bindE_eq_Inr intro!: run_tx_same_authority)
  show "same_authority d (fst (PutIdentityGroup fault now g d))"
    by (auto simp: PutIdentityGroup_def put_group_tx_def run_tx_def bindE_def guardE_def Let_def split: sum.splits prod.splits)
  have "same_authority d (fst (run_tx fault (put_membership_tx now m) d))"
    by (rule run_tx_same_authority)
      (auto simp: put_membership_tx_def bindE_eq_Inr split: if_splits intro: upsert_membership_authority)
  then show "same_authority d (fst (PutIdentityGroupMembership fault fault2 now m d))"
    by (simp add: PutIdentityGroupMembership_def Let_def split_beta)
  show "same_authority d (fst (markManagedDesktopIdentity fault now vmid state applied message d))"
    unfolding markManagedDesktopIdentity_def
    by (rule run_tx_same_authority) (auto simp: mark_identity_tx_def bindE_eq_Inr dest!: update_desktop_authority)
qed

lemma put_profile_tx_authority: "put_profile_tx now p d = Inr (x, d') \<Longrightarrow> same_authority d d'"
  by (auto simp: put_profile_tx_def Let_def bindE_eq_Inr same_authority_def image_upd_where [of md_vmid]
      split: option.splits simp del: image_subset_iff)

lemma PutIdentityProfile_authority: "same_authority d (fst (PutIdentityProfile fault now p d))"
  unfolding PutIdentityProfile_def by (rule run_tx_same_authority) (rule put_profile_tx_authority)

section \<open>What an authorization change leaves behind\<close>

lemma access_change_settles:
  assumes "fenced d"
  shows "SetUserDisabled fault now uid disabled d = (d', Inr acc) \<Longrightarrow> settled d'"
    and "SetUserPassword fault now uid hash retained d = (d', Inr acc) \<Longrightarrow> settled d'"
    and "ReconcileManagedDesktops ulower fault now desktops d = (d', Inr unit) \<Longrightarrow> settled d'"
    and "QuarantineClonedDesktop ulower fault now i d = (d', Inr unit) \<Longrightarrow> settled d'"
    and "UpdateManagedDesktopIdentity fault now vmid mode owner profile d = (d', Inr m) \<Longrightarrow> settled d'"
    and "PutDesktopAssignment fault now a d = (d', Inr b) \<Longrightarrow> settled d'"
    and "DeleteDesktopAssignment fault now kind sid vmid d = (d', Inr b) \<Longrightarrow> settled d'"
    and "SetIdentityGroupEnabled fault now gid enabled d = (d', Inr g) \<Longrightarrow> settled d'"
    and "DeleteIdentityGroupMembership fault now gid uid d = (d', Inr b) \<Longrightarrow> settled d'"
    and "SyncOIDCGroupMemberships fault now pid uid groups d = (d', Inr unit) \<Longrightarrow> settled d'"
proof -
  note body = same_authority_fenced [OF _ assms]
  show "SetUserDisabled fault now uid disabled d = (d', Inr acc) \<Longrightarrow> settled d'"
    unfolding SetUserDisabled_def by (erule run_access_settled [rotated]) (rule body [OF disable_user_tx_authority])
  show "SetUserPassword fault now uid hash retained d = (d', Inr acc) \<Longrightarrow> settled d'"
    unfolding SetUserPassword_def
    by (simp split: if_splits, erule run_access_settled [rotated], rule body [OF password_tx_authority])
  show "ReconcileManagedDesktops ulower fault now desktops d = (d', Inr unit) \<Longrightarrow> settled d'"
    unfolding ReconcileManagedDesktops_def
    by (erule run_access_settled [rotated]) (rule body [OF reconcile_tx_authority])
  show "QuarantineClonedDesktop ulower fault now i d = (d', Inr unit) \<Longrightarrow> settled d'"
    unfolding QuarantineClonedDesktop_def
    by (simp split: if_splits, erule run_access_settled [rotated], rule body [OF quarantine_tx_authority])
  show "UpdateManagedDesktopIdentity fault now vmid mode owner profile d = (d', Inr m) \<Longrightarrow> settled d'"
    unfolding UpdateManagedDesktopIdentity_def
    by (simp split: if_splits; erule run_access_settled [rotated], rule body [OF desktop_identity_tx_authority])
  show "PutDesktopAssignment fault now a d = (d', Inr b) \<Longrightarrow> settled d'"
    unfolding PutDesktopAssignment_def
    by (erule run_access_settled [rotated]) (rule body [OF put_assignment_tx_authority])
  show "DeleteDesktopAssignment fault now kind sid vmid d = (d', Inr b) \<Longrightarrow> settled d'"
    unfolding DeleteDesktopAssignment_def
    by (erule run_access_settled [rotated]) (rule delete_assignment_tx_fenced [OF assms])
  show "SetIdentityGroupEnabled fault now gid enabled d = (d', Inr g) \<Longrightarrow> settled d'"
    unfolding SetIdentityGroupEnabled_def
    by (erule run_access_settled [rotated]) (rule body [OF group_enabled_tx_authority])
  show "DeleteIdentityGroupMembership fault now gid uid d = (d', Inr b) \<Longrightarrow> settled d'"
    unfolding DeleteIdentityGroupMembership_def
    by (erule run_access_settled [rotated]) (rule body [OF delete_membership_tx_authority])
  show "SyncOIDCGroupMemberships fault now pid uid groups d = (d', Inr unit) \<Longrightarrow> settled d'"
    unfolding SyncOIDCGroupMemberships_def
    by (erule run_access_settled [rotated]) (rule body [OF sync_tx_authority])
qed


section \<open>Reconciling the inventory\<close>

lemma reconcile_fold:
  assumes "foldE (\<lambda>i d. bindE (guardE desktop_invalid (desktop_input_ok i)) (\<lambda>_. Inr (upsert_desktop ulower now i d))) xs d = Inr d'"
  shows "d' = fold (upsert_desktop ulower now) xs d"
  using assms by (induction xs arbitrary: d) (auto simp: bindE_eq_Inr)

text \<open>What a sequence of upserts does to the table, for a set \<open>P\<close> of desktops that are present.\<close>

definition presence :: "int set \<Rightarrow> ManagedDesktop list \<Rightarrow> bool" where
  "presence P t \<longleftrightarrow> (\<forall>m \<in> set t. md_present m \<longleftrightarrow> md_vmid m \<in> P)"

definition keeps_desktop :: "ManagedDesktop \<Rightarrow> ManagedDesktop \<Rightarrow> bool" where
  "keeps_desktop m m' \<longleftrightarrow>
     md_vmid m' = md_vmid m \<and> md_enabled m' = md_enabled m \<and> md_access_mode m' = md_access_mode m \<and>
     md_owner_user_id m' = md_owner_user_id m \<and> md_identity_profile_id m' = md_identity_profile_id m \<and>
     (md_os_family m \<noteq> OsUnknown \<longrightarrow> md_os_family m' \<noteq> OsUnknown)"

lemma keeps_desktop_trans: "keeps_desktop a b \<Longrightarrow> keeps_desktop b c \<Longrightarrow> keeps_desktop a c"
  by (simp add: keeps_desktop_def)

lemma upsert_desktop_effect:
  assumes t_def: "t = managed_desktops d" and t'_def: "t' = managed_desktops (upsert_desktop ulower now i d)"
  shows "presence P t \<Longrightarrow> presence (insert (di_vmid i) P) t'"
    and "md_vmid ` set t' = insert (di_vmid i) (md_vmid ` set t)"
    and "unique_by md_vmid t \<Longrightarrow> unique_by md_vmid t'"
    and "m \<in> set t \<Longrightarrow> \<exists>m' \<in> set t'. keeps_desktop m m'"
    and "m' \<in> set t' \<Longrightarrow> (\<exists>m \<in> set t. keeps_desktop m m') \<or>
           (md_enabled m' \<and> md_access_mode m' = Personal \<and> md_owner_user_id m' = None)"
proof -
  have seen: "md_vmid (seen_desktop ulower now i m) = md_vmid m" "md_present (seen_desktop ulower now i m)"
    "keeps_desktop m (seen_desktop ulower now i m)" for m
    by (simp_all add: seen_desktop_def Let_def keeps_desktop_def)
  have new: "md_vmid (new_desktop ulower now i True) = di_vmid i" "md_present (new_desktop ulower now i True)"
    "md_enabled (new_desktop ulower now i True)" "md_access_mode (new_desktop ulower now i True) = Personal"
    "md_owner_user_id (new_desktop ulower now i True) = None"
    by (simp_all add: new_desktop_def)
  have refl: "keeps_desktop m m" for m by (simp add: keeps_desktop_def)
  show "presence P t \<Longrightarrow> presence (insert (di_vmid i) P) t'"
    by (auto simp: presence_def t_def t'_def upsert_desktop_def ball_upd_where seen new list_ex_iff)
  show "md_vmid ` set t' = insert (di_vmid i) (md_vmid ` set t)"
    by (auto simp: t_def t'_def upsert_desktop_def image_upd_where [of md_vmid] seen new list_ex_iff intro: image_eqI [OF sym])
  show "unique_by md_vmid t \<Longrightarrow> unique_by md_vmid t'"
    by (auto simp: t_def t'_def upsert_desktop_def map_upd_where_key seen new list_ex_iff)
  show "m \<in> set t \<Longrightarrow> \<exists>m' \<in> set t'. keeps_desktop m m'"
    using seen(3) refl by (fastforce simp: t_def t'_def upsert_desktop_def bex_upd_where)
  show "m' \<in> set t' \<Longrightarrow> (\<exists>m \<in> set t. keeps_desktop m m') \<or>
           (md_enabled m' \<and> md_access_mode m' = Personal \<and> md_owner_user_id m' = None)"
    using seen(3) refl by (auto simp: t_def t'_def upsert_desktop_def in_upd_where new split: if_splits)
qed

lemma fold_upsert_effect:
  assumes "unique_by md_vmid (managed_desktops d)" "presence P (managed_desktops d)"
  shows "presence (P \<union> di_vmid ` set xs) (managed_desktops (fold (upsert_desktop ulower now) xs d)) \<and>
         unique_by md_vmid (managed_desktops (fold (upsert_desktop ulower now) xs d)) \<and>
         md_vmid ` set (managed_desktops (fold (upsert_desktop ulower now) xs d)) =
           md_vmid ` set (managed_desktops d) \<union> di_vmid ` set xs \<and>
         (\<forall>m \<in> set (managed_desktops d). \<exists>m' \<in> set (managed_desktops (fold (upsert_desktop ulower now) xs d)). keeps_desktop m m')"
  using assms
proof (induction xs arbitrary: d P)
  case Nil
  have "keeps_desktop m m" for m by (simp add: keeps_desktop_def)
  with Nil show ?case by auto
next
  case (Cons i xs)
  let ?d = "upsert_desktop ulower now i d"
  note step = upsert_desktop_effect [OF refl [of "managed_desktops d"] refl [of "managed_desktops ?d"]]
  note ih = Cons.IH [of ?d "insert (di_vmid i) P", OF step(3) [OF Cons.prems(1)] step(1) [OF Cons.prems(2)]]
  have "\<exists>m' \<in> set (managed_desktops (fold (upsert_desktop ulower now) xs ?d)). keeps_desktop m m'"
    if m: "m \<in> set (managed_desktops d)" for m
    using step(4) [OF m] ih keeps_desktop_trans by meson
  with ih show ?case by (simp add: step(2))
qed

text \<open>
  C15. Reconciling the inventory makes the table agree with what was observed: exactly the listed desktops
  are present, no row is ever lost or duplicated, and for the rows that were there the switch that enables
  them, their access mode, owner and identity profile, and a platform that was known, are kept.
\<close>

theorem ReconcileManagedDesktops_inventory:
  assumes "fenced d" "unique_by md_vmid (managed_desktops d)"
    and "ReconcileManagedDesktops ulower fault now desktops d = (d', Inr u)"
  shows "(\<forall>m \<in> set (managed_desktops d'). md_present m \<longleftrightarrow> md_vmid m \<in> di_vmid ` set desktops) \<and>
         unique_by md_vmid (managed_desktops d') \<and>
         md_vmid ` set (managed_desktops d') = md_vmid ` set (managed_desktops d) \<union> di_vmid ` set desktops \<and>
         (\<forall>m \<in> set (managed_desktops d). \<exists>m' \<in> set (managed_desktops d'). keeps_desktop m m')"
proof -
  let ?absent = "\<lambda>m. m\<lparr>md_present := False, md_updated_at := now\<rparr>"
  let ?d = "d\<lparr>managed_desktops := upd_where md_present ?absent (managed_desktops d)\<rparr>"
  from assms(3) obtain d1 where b: "reconcile_tx ulower now desktops d = Inr (u, d1)" and c: "commitAccessChange now d1 = Inr d'"
    by (auto simp: ReconcileManagedDesktops_def run_tx_eq_Inr access_tx_Inr)
  have f: "fenced d1" by (rule same_authority_fenced [OF reconcile_tx_authority [OF b] assms(1)])
  have d': "managed_desktops d' = managed_desktops d1" using commitAccessChange_frame [OF f c] by auto
  have d1: "d1 = fold (upsert_desktop ulower now) desktops ?d"
    using b reconcile_fold by (auto simp: reconcile_tx_def bindE_eq_Inr)
  have u: "unique_by md_vmid (managed_desktops ?d)" using assms(2) by (simp add: map_upd_where_key)
  have p: "presence {} (managed_desktops ?d)" by (auto simp: presence_def ball_upd_where)
  note e = fold_upsert_effect [OF u p, of desktops ulower now]
  have kept: "\<exists>m' \<in> set (managed_desktops ?d). keeps_desktop m m'" if "m \<in> set (managed_desktops d)" for m
    using that by (force simp: bex_upd_where keeps_desktop_def)
  have "\<exists>m' \<in> set (managed_desktops d1). keeps_desktop m m'" if "m \<in> set (managed_desktops d)" for m
    using kept [OF that] e keeps_desktop_trans unfolding d1 by meson
  moreover have "md_vmid ` set (managed_desktops ?d) = md_vmid ` set (managed_desktops d)"
    by (simp add: image_upd_where [of md_vmid])
  ultimately show ?thesis using e unfolding d' d1 presence_def by simp
qed

section \<open>Listing and checking access\<close>

lemma distinct_order_by [simp]: "distinct (order_by le xs) \<longleftrightarrow> distinct xs"
proof -
  have "distinct (insort_by le x ys) \<longleftrightarrow> x \<notin> set ys \<and> distinct ys" for x and ys :: "'a list"
    by (induction ys) auto
  moreover have "set (foldr (insort_by le) ys []) = set ys" for ys :: "'a list" by (induction ys) auto
  ultimately show ?thesis by (induction xs) (auto simp: order_by_def)
qed

text \<open>
  C16. The list of a user's desktops and the check on one desktop never disagree: the list is in
  increasing order without repetition and contains exactly the desktops on which the check succeeds; a
  desktop on the list is present and enabled and its user is not disabled.
\<close>

theorem UserAssignedDesktopVMIDs_agrees:
  "\<exists>vs. UserAssignedDesktopVMIDs NoFault uid d = Inr vs \<and> sorted_wrt (\<le>) vs \<and> distinct vs \<and>
     (\<forall>v. v \<in> set vs \<longleftrightarrow> UserCanAccessDesktop NoFault uid v d = Inr True) \<and>
     (\<forall>v \<in> set vs. \<exists>m \<in> set (managed_desktops d). md_vmid m = v \<and> md_present m \<and> md_enabled m) \<and>
     (vs \<noteq> [] \<longrightarrow> live_user d uid \<noteq> None)"
proof -
  let ?vs = "order_by (\<le>) (remdups (map md_vmid (filter (\<lambda>m. effective_user_desktop_access d uid (md_vmid m)) (managed_desktops d))))"
  have desktop: "\<exists>m \<in> set (managed_desktops d). md_vmid m = v \<and> md_present m \<and> md_enabled m"
    "live_user d uid \<noteq> None" if "effective_user_desktop_access d uid v" for v
    using that by (auto simp: effective_user_desktop_access_def list_ex_iff live_user_def find_None_iff)
  have "v \<in> set ?vs \<longleftrightarrow> effective_user_desktop_access d uid v" for v
    using desktop(1) [of v] by (auto simp: image_iff)
  note vs = this
  have "sorted_wrt (\<le>) ?vs" by (rule sorted_order_by [OF total_preorder_int])
  moreover have "live_user d uid \<noteq> None" if "?vs \<noteq> []"
    using vs [of "hd ?vs"] hd_in_set [OF that] desktop(2) by blast
  moreover have "distinct ?vs" by simp
  ultimately show ?thesis
    using vs desktop(1) unfolding UserAssignedDesktopVMIDs_def UserCanAccessDesktop_def run_query_def
    by (intro exI [of _ ?vs]) simp
qed

section \<open>Removing an assignment\<close>

lemma delete_user_assignment_tx_mode:
  assumes "delete_user_assignment_tx now uid vmid d = Inr (x, d1)" "unique_by md_vmid (managed_desktops d)"
    "m' \<in> set (managed_desktops d1)" "md_vmid m' = vmid"
  shows "(md_access_mode m' = Personal \<and> md_owner_user_id m' \<noteq> Some uid) \<or>
         (md_access_mode m' = Shared \<and> \<not> list_ex (assigned uid vmid) (user_desktop_assignments d1))"
proof -
  let ?q = "\<lambda>m. md_vmid m = vmid \<and> md_owner_user_id m = Some uid"
  from assms(1) obtain m where m: "find (\<lambda>m. md_vmid m = vmid) (managed_desktops d) = Some m"
    by (auto simp: delete_user_assignment_tx_def bindE_eq_Inr query_row_eq_Inr)
  have only: "r = m" if "r \<in> set (managed_desktops d)" "md_vmid r = vmid" for r
    using unique_by_same [OF assms(2) that(1), of m] find_SomeD [OF m] that(2) by simp
  show ?thesis
  proof (cases "md_access_mode m = Personal")
    case True
    have "d1 = d \<and> md_owner_user_id m \<noteq> Some uid \<or>
        d1 = d\<lparr>managed_desktops := upd_where ?q (\<lambda>m. m\<lparr>md_owner_user_id := None, md_updated_at := now\<rparr>) (managed_desktops d)\<rparr>"
      using assms(1) True m by (cases "coalesce (md_owner_user_id m) = uid")
        (auto simp: delete_user_assignment_tx_def bindE_eq_Inr query_row_eq_Inr Let_def coalesce_def)
    then show ?thesis
    proof
      assume "d1 = d \<and> md_owner_user_id m \<noteq> Some uid"
      then show ?thesis using only [of m'] assms(3,4) True by simp
    next
      assume d1: "d1 = d\<lparr>managed_desktops := upd_where ?q (\<lambda>m. m\<lparr>md_owner_user_id := None, md_updated_at := now\<rparr>) (managed_desktops d)\<rparr>"
      then consider "m' \<in> set (managed_desktops d)" "\<not> ?q m'"
        | q where "q \<in> set (managed_desktops d)" "?q q" "m' = q\<lparr>md_owner_user_id := None, md_updated_at := now\<rparr>"
        using assms(3) unfolding d1 by (simp add: in_upd_where) blast
      then show ?thesis
      proof cases
        case 1
        then show ?thesis using only [of m'] assms(4) True by simp
      next
        case (2 q)
        then show ?thesis using only [of q] True by simp
      qed
    qed
  next
    case False
    then have sh: "md_access_mode m = Shared" by (cases "md_access_mode m") auto
    have "d1 = d\<lparr>user_desktop_assignments := del_where (assigned uid vmid) (user_desktop_assignments d)\<rparr>"
      using assms(1) False m by (auto simp: delete_user_assignment_tx_def bindE_eq_Inr query_row_eq_Inr)
    then show ?thesis using assms(3,4) only sh by (auto simp: list_ex_iff)
  qed
qed

text \<open>
  Removing a user's assignment removes it: afterwards they have access to that desktop only if it is
  shared and one of their groups grants it.  Removing an agent's assignment ends its control: no lease of
  that agent on that desktop is active and none of its sessions there is open.
\<close>

theorem DeleteDesktopAssignment_removes:
  assumes "fenced d" "unique_by md_vmid (managed_desktops d)"
    and "DeleteDesktopAssignment fault now kind sid vmid d = (d', Inr b)"
  shows "(kind = ''user'' \<and> effective_user_desktop_access d' sid vmid \<longrightarrow> group_grants d' sid vmid) \<and>
         (kind = ''agent'' \<longrightarrow>
            \<not> list_ex (\<lambda>l. l_state l = LeaseActive \<and> l_agent_id l = sid \<and> l_desktop_id l = Itoa vmid) (desktop_leases d') \<and>
            \<not> list_ex (\<lambda>s. s_agent_id s = sid \<and> s_desktop_vmid s = vmid \<and> ags_open s) (agent_guest_sessions d'))"
proof (intro conjI impI)
  from assms(3) obtain d1 where b: "delete_assignment_tx now kind sid vmid d = Inr (b, d1)"
    and c: "commitAccessChange now d1 = Inr d'"
    by (auto simp: DeleteDesktopAssignment_def run_tx_eq_Inr access_tx_Inr)
  have f: "fenced d1" by (rule delete_assignment_tx_fenced [OF assms(1) b])
  have f': "fenced d'" "same_grants d1 d'" using commitAccessChange_Inr [OF f, of now] c by (metis sum.inject(2))+
  have tables: "managed_desktops d' = managed_desktops d1" "user_desktop_assignments d' = user_desktop_assignments d1"
    "agent_desktop_assignments d' = agent_desktop_assignments d1"
    using f'(2) by (simp_all add: same_grants_def)
  {
    assume k: "kind = ''user'' \<and> effective_user_desktop_access d' sid vmid"
    then obtain m where m: "m \<in> set (managed_desktops d1)" "md_vmid m = vmid" "desktop_grants d' sid m"
      by (auto simp: effective_user_desktop_access_def list_ex_iff tables)
    have "delete_user_assignment_tx now sid vmid d = Inr (b, d1)" using b k by (simp add: delete_assignment_tx_def)
    from delete_user_assignment_tx_mode [OF this assms(2) m(1,2)] m(2,3) show "group_grants d' sid vmid"
      by (auto simp: desktop_grants_def tables assigned_def list_ex_iff)
  next
    assume k: "kind = ''agent''"
    have gone: "\<not> list_ex (assigned sid vmid) (agent_desktop_assignments d1)"
    proof -
      have "delete_agent_assignment_tx now sid vmid d = Inr (b, d1)" using b k by (simp add: delete_assignment_tx_def)
      from delete_agent_assignment_tx_fenced(2) [OF assms(1) this] show ?thesis by (auto simp: list_ex_iff)
    qed
    have "settled d'" by (rule commitAccessChange_settled [OF f c])
    then show lease: "\<not> list_ex (\<lambda>l. l_state l = LeaseActive \<and> l_agent_id l = sid \<and> l_desktop_id l = Itoa vmid) (desktop_leases d')"
      using gone by (auto simp: settled_def lease_settled_def lease_permitted_def agent_desktop_access_def tables
          list_all_iff list_ex_iff assigned_def)
    show "\<not> list_ex (\<lambda>s. s_agent_id s = sid \<and> s_desktop_vmid s = vmid \<and> ags_open s) (agent_guest_sessions d')"
      using f'(1) lease by (fastforce simp: fenced_def session_inv_def session_lease_def list_ex_iff)
  }
qed

section \<open>Groups from the identity provider\<close>

text \<open>The columns that identify a group, and their keys.\<close>

definition group_keys :: "db \<Rightarrow> (string \<times> string option \<times> string option) set" where
  "group_keys d = (\<lambda>g. (g_id g, g_provider_id g, g_external_id g)) ` set (identity_groups d)"

definition groups_wf :: "db \<Rightarrow> bool" where
  "groups_wf d \<longleftrightarrow>
     unique_by g_id (identity_groups d) \<and>
     unique_by (\<lambda>g. (g_provider_id g, g_external_id g))
       (filter (\<lambda>g. g_provider_id g \<noteq> None \<and> g_external_id g \<noteq> None) (identity_groups d))"

lemma groups_wf_same:
  assumes "groups_wf d" "(i, Some p, Some e) \<in> group_keys d" "(i', Some p, Some e) \<in> group_keys d"
  shows "i = i'"
proof -
  from assms(2,3) obtain g g' where "g \<in> set (identity_groups d)" "g' \<in> set (identity_groups d)"
    "of_provider p e g" "of_provider p e g'" "i = g_id g" "i' = g_id g'"
    by (auto simp: group_keys_def of_provider_def)
  moreover from assms(1) have "unique_by (\<lambda>g. (g_provider_id g, g_external_id g))
       (filter (\<lambda>g. g_provider_id g \<noteq> None \<and> g_external_id g \<noteq> None) (identity_groups d))" by (simp add: groups_wf_def)
  ultimately show ?thesis using unique_by_same [of _ _ g g'] by (fastforce simp: of_provider_def)
qed

lemma groups_wf_id:
  assumes "groups_wf d" "(i, p, e) \<in> group_keys d" "(i, p', e') \<in> group_keys d"
  shows "p = p' \<and> e = e'"
proof -
  from assms(2,3) obtain g g' where g: "g \<in> set (identity_groups d)" "g' \<in> set (identity_groups d)"
    "g_id g = g_id g'" "p = g_provider_id g" "e = g_external_id g" "p' = g_provider_id g'" "e' = g_external_id g'"
    by (auto simp: group_keys_def)
  have "g = g'" using assms(1) unique_by_same [OF _ g(1-3)] by (simp add: groups_wf_def)
  with g show ?thesis by simp
qed

lemma filter_upd_where_same:
  "(\<And>r. q (f r) = q r) \<Longrightarrow> filter q (upd_where p f t) = upd_where p f (filter q t)"
  by (induction t) auto

lemma upsert_oidc_group_effect:
  assumes "upsert_oidc_group now pid c d = Inr d1" "groups_wf d"
  shows "groups_wf d1" "group_keys d \<subseteq> group_keys d1" "identity_group_memberships d1 = identity_group_memberships d"
    "\<exists>i. (i, Some pid, Some (fst (snd c))) \<in> group_keys d1"
proof -
  obtain gid ext name where c: "c = (gid, ext, name)" by (cases c)
  let ?t = "identity_groups d"
  let ?f = "\<lambda>g. g\<lparr>g_display_name := name, g_updated_at := now\<rparr>"
  let ?row = "\<lparr>g_id = gid, g_provider_id = Some pid, g_external_id = Some ext, g_display_name = name,
                        g_source = SourceOidc, g_enabled = True, g_created_by = None, g_created_at = now,
                        g_updated_at = now\<rparr>"
  have "groups_wf d1 \<and> group_keys d \<subseteq> group_keys d1 \<and> identity_group_memberships d1 = identity_group_memberships d \<and>
    (\<exists>i. (i, Some pid, Some ext) \<in> group_keys d1)"
  proof (cases "list_ex (of_provider pid ext) ?t")
    case True
    then have d1: "d1 = d\<lparr>identity_groups := upd_where (of_provider pid ext) ?f ?t\<rparr>"
      using assms(1) by (simp add: upsert_oidc_group_def c)
    have keys: "group_keys d1 = group_keys d"
      by (simp add: group_keys_def d1 image_upd_where [of "\<lambda>g. (g_id g, g_provider_id g, g_external_id g)"])
    moreover have "groups_wf d1"
      using assms(2) by (simp add: groups_wf_def d1 map_upd_where_key filter_upd_where_same)
    moreover have "\<exists>i. (i, Some pid, Some ext) \<in> group_keys d"
      using True by (force simp: group_keys_def list_ex_iff of_provider_def)
    ultimately show ?thesis by (simp add: d1)
  next
    case False
    then have d1: "d1 = d\<lparr>identity_groups := ?t @ [?row]\<rparr>" and fresh: "\<not> list_ex (\<lambda>g. g_id g = gid) ?t"
      using assms(1) by (auto simp: upsert_oidc_group_def c bindE_eq_Inr guardE_eq_Inr)
    have "groups_wf d1"
      using assms(2) False fresh by (auto simp: groups_wf_def d1 list_ex_iff of_provider_def)
    moreover have "group_keys d1 = insert (gid, Some pid, Some ext) (group_keys d)"
      by (simp add: group_keys_def d1)
    ultimately show ?thesis by (auto simp: d1)
  qed
  then show "groups_wf d1" "group_keys d \<subseteq> group_keys d1" "identity_group_memberships d1 = identity_group_memberships d"
    "\<exists>i. (i, Some pid, Some (fst (snd c))) \<in> group_keys d1" by (simp_all add: c)
qed

lemma upsert_membership_effect:
  assumes "upsert_membership now gid uid source d = Inr (r, d1)"
  shows "identity_groups d1 = identity_groups d"
    "\<exists>m \<in> set (identity_group_memberships d1). member_of gid uid m \<and> m_source m = source"
    "m \<in> set (identity_group_memberships d) \<Longrightarrow> \<not> member_of gid uid m \<Longrightarrow> m \<in> set (identity_group_memberships d1)"
    "filter (\<lambda>m. m_user_id m \<noteq> uid) (identity_group_memberships d1) = filter (\<lambda>m. m_user_id m \<noteq> uid) (identity_group_memberships d)"
proof -
  let ?t = "identity_group_memberships d"
  let ?f = "\<lambda>m. m\<lparr>m_source := source, m_updated_at := now\<rparr>"
  have "identity_groups d1 = identity_groups d \<and>
    ((\<exists>m \<in> set ?t. member_of gid uid m) \<and> identity_group_memberships d1 = upd_where (member_of gid uid) ?f ?t \<or>
     identity_group_memberships d1 = ?t @ [\<lparr>m_group_id = gid, m_user_id = uid, m_source = source, m_created_at = now, m_updated_at = now\<rparr>])"
    using assms by (auto simp: upsert_membership_def Let_def bindE_eq_Inr split: option.splits dest: find_SomeD)
  moreover have "filter (\<lambda>m. m_user_id m \<noteq> uid) (upd_where (member_of gid uid) ?f t) = filter (\<lambda>m. m_user_id m \<noteq> uid) t" for t
    by (induction t) (auto simp: member_of_def)
  ultimately show "identity_groups d1 = identity_groups d"
    "\<exists>m \<in> set (identity_group_memberships d1). member_of gid uid m \<and> m_source m = source"
    "m \<in> set ?t \<Longrightarrow> \<not> member_of gid uid m \<Longrightarrow> m \<in> set (identity_group_memberships d1)"
    "filter (\<lambda>m. m_user_id m \<noteq> uid) (identity_group_memberships d1) = filter (\<lambda>m. m_user_id m \<noteq> uid) ?t"
    by (auto simp: bex_upd_where in_upd_where member_of_def)
qed

text \<open>What holds after the claims \<open>cs\<close> have been processed, starting from the database \<open>d0\<close>.\<close>

definition synced :: "db \<Rightarrow> string \<Rightarrow> string \<Rightarrow> claimed_group set \<Rightarrow> string list \<Rightarrow> db \<Rightarrow> bool" where
  "synced d0 pid uid cs ids d \<longleftrightarrow>
     groups_wf d \<and>
     (\<forall>c \<in> cs. \<exists>i \<in> set ids. (i, Some pid, Some (fst (snd c))) \<in> group_keys d) \<and>
     (\<forall>i \<in> set ids. \<exists>c \<in> cs. (i, Some pid, Some (fst (snd c))) \<in> group_keys d) \<and>
     (\<forall>i \<in> set ids. \<exists>m \<in> set (identity_group_memberships d). member_of i uid m \<and> m_source m = SourceOidc) \<and>
     filter (\<lambda>m. m_user_id m \<noteq> uid) (identity_group_memberships d) =
       filter (\<lambda>m. m_user_id m \<noteq> uid) (identity_group_memberships d0)"

lemma sync_group_synced:
  assumes "synced d0 pid uid cs ids d" "sync_group now pid uid c (ids, d) = Inr (ids', d')"
  shows "synced d0 pid uid (insert c cs) ids' d'"
proof -
  let ?e = "fst (snd c)"
  from assms(2) obtain d1 g r where up: "upsert_oidc_group now pid c d = Inr d1"
    and g: "find (of_provider pid ?e) (identity_groups d1) = Some g"
    and mem: "upsert_membership now (g_id g) uid SourceOidc d1 = Inr (r, d')" and ids': "ids' = ids @ [g_id g]"
    unfolding sync_group_def prod.case bindE_eq_Inr query_row_eq_Inr by (auto simp: bindE_eq_Inr)
  have wf: "groups_wf d" using assms(1) by (simp add: synced_def)
  note u = upsert_oidc_group_effect [OF up wf]
  note m = upsert_membership_effect [OF mem]
  have keys: "group_keys d' = group_keys d1" and wf': "groups_wf d'" using m(1) u(1) by (simp_all add: group_keys_def groups_wf_def)
  have gk: "(g_id g, Some pid, Some ?e) \<in> group_keys d'"
    using find_SomeD [OF g] m(1) unfolding group_keys_def of_provider_def by (auto intro!: rev_image_eqI [of g])
  have mono: "k \<in> group_keys d'" if "k \<in> group_keys d" for k using that u(2) keys by blast
  have members: "\<exists>x \<in> set (identity_group_memberships d'). member_of i uid x \<and> m_source x = SourceOidc" if i: "i \<in> set ids" for i
  proof (cases "i = g_id g")
    case True
    then show ?thesis using m(2) by simp
  next
    case False
    obtain x where x: "x \<in> set (identity_group_memberships d)" "member_of i uid x" "m_source x = SourceOidc"
      using assms(1) i by (auto simp: synced_def)
    have "\<not> member_of (g_id g) uid x" using x(2) False by (auto simp: member_of_def)
    then show ?thesis using m(3) [of x] x u(3) by auto
  qed
  have "\<forall>c' \<in> insert c cs. \<exists>i \<in> set ids'. (i, Some pid, Some (fst (snd c'))) \<in> group_keys d'"
    using assms(1) gk mono by (fastforce simp: synced_def ids')
  moreover have "\<forall>i \<in> set ids'. \<exists>c' \<in> insert c cs. (i, Some pid, Some (fst (snd c'))) \<in> group_keys d'"
    using assms(1) gk mono by (fastforce simp: synced_def ids')
  moreover have "\<forall>i \<in> set ids'. \<exists>x \<in> set (identity_group_memberships d'). member_of i uid x \<and> m_source x = SourceOidc"
    using members m(2) by (simp add: ids')
  ultimately show ?thesis using wf' m(4) u(3) assms(1) by (simp add: synced_def)
qed

lemma sync_fold_synced:
  assumes "synced d0 pid uid cs ids d" "foldE (sync_group now pid uid) xs (ids, d) = Inr (ids', d')"
  shows "synced d0 pid uid (cs \<union> set xs) ids' d'"
  using assms
proof (induction xs arbitrary: cs ids d)
  case Nil
  then show ?case by simp
next
  case (Cons c xs)
  from Cons.prems(2) obtain ids1 d1 where one: "sync_group now pid uid c (ids, d) = Inr (ids1, d1)"
    and rest: "foldE (sync_group now pid uid) xs (ids1, d1) = Inr (ids', d')"
    by (auto simp: bindE_eq_Inr)
  from Cons.IH [OF sync_group_synced [OF Cons.prems(1) one] rest] show ?case by simp
qed

text \<open>
  C17. Synchronizing groups with an identity provider is exact: afterwards the user is a provider-sourced
  member of one of the provider's groups if and only if the group was claimed, and no membership of any
  other user is touched.
\<close>

theorem SyncOIDCGroupMemberships_exact:
  assumes "fenced d" "groups_wf d" "SyncOIDCGroupMemberships fault now pid uid groups d = (d', Inr u)"
  shows "(\<forall>g \<in> set (identity_groups d'). g_provider_id g = Some pid \<longrightarrow>
            ((\<exists>m \<in> set (identity_group_memberships d'). member_of (g_id g) uid m \<and> m_source m = SourceOidc) \<longleftrightarrow>
             (\<exists>c \<in> set groups. g_external_id g = Some (fst (snd c))))) \<and>
         filter (\<lambda>m. m_user_id m \<noteq> uid) (identity_group_memberships d') =
           filter (\<lambda>m. m_user_id m \<noteq> uid) (identity_group_memberships d)"
proof -
  from assms(3) obtain d1 where b: "sync_tx now pid uid groups d = Inr (u, d1)" and c: "commitAccessChange now d1 = Inr d'"
    by (auto simp: SyncOIDCGroupMemberships_def run_tx_eq_Inr access_tx_Inr)
  have f: "fenced d1" by (rule same_authority_fenced [OF sync_tx_authority [OF b] assms(1)])
  have same: "identity_groups d' = identity_groups d1" "identity_group_memberships d' = identity_group_memberships d1"
    using commitAccessChange_frame [OF f c] by auto
  from b obtain ids d2 where fold: "foldE (sync_group now pid uid) groups ([], d) = Inr (ids, d2)"
    and d1: "d1 = d2\<lparr>identity_group_memberships := del_where (stale_member d2 pid uid ids) (identity_group_memberships d2)\<rparr>"
    by (auto simp: sync_tx_def bindE_eq_Inr)
  have "synced d pid uid {} [] d" using assms(2) by (simp add: synced_def)
  from sync_fold_synced [OF this fold] have s: "synced d pid uid (set groups) ids d2" by simp
  have wf: "groups_wf d2" using s by (simp add: synced_def)
  have iff: "(\<exists>m \<in> set (identity_group_memberships d1). member_of (g_id g) uid m \<and> m_source m = SourceOidc) \<longleftrightarrow>
             (\<exists>c \<in> set groups. g_external_id g = Some (fst (snd c)))" (is "?l \<longleftrightarrow> ?r")
    if g: "g \<in> set (identity_groups d2)" "g_provider_id g = Some pid" for g
  proof
    have key: "(g_id g, Some pid, g_external_id g) \<in> group_keys d2" using g unfolding group_keys_def by (auto intro!: rev_image_eqI [of g])
    {
      assume ?l
      then have "g_id g \<in> set ids" using g by (auto simp: d1 stale_member_def member_of_def list_ex_iff)
      then obtain c' where "c' \<in> set groups" "(g_id g, Some pid, Some (fst (snd c'))) \<in> group_keys d2"
        using s by (auto simp: synced_def)
      with groups_wf_id [OF wf key] show ?r by blast
    next
      assume ?r
      then obtain c' where c': "c' \<in> set groups" "g_external_id g = Some (fst (snd c'))" by blast
      then obtain i where i: "i \<in> set ids" "(i, Some pid, Some (fst (snd c'))) \<in> group_keys d2" using s by (auto simp: synced_def)
      have "i = g_id g" using groups_wf_same [OF wf i(2)] key c'(2) by simp
      with i(1) obtain m where "m \<in> set (identity_group_memberships d2)" "member_of (g_id g) uid m" "m_source m = SourceOidc"
        using s by (auto simp: synced_def)
      then show ?l using \<open>i = g_id g\<close> i(1) by (auto simp: d1 stale_member_def member_of_def)
    }
  qed
  have "filter (\<lambda>m. m_user_id m \<noteq> uid) (del_where (stale_member d2 pid uid ids) t) = filter (\<lambda>m. m_user_id m \<noteq> uid) t" for t
    by (induction t) (auto simp: stale_member_def)
  moreover have "identity_groups d1 = identity_groups d2" by (simp add: d1)
  ultimately show ?thesis using iff s by (simp add: same d1 synced_def)
qed

section \<open>Examples\<close>


theorem ReconcileManagedDesktops_inventory_witness:
  "\<exists>d' u. ReconcileManagedDesktops (\<lambda>s. s) NoFault 60
       [\<lparr>di_vmid = 200, di_display_name = ''new'', di_node = ''pve1'', di_os_family = ''Linux''\<rparr>] ex_users_db = (d', Inr u) \<and>
     md_vmid ` set (managed_desktops d') = {100, 200} \<and>
     (\<forall>m \<in> set (managed_desktops d'). md_present m \<longleftrightarrow> md_vmid m = 200)"
proof -
  let ?r = "ReconcileManagedDesktops (\<lambda>s. s) NoFault 60
       [\<lparr>di_vmid = 200, di_display_name = ''new'', di_node = ''pve1'', di_os_family = ''Linux''\<rparr>] ex_users_db"
  have "\<not> isl (snd ?r)" by code_simp
  then obtain d' u where ok: "?r = (d', Inr u)" using succeeds by blast
  have "unique_by md_vmid (managed_desktops ex_users_db)" "md_vmid ` set (managed_desktops ex_users_db) = {100}" by code_simp+
  with ReconcileManagedDesktops_inventory [OF ex_users_fenced _ ok] ok show ?thesis by auto
qed

theorem UserAssignedDesktopVMIDs_agrees_witness:
  "UserAssignedDesktopVMIDs NoFault ''u1'' ex_users_db = Inr [100] \<and>
   UserCanAccessDesktop NoFault ''u1'' 100 ex_users_db = Inr True \<and> live_user ex_users_db ''u1'' \<noteq> None"
proof -
  have "UserAssignedDesktopVMIDs NoFault ''u1'' ex_users_db = Inr [100]" by code_simp
  with UserAssignedDesktopVMIDs_agrees [of "''u1''" ex_users_db] show ?thesis by auto
qed

theorem DeleteDesktopAssignment_removes_witness:
  "effective_user_desktop_access ex_users_db ''u1'' 100 \<and>
   (\<exists>d' b. DeleteDesktopAssignment NoFault 60 ''user'' ''u1'' 100 ex_users_db = (d', Inr b) \<and>
      (effective_user_desktop_access d' ''u1'' 100 \<longrightarrow> group_grants d' ''u1'' 100))"
proof -
  have "\<not> isl (snd (DeleteDesktopAssignment NoFault 60 ''user'' ''u1'' 100 ex_users_db))" by code_simp
  then obtain d' b where ok: "DeleteDesktopAssignment NoFault 60 ''user'' ''u1'' 100 ex_users_db = (d', Inr b)"
    using succeeds by blast
  have "unique_by md_vmid (managed_desktops ex_users_db)" "effective_user_desktop_access ex_users_db ''u1'' 100" by code_simp+
  with DeleteDesktopAssignment_removes [OF ex_users_fenced _ ok] ok show ?thesis by blast
qed

theorem SyncOIDCGroupMemberships_exact_witness:
  "\<exists>d' u. SyncOIDCGroupMemberships NoFault 60 ''p1'' ''u1'' [(''g1'', ''devs'', ''Developers'')] ex_users_db = (d', Inr u) \<and>
     (\<forall>g \<in> set (identity_groups d'). g_provider_id g = Some ''p1'' \<longrightarrow>
        ((\<exists>m \<in> set (identity_group_memberships d'). member_of (g_id g) ''u1'' m \<and> m_source m = SourceOidc) \<longleftrightarrow>
         g_external_id g = Some ''devs''))"
proof -
  let ?r = "SyncOIDCGroupMemberships NoFault 60 ''p1'' ''u1'' [(''g1'', ''devs'', ''Developers'')] ex_users_db"
  have "\<not> isl (snd ?r)" by code_simp
  then obtain d' u where ok: "?r = (d', Inr u)" using succeeds by blast
  have "groups_wf ex_users_db" by code_simp
  with SyncOIDCGroupMemberships_exact [OF ex_users_fenced _ ok] ok show ?thesis by auto
qed

end
