(* ===== verification/Connections.thy ===== *)
theory Connections
  imports Desktops
begin

text \<open>
  Guest identity bindings, logical desktop connections and the queue of Guest identity revocations:
  the connection operations of \<open>store.go\<close> and \<open>guest_revocation.go\<close>, with the trigger of migration 028
  that protects a pinned binding.  \<open>stamp\<close> is \<open>statement_timestamp()\<close>, which may be later than the
  transaction's \<open>now\<close>.  The advisory lock of a desktop serializes callers and has no state of its own.
\<close>

section \<open>Bindings\<close>

definition GuestIdentityBindingsForDesktop ::
  "(string \<Rightarrow> string \<Rightarrow> bool) \<Rightarrow> tx_fault \<Rightarrow> int \<Rightarrow> db \<Rightarrow> err + GuestIdentityBinding list" where
  "GuestIdentityBindingsForDesktop coll fault vmid d =
     run_query fault (\<lambda>d. Inr (order_by (by_key coll b_guest_username)
       (filter (\<lambda>b. b_desktop_vmid b = vmid) (guest_identity_bindings d)))) d"

definition GuestIdentityBindings ::
  "(string \<Rightarrow> string \<Rightarrow> bool) \<Rightarrow> tx_fault \<Rightarrow> db \<Rightarrow> err + GuestIdentityBinding list" where
  "GuestIdentityBindings coll fault d =
     run_query fault (\<lambda>d. Inr (order_by (then_by (by_key (\<le>) b_desktop_vmid) (by_key coll b_guest_username))
       (guest_identity_bindings d))) d"

definition protect_native_guest_binding_subject ::
  "db \<Rightarrow> GuestIdentityBinding \<Rightarrow> GuestIdentityBinding \<Rightarrow> err + unit" where
  "protect_native_guest_binding_subject d old new =
     guardE (SqlErr CheckViolation) (\<not>
       ((b_desktop_vmid new, b_user_id new, b_guest_username new, b_profile_id new) \<noteq>
          (b_desktop_vmid old, b_user_id old, b_guest_username old, b_profile_id old) \<and>
        list_ex (\<lambda>a. na_desktop_vmid a = b_desktop_vmid old \<and> na_user_id a = b_user_id old) (native_guest_accounts d)))"

text \<open>
  The upsert of a binding.  \<open>None\<close> for the state is the empty string, which means provisioning.  The
  profile, the desktop and the user are references; the Guest username is unique on its desktop.
\<close>

definition same_binding :: "GuestIdentityBinding \<Rightarrow> GuestIdentityBinding \<Rightarrow> bool" where
  "same_binding b q \<longleftrightarrow> b_desktop_vmid q = b_desktop_vmid b \<and> b_user_id q = b_user_id b"

definition put_binding_tx ::
  "time \<Rightarrow> GuestIdentityBinding \<Rightarrow> binding_state option \<Rightarrow> db \<Rightarrow> err + (GuestIdentityBinding \<times> db)" where
  "put_binding_tx now b state d =
     (let row = b\<lparr>b_profile_id := nullif (coalesce (b_profile_id b)),
                  b_state := (case state of None \<Rightarrow> BindProvisioning | Some s \<Rightarrow> s),
                  b_session_expires_at := None, b_created_at := now, b_updated_at := now\<rparr>;
          upd = (\<lambda>q. q\<lparr>b_profile_id := b_profile_id row, b_guest_username := b_guest_username row,
                       b_state := b_state row, b_last_error := b_last_error row, b_updated_at := now\<rparr>);
          old = find (same_binding b) (guest_identity_bindings d)
      in bindE (case old of None \<Rightarrow> Inr () | Some q \<Rightarrow> protect_native_guest_binding_subject d q (upd q)) (\<lambda>_.
         bindE (guardE (SqlErr UniqueViolation)
                  (\<not> list_ex (\<lambda>q. b_desktop_vmid q = b_desktop_vmid b \<and> b_guest_username q = b_guest_username b \<and>
                                 b_user_id q \<noteq> b_user_id b) (guest_identity_bindings d))) (\<lambda>_.
         bindE (guardE (SqlErr ForeignKeyViolation)
                  (list_ex (\<lambda>m. md_vmid m = b_desktop_vmid b) (managed_desktops d) \<and>
                   list_ex (\<lambda>u. u_id u = b_user_id b) (users d) \<and> profile_ref_ok d (b_profile_id row))) (\<lambda>_.
           case old of
             None \<Rightarrow> Inr (row, d\<lparr>guest_identity_bindings := guest_identity_bindings d @ [row]\<rparr>)
           | Some q \<Rightarrow> Inr (upd q, d\<lparr>guest_identity_bindings := upd_where (same_binding b) upd (guest_identity_bindings d)\<rparr>)))))"

definition PutGuestIdentityBinding ::
  "tx_fault \<Rightarrow> time \<Rightarrow> GuestIdentityBinding \<Rightarrow> binding_state option \<Rightarrow> db \<Rightarrow> db \<times> (err + GuestIdentityBinding)" where
  "PutGuestIdentityBinding fault now b state d = run_tx fault (put_binding_tx now b state) d"

section \<open>Connections\<close>

text \<open>The advisory lock of a desktop: the argument check and the lock identifier.\<close>

definition AcquireDesktopControlLock :: "int \<Rightarrow> err + int" where
  "AcquireDesktopControlLock vmid =
     (if vmid \<le> 0 then Inl (ErrMsg ''desktop identifier is invalid'') else Inr (729200000 + vmid))"

definition connection_permitted ::
  "time \<Rightarrow> DesktopConnectionSession \<Rightarrow> string option \<Rightarrow> bool \<Rightarrow> db \<Rightarrow> bool" where
  "connection_permitted now c digest boundNative d \<longleftrightarrow>
     effective_user_desktop_access d (c_user_id c) (c_desktop_vmid c) \<and>
     (case digest of None \<Rightarrow> True
      | Some h \<Rightarrow> list_ex (\<lambda>n. ns_token_digest n = h \<and> ns_user_id n = c_user_id c \<and> now < ns_expires_at n) (native_sessions d)) \<and>
     \<not> identity_revocation_pending d (c_desktop_vmid c) \<and>
     (boundNative \<or> \<not> list_ex (\<lambda>a. na_desktop_vmid a = c_desktop_vmid c \<and> (na_user_id a = c_user_id c \<or> native_reserves a))
        (native_guest_accounts d))"

definition digest_check :: "string option \<Rightarrow> bool" where
  "digest_check digest \<longleftrightarrow> (case digest of None \<Rightarrow> True | Some h \<Rightarrow> 1 \<le> length h \<and> length h \<le> 128)"

definition new_connection :: "time \<Rightarrow> DesktopConnectionSession \<Rightarrow> string option \<Rightarrow> DesktopConnectionSession" where
  "new_connection now c digest =
     c\<lparr>c_state := ConnActive, c_created_at := now, c_updated_at := now, c_closed_at := None,
       c_termination_required := False, c_native_session_digest := digest\<rparr>"

definition insertDesktopConnectionSession ::
  "time \<Rightarrow> DesktopConnectionSession \<Rightarrow> string option \<Rightarrow> bool \<Rightarrow> db \<Rightarrow> err + (DesktopConnectionSession \<times> db)" where
  "insertDesktopConnectionSession now c digest boundNative d =
     bindE (guardE ErrNotFound (connection_permitted now c digest boundNative d)) (\<lambda>_.
     bindE (guardE (SqlErr CheckViolation) (digest_check digest)) (\<lambda>_.
     bindE (guardE ErrConflict
              (\<not> list_ex (\<lambda>q. c_id q = c_id c \<or> (c_desktop_vmid q = c_desktop_vmid c \<and> conn_open q)) (desktop_connection_sessions d))) (\<lambda>_.
       Inr (new_connection now c digest,
            d\<lparr>desktop_connection_sessions := desktop_connection_sessions d @ [new_connection now c digest],
              guest_identity_bindings := upd_where (\<lambda>b. b_desktop_vmid b = c_desktop_vmid c \<and> b_user_id b = c_user_id c)
                (\<lambda>b. b\<lparr>b_session_expires_at := Some (c_expires_at c), b_updated_at := now\<rparr>) (guest_identity_bindings d)\<rparr>))))"

definition createDesktopConnectionSession ::
  "tx_fault \<Rightarrow> time \<Rightarrow> DesktopConnectionSession \<Rightarrow> string option \<Rightarrow> db \<Rightarrow> db \<times> (err + DesktopConnectionSession)" where
  "createDesktopConnectionSession fault now c digest d = run_tx fault (insertDesktopConnectionSession now c digest False) d"

definition CreateDesktopConnectionSession ::
  "tx_fault \<Rightarrow> time \<Rightarrow> DesktopConnectionSession \<Rightarrow> db \<Rightarrow> db \<times> (err + DesktopConnectionSession)" where
  "CreateDesktopConnectionSession fault now c d = createDesktopConnectionSession fault now c None d"

definition CreateNativeDesktopConnectionSession ::
  "tx_fault \<Rightarrow> time \<Rightarrow> time \<Rightarrow> DesktopConnectionSession \<Rightarrow> string \<Rightarrow> db \<Rightarrow> db \<times> (err + DesktopConnectionSession)" where
  "CreateNativeDesktopConnectionSession fault clock now c digest d =
     (if digest = [] \<or> \<not> clock < c_expires_at c then (d, Inl ErrNotFound)
      else createDesktopConnectionSession fault now c (Some digest) d)"

text \<open>
  \<open>UPDATE desktop_connection_sessions ... RETURNING\<close>: the rows in table order, which the code does not
  rely on.  No update touches the initiating session, which migration 029 makes immutable.
\<close>

definition update_connections ::
  "(DesktopConnectionSession \<Rightarrow> bool) \<Rightarrow> (DesktopConnectionSession \<Rightarrow> DesktopConnectionSession) \<Rightarrow> db \<Rightarrow>
   DesktopConnectionSession list \<times> db" where
  "update_connections p f d =
     (map f (filter p (desktop_connection_sessions d)),
      d\<lparr>desktop_connection_sessions := upd_where p f (desktop_connection_sessions d)\<rparr>)"

definition begin_revoke :: "time \<Rightarrow> DesktopConnectionSession \<Rightarrow> DesktopConnectionSession" where
  "begin_revoke now c = c\<lparr>c_state := ConnRevoking, c_updated_at := now\<rparr>"

definition beginRevokeDesktopConnections ::
  "tx_fault \<Rightarrow> time \<Rightarrow> (DesktopConnectionSession \<Rightarrow> bool) \<Rightarrow> db \<Rightarrow> db \<times> (err + DesktopConnectionSession list)" where
  "beginRevokeDesktopConnections fault now predicate d =
     run_tx fault (\<lambda>d. Inr (update_connections (\<lambda>c. predicate c \<and> conn_open c) (begin_revoke now) d)) d"

definition BeginRevokeDesktopConnections ::
  "tx_fault \<Rightarrow> time \<Rightarrow> int \<Rightarrow> db \<Rightarrow> db \<times> (err + DesktopConnectionSession list)" where
  "BeginRevokeDesktopConnections fault now vmid d =
     beginRevokeDesktopConnections fault now (\<lambda>c. c_desktop_vmid c = vmid) d"

definition BeginRevokeUserDesktopConnections ::
  "tx_fault \<Rightarrow> time \<Rightarrow> string \<Rightarrow> db \<Rightarrow> db \<times> (err + DesktopConnectionSession list)" where
  "BeginRevokeUserDesktopConnections fault now uid d =
     beginRevokeDesktopConnections fault now (\<lambda>c. c_user_id c = uid) d"

definition DesktopConnectionByID :: "tx_fault \<Rightarrow> string \<Rightarrow> db \<Rightarrow> err + DesktopConnectionSession" where
  "DesktopConnectionByID fault cid d =
     run_query fault (\<lambda>d. query_row ErrNotFound (\<lambda>c. c_id c = cid) (desktop_connection_sessions d)) d"

text \<open>
  Two statements: the update, and, when it returns no row, a look at the connections that are already
  closed.  \<open>fault2\<close> is what the driver does to the second one.
\<close>

definition BeginRevokeDesktopConnection ::
  "tx_fault \<Rightarrow> tx_fault \<Rightarrow> time \<Rightarrow> string \<Rightarrow> string \<Rightarrow> db \<Rightarrow> db \<times> (err + DesktopConnectionSession)" where
  "BeginRevokeDesktopConnection fault fault2 now cid uid d =
     (let (d1, r) = run_tx fault (\<lambda>d. first_row ErrNotFound
                      (update_connections (\<lambda>c. c_id c = cid \<and> c_user_id c = uid \<and> conn_open c) (begin_revoke now) d)) d
      in if r = Inl ErrNotFound
         then (d1, run_query fault2 (\<lambda>d. query_row ErrNotFound
                     (\<lambda>c. c_id c = cid \<and> c_user_id c = uid \<and> (c_state c = ConnRevoked \<or> c_state c = ConnExpired))
                     (desktop_connection_sessions d)) d1)
         else (d1, r))"

text \<open>
  Connections that are due: being revoked, past their deadline, or with a Gateway ticket that expired
  unused, was closed, or lost its grant.  The locked candidates are ordered by deadline and identifier and
  cut at the limit; a row that another transaction has locked is skipped (\<open>locked\<close>).
\<close>

definition ticket_over :: "time \<Rightarrow> GatewayTicketRow \<Rightarrow> bool" where
  "ticket_over stamp g \<longleftrightarrow>
     (t_consumed_at g = None \<and> t_expires_at g \<le> stamp) \<or>
     (t_consumed_at g \<noteq> None \<and>
        (t_closed_at g \<noteq> None \<or> (case t_lease_until g of None \<Rightarrow> False | Some u \<Rightarrow> u \<le> stamp)))"

definition connection_due :: "time \<Rightarrow> db \<Rightarrow> DesktopConnectionSession \<Rightarrow> bool" where
  "connection_due stamp d c \<longleftrightarrow>
     c_state c = ConnRevoking \<or>
     (c_state c = ConnActive \<and>
        (c_expires_at c \<le> stamp \<or>
         list_ex (\<lambda>g. t_connection_id g = c_id c \<and> ticket_over stamp g) (gateway_session_tickets d)))"

definition due_limit :: "int \<Rightarrow> nat" where
  "due_limit limit = nat (if limit \<le> 0 \<or> limit > 1000 then 100 else limit)"

definition due_ids ::
  "(string \<Rightarrow> string \<Rightarrow> bool) \<Rightarrow> time \<Rightarrow> (string \<Rightarrow> bool) \<Rightarrow> int \<Rightarrow> db \<Rightarrow> string list" where
  "due_ids coll stamp locked limit d =
     map c_id (take (due_limit limit)
       (order_by (then_by (by_key (\<le>) c_expires_at) (by_key coll c_id))
         (filter (\<lambda>c. connection_due stamp d c \<and> \<not> locked (c_id c)) (desktop_connection_sessions d))))"

definition DesktopConnectionsDueForRevocation ::
  "(string \<Rightarrow> string \<Rightarrow> bool) \<Rightarrow> tx_fault \<Rightarrow> time \<Rightarrow> time \<Rightarrow> (string \<Rightarrow> bool) \<Rightarrow> int \<Rightarrow> db \<Rightarrow>
   db \<times> (err + DesktopConnectionSession list)" where
  "DesktopConnectionsDueForRevocation coll fault now stamp locked limit d =
     run_tx fault (\<lambda>d. Inr (update_connections (\<lambda>c. c_id c \<in> set (due_ids coll stamp locked limit d)) (begin_revoke now) d)) d"

definition close_connection :: "time \<Rightarrow> conn_state \<Rightarrow> DesktopConnectionSession \<Rightarrow> DesktopConnectionSession" where
  "close_connection now state c = c\<lparr>c_state := state, c_closed_at := Some now, c_updated_at := now\<rparr>"

definition mark_closed_tx :: "time \<Rightarrow> string \<Rightarrow> conn_state \<Rightarrow> db \<Rightarrow> err + (unit \<times> db)" where
  "mark_closed_tx now cid state d =
     Inr ((), snd (update_connections (\<lambda>c. c_id c = cid \<and> c_state c = ConnRevoking) (close_connection now state) d))"

definition MarkDesktopConnectionClosed ::
  "tx_fault \<Rightarrow> time \<Rightarrow> string \<Rightarrow> string \<Rightarrow> db \<Rightarrow> db \<times> (err + unit)" where
  "MarkDesktopConnectionClosed fault now cid state d =
     (if state = ''revoked'' then run_tx fault (mark_closed_tx now cid ConnRevoked) d
      else if state = ''expired'' then run_tx fault (mark_closed_tx now cid ConnExpired) d
      else (d, Inl (ErrMsg ''desktop connection terminal state is invalid'')))"

section \<open>The queue of Guest identity revocations\<close>

record IdentityItem =
  ii_desktop_vmid :: int
  ii_user_id :: string
  ii_guest_username :: string
  ii_revision :: int
  ii_reason :: revoke_reason

fun reason_text :: "revoke_reason \<Rightarrow> string" where
  "reason_text AccessRemoved = ''access_removed''"
| "reason_text CredentialRevoked = ''credential_revoked''"
| "reason_text ExpiredReason = ''expired''"

definition expired_identity :: "time \<Rightarrow> int \<Rightarrow> GuestIdentityBinding \<Rightarrow> bool" where
  "expired_identity now vmid b \<longleftrightarrow>
     b_state b \<noteq> BindDisabled \<and> (case b_session_expires_at b of None \<Rightarrow> False | Some t \<Rightarrow> t \<le> now) \<and>
     (vmid = 0 \<or> b_desktop_vmid b = vmid)"

definition QueueExpiredGuestIdentitiesForDesktop :: "tx_fault \<Rightarrow> time \<Rightarrow> int \<Rightarrow> db \<Rightarrow> db \<times> (err + unit)" where
  "QueueExpiredGuestIdentitiesForDesktop fault now vmid d =
     run_tx fault (\<lambda>d. Inr ((), queueGuestIdentityRevocations now (expired_identity now vmid) ExpiredReason d)) d"

definition QueueExpiredGuestIdentities :: "tx_fault \<Rightarrow> time \<Rightarrow> db \<Rightarrow> db \<times> (err + unit)" where
  "QueueExpiredGuestIdentities fault now d = QueueExpiredGuestIdentitiesForDesktop fault now 0 d"

definition identity_item :: "GuestIdentityRevocation \<Rightarrow> IdentityItem" where
  "identity_item q =
     \<lparr>ii_desktop_vmid = r_desktop_vmid q, ii_user_id = r_user_id q, ii_guest_username = r_guest_username q,
      ii_revision = r_requested_revision q, ii_reason = r_reason q\<rparr>"

definition PendingGuestIdentityRevocations ::
  "(string \<Rightarrow> string \<Rightarrow> bool) \<Rightarrow> tx_fault \<Rightarrow> int \<Rightarrow> db \<Rightarrow> err + IdentityItem list" where
  "PendingGuestIdentityRevocations coll fault vmid d =
     run_query fault (\<lambda>d. Inr (map identity_item (take 100 (order_by
       (then_by (by_key (\<le>) r_updated_at) (then_by (by_key (\<le>) r_desktop_vmid) (by_key coll r_user_id)))
       (filter (\<lambda>q. r_completed_revision q < r_requested_revision q \<and> (vmid = 0 \<or> r_desktop_vmid q = vmid))
         (guest_identity_revocations d)))))) d"

text \<open>The row of the queue that an item completes, or whose failure it reports.\<close>

definition item_open :: "IdentityItem \<Rightarrow> GuestIdentityRevocation \<Rightarrow> bool" where
  "item_open i q \<longleftrightarrow>
     r_desktop_vmid q = ii_desktop_vmid i \<and> r_user_id q = ii_user_id i \<and> r_guest_username q = ii_guest_username i \<and>
     r_requested_revision q = ii_revision i \<and> r_completed_revision q < ii_revision i"

definition audit_identity_revoked :: "time \<Rightarrow> IdentityItem \<Rightarrow> db \<Rightarrow> db" where
  "audit_identity_revoked now i =
     insert_audit now None ''guest_identity.revoked'' ''success'' (Some ''virtual_machine'')
       (Some (Itoa (ii_desktop_vmid i)))
       (AObj [(''vmid'', AInt (ii_desktop_vmid i)), (''user_id'', AText (ii_user_id i)),
        (''reason'', AText (reason_text (ii_reason i))), (''revision'', AInt (ii_revision i))])"

definition ended_connection :: "time \<Rightarrow> DesktopConnectionSession \<Rightarrow> DesktopConnectionSession" where
  "ended_connection now c =
     c\<lparr>c_state := (if c_expires_at c \<le> now then ConnExpired else ConnRevoked), c_closed_at := Some now,
       c_updated_at := now, c_termination_required := True\<rparr>"

definition complete_identity_tx :: "time \<Rightarrow> IdentityItem \<Rightarrow> db \<Rightarrow> err + (unit \<times> db)" where
  "complete_identity_tx now i d =
     bindE (guardE ErrConflict (length (filter (item_open i) (guest_identity_revocations d)) = 1)) (\<lambda>_.
       Inr ((), audit_identity_revoked now i
         (d\<lparr>guest_identity_revocations := upd_where (item_open i)
              (\<lambda>q. q\<lparr>r_completed_revision := ii_revision i, r_last_error := [], r_updated_at := now\<rparr>)
              (guest_identity_revocations d),
            guest_identity_bindings := upd_where (\<lambda>b. b_desktop_vmid b = ii_desktop_vmid i \<and>
                b_user_id b = ii_user_id i \<and> b_guest_username b = ii_guest_username i)
              (\<lambda>b. b\<lparr>b_session_expires_at := None, b_state := BindDisabled, b_updated_at := now\<rparr>)
              (guest_identity_bindings d),
            desktop_connection_sessions := upd_where (\<lambda>c. c_desktop_vmid c = ii_desktop_vmid i \<and>
                c_user_id c = ii_user_id i \<and> c_guest_username c = ii_guest_username i \<and> conn_open c)
              (ended_connection now) (desktop_connection_sessions d)\<rparr>)))"

definition CompleteGuestIdentityRevocation :: "tx_fault \<Rightarrow> time \<Rightarrow> IdentityItem \<Rightarrow> db \<Rightarrow> db \<times> (err + unit)" where
  "CompleteGuestIdentityRevocation fault now i d = run_tx fault (complete_identity_tx now i) d"

definition RecordGuestIdentityRevocationFailure ::
  "tx_fault \<Rightarrow> time \<Rightarrow> IdentityItem \<Rightarrow> db \<Rightarrow> db \<times> (err + unit)" where
  "RecordGuestIdentityRevocationFailure fault now i d =
     run_tx fault (\<lambda>d. Inr ((), d\<lparr>guest_identity_revocations := upd_where (item_open i)
       (\<lambda>q. q\<lparr>r_last_error := ''Guest revocation is pending'', r_updated_at := now\<rparr>)
       (guest_identity_revocations d)\<rparr>)) d"

section \<open>The life of a connection\<close>

text \<open>
  Identifiers are unique and a desktop has one open connection at most; an update only moves a
  connection forward, never touches one that is closed, and never changes who uses what until when.
\<close>

definition connections_wf :: "db \<Rightarrow> bool" where
  "connections_wf d \<longleftrightarrow>
     unique_by c_id (desktop_connection_sessions d) \<and>
     unique_by c_desktop_vmid (filter conn_open (desktop_connection_sessions d))"

definition conn_step :: "DesktopConnectionSession \<Rightarrow> DesktopConnectionSession \<Rightarrow> bool" where
  "conn_step c c' \<longleftrightarrow>
     c_id c' = c_id c \<and> c_user_id c' = c_user_id c \<and> c_desktop_vmid c' = c_desktop_vmid c \<and>
     c_guest_username c' = c_guest_username c \<and> c_expires_at c' = c_expires_at c \<and>
     c_native_session_digest c' = c_native_session_digest c \<and>
     (c_termination_required c \<longrightarrow> c_termination_required c') \<and>
     (\<not> conn_open c \<longrightarrow> c' = c) \<and> (c_state c = ConnRevoking \<longrightarrow> c_state c' \<noteq> ConnActive)"

definition connections_advance :: "db \<Rightarrow> db \<Rightarrow> bool" where
  "connections_advance d d' \<longleftrightarrow>
     list_all2 conn_step (desktop_connection_sessions d)
       (take (length (desktop_connection_sessions d)) (desktop_connection_sessions d'))"

lemma conn_step_refl [simp]: "conn_step c c"
  by (simp add: conn_step_def)

lemma conn_step_trans: "conn_step a b \<Longrightarrow> conn_step b c \<Longrightarrow> conn_step a c"
  by (auto simp: conn_step_def conn_open_def)

lemma connections_advance_refl [simp]: "connections_advance d d"
  by (simp add: connections_advance_def list.rel_refl)

lemma connections_advance_cong:
  "desktop_connection_sessions d' = desktop_connection_sessions d \<Longrightarrow> connections_advance d d'"
  by (simp add: connections_advance_def list.rel_refl)

lemma connections_advance_length:
  "connections_advance d d' \<Longrightarrow> length (desktop_connection_sessions d) \<le> length (desktop_connection_sessions d')"
  by (drule list_all2_lengthD [OF connections_advance_def [THEN iffD1]]) simp

lemma connections_advance_trans:
  assumes "connections_advance a b" "connections_advance b c"
  shows "connections_advance a c"
proof -
  let ?n = "length (desktop_connection_sessions a)" and ?t = desktop_connection_sessions
  have le: "?n \<le> length (?t b)" by (rule connections_advance_length [OF assms(1)])
  have "list_all2 conn_step (take ?n (?t b)) (take ?n (take (length (?t b)) (?t c)))"
    using assms(2) unfolding connections_advance_def by (rule list_all2_takeI)
  then have "list_all2 conn_step (take ?n (?t b)) (take ?n (?t c))" using le by (simp add: min_absorb1)
  with assms(1) show ?thesis unfolding connections_advance_def by (rule list_all2_trans [rotated]) (rule conn_step_trans)
qed

lemma list_all2_upd_where: "(\<And>r. r \<in> set t \<Longrightarrow> p r \<Longrightarrow> R r (f r)) \<Longrightarrow> (\<And>r. R r r) \<Longrightarrow> list_all2 R t (upd_where p f t)"
  by (induction t) auto

lemma connections_advance_upd:
  assumes "desktop_connection_sessions d' = upd_where p f (desktop_connection_sessions d)"
    "\<And>c. c \<in> set (desktop_connection_sessions d) \<Longrightarrow> p c \<Longrightarrow> conn_step c (f c)"
  shows "connections_advance d d'"
  using list_all2_upd_where [of "desktop_connection_sessions d" p conn_step f] assms
  by (simp add: connections_advance_def)

lemma connections_wf_cong:
  "desktop_connection_sessions d' = desktop_connection_sessions d \<Longrightarrow> connections_wf d' = connections_wf d"
  by (simp add: connections_wf_def)

lemma map_open_upd:
  assumes "\<And>c. c \<in> set t \<Longrightarrow> p c \<Longrightarrow> conn_step c (f c)" "unique_by c_desktop_vmid (filter conn_open t)"
  shows "unique_by c_desktop_vmid (filter conn_open (upd_where p f t))"
  using assms
proof (induction t)
  case (Cons c t)
  have u: "unique_by c_desktop_vmid (filter conn_open (upd_where p f t))"
    using Cons.prems by (intro Cons.IH) (auto split: if_splits)
  let ?c = "if p c then f c else c"
  have c: "c_desktop_vmid ?c = c_desktop_vmid c" "conn_open ?c \<Longrightarrow> conn_open c"
    using Cons.prems(1) [of c] by (auto simp: conn_step_def split: if_splits)
  have sub: "v \<in> c_desktop_vmid ` set (filter conn_open t)"
    if "v \<in> c_desktop_vmid ` set (filter conn_open (upd_where p f t))" for v
  proof -
    from that obtain r where r: "r \<in> set t" "conn_open (if p r then f r else r)"
        "v = c_desktop_vmid (if p r then f r else r)" by (auto simp: set_upd_where)
    then have "conn_open r" "c_desktop_vmid r = v"
      using Cons.prems(1) [of r] by (auto simp: conn_step_def split: if_splits)
    with r(1) show ?thesis by auto
  qed
  have cons: "upd_where p f (c # t) = ?c # upd_where p f t" by simp
  show ?case
  proof (cases "conn_open ?c")
    case True
    then have "c_desktop_vmid c \<notin> c_desktop_vmid ` set (filter conn_open t)" using Cons.prems(2) c(2) by simp
    then have "c_desktop_vmid ?c \<notin> c_desktop_vmid ` set (filter conn_open (upd_where p f t))" using sub c(1) by auto
    with True u show ?thesis unfolding cons by (simp only: filter.simps if_True list.map distinct.simps set_map simp_thms)
  next
    case False
    with u show ?thesis unfolding cons by (simp only: filter.simps if_False)
  qed
qed simp

lemma connections_wf_upd:
  assumes "desktop_connection_sessions d' = upd_where p f (desktop_connection_sessions d)"
    "\<And>c. c \<in> set (desktop_connection_sessions d) \<Longrightarrow> p c \<Longrightarrow> conn_step c (f c)" "connections_wf d"
  shows "connections_wf d'"
proof -
  have "map c_id (upd_where p f (desktop_connection_sessions d)) = map c_id (desktop_connection_sessions d)"
    by (rule map_upd_where_key_on) (use assms(2) in \<open>auto simp: conn_step_def\<close>)
  with assms map_open_upd [of "desktop_connection_sessions d" p f] show ?thesis by (simp add: connections_wf_def)
qed

text \<open>What every statement of the store does to the table of connections.\<close>

definition connections_kept :: "db \<Rightarrow> db \<Rightarrow> bool" where
  "connections_kept d d' \<longleftrightarrow> (connections_wf d \<longrightarrow> connections_wf d' \<and> connections_advance d d')"

lemma connections_kept_refl [simp]: "connections_kept d d"
  by (simp add: connections_kept_def)

lemma connections_kept_trans: "connections_kept a b \<Longrightarrow> connections_kept b c \<Longrightarrow> connections_kept a c"
  using connections_advance_trans by (auto simp: connections_kept_def)

lemma connections_kept_cong:
  "desktop_connection_sessions d' = desktop_connection_sessions d \<Longrightarrow> connections_kept d d'"
  by (simp add: connections_kept_def connections_wf_def connections_advance_cong)

lemma connections_kept_upd:
  assumes "desktop_connection_sessions d' = upd_where p f (desktop_connection_sessions d)"
    "\<And>c. connections_wf d \<Longrightarrow> c \<in> set (desktop_connection_sessions d) \<Longrightarrow> p c \<Longrightarrow> conn_step c (f c)"
  shows "connections_kept d d'"
  unfolding connections_kept_def
proof
  assume wf: "connections_wf d"
  show "connections_wf d' \<and> connections_advance d d'"
    using connections_advance_upd [OF assms(1) assms(2) [OF wf]] connections_wf_upd [OF assms(1) assms(2) [OF wf] wf] by simp
qed

lemma run_tx_connections:
  "(\<And>x d'. body d = Inr (x, d') \<Longrightarrow> connections_kept d d') \<Longrightarrow> connections_kept d (fst (run_tx fault body d))"
  by (rule run_tx_preserves) simp_all

lemma update_connections_kept:
  assumes "update_connections p f d = (rs, d')"
    "\<And>c. connections_wf d \<Longrightarrow> c \<in> set (desktop_connection_sessions d) \<Longrightarrow> p c \<Longrightarrow> conn_step c (f c)"
  shows "connections_kept d d'"
  using assms by (intro connections_kept_upd [of d' p f]) (auto simp: update_connections_def)

lemma conn_steps:
  "conn_open c \<Longrightarrow> conn_step c (revoking_connection now c)"
  "conn_open c \<Longrightarrow> conn_step c (begin_revoke now c)"
  "conn_open c \<Longrightarrow> conn_step c (ended_connection now c)"
  "c_state c = ConnRevoking \<Longrightarrow> s \<noteq> ConnActive \<Longrightarrow> conn_step c (close_connection now s c)"
  by (simp_all add: conn_step_def revoking_connection_def begin_revoke_def ended_connection_def close_connection_def
      conn_open_def)

lemma insert_connection_kept:
  assumes "insertDesktopConnectionSession now c digest b d = Inr (r, d')"
  shows "connections_kept d d'"
proof -
  let ?t = "desktop_connection_sessions d" and ?c = "new_connection now c digest"
  from assms have t: "desktop_connection_sessions d' = ?t @ [?c]"
    and n: "\<not> list_ex (\<lambda>q. c_id q = c_id c \<or> (c_desktop_vmid q = c_desktop_vmid c \<and> conn_open q)) ?t"
    by (auto simp: insertDesktopConnectionSession_def bindE_eq_Inr guardE_eq_Inr)
  have "connections_advance d d'" by (simp add: connections_advance_def t list.rel_refl)
  moreover have "c_id ?c \<notin> c_id ` set ?t" "c_desktop_vmid ?c \<notin> c_desktop_vmid ` set (filter conn_open ?t)"
    using n by (fastforce simp: new_connection_def list_ex_iff)+
  ultimately show ?thesis by (simp add: connections_kept_def connections_wf_def t)
qed

lemma due_is_open: "connection_due stamp d c \<Longrightarrow> conn_open c"
  by (auto simp: connection_due_def conn_open_def)

lemma due_ids_due:
  assumes "cid \<in> set (due_ids coll stamp locked limit d)"
  shows "\<exists>c \<in> set (desktop_connection_sessions d). c_id c = cid \<and> connection_due stamp d c \<and> \<not> locked cid"
  using assms by (auto simp: due_ids_def dest!: in_set_takeD)

lemma due_ids_row:
  assumes "connections_wf d" "c \<in> set (desktop_connection_sessions d)" "c_id c \<in> set (due_ids coll stamp locked limit d)"
  shows "connection_due stamp d c"
proof -
  obtain q where q: "q \<in> set (desktop_connection_sessions d)" "c_id q = c_id c" "connection_due stamp d q"
    using due_ids_due [OF assms(3)] by blast
  have "q = c" by (rule unique_by_same [of c_id]) (use assms(1,2) q in \<open>simp_all add: connections_wf_def\<close>)
  with q(3) show ?thesis by simp
qed

lemma put_binding_frame:
  assumes "put_binding_tx now b state d = Inr (r, d')"
  shows "\<exists>bs. d' = d\<lparr>guest_identity_bindings := bs\<rparr>"
proof (cases "find (same_binding b) (guest_identity_bindings d)")
  case None
  with assms show ?thesis by (simp add: put_binding_tx_def Let_def bindE_eq_Inr guardE_eq_Inr) blast
next
  case (Some q)
  with assms show ?thesis by (simp add: put_binding_tx_def Let_def bindE_eq_Inr guardE_eq_Inr) blast
qed

text \<open>Every operation of this theory keeps the table.\<close>

lemma connection_ops_kept:
  "connections_kept d (fst (CreateDesktopConnectionSession fault now c d))"
  "connections_kept d (fst (CreateNativeDesktopConnectionSession fault clock now c digest d))"
  "connections_kept d (fst (beginRevokeDesktopConnections fault now predicate d))"
  "connections_kept d (fst (BeginRevokeDesktopConnection fault fault2 now cid uid d))"
  "connections_kept d (fst (DesktopConnectionsDueForRevocation coll fault now stamp locked limit d))"
  "connections_kept d (fst (MarkDesktopConnectionClosed fault now cid state d))"
  "connections_kept d (fst (CompleteGuestIdentityRevocation fault now i d))"
  "connections_kept d (fst (QueueExpiredGuestIdentitiesForDesktop fault now vmid d))"
  "connections_kept d (fst (RecordGuestIdentityRevocationFailure fault now i d))"
  "connections_kept d (fst (PutGuestIdentityBinding fault now b bstate d))"
proof -
  have create: "connections_kept d (fst (createDesktopConnectionSession fault now c g d))" for g
    unfolding createDesktopConnectionSession_def by (rule run_tx_connections) (rule insert_connection_kept)
  show "connections_kept d (fst (CreateDesktopConnectionSession fault now c d))"
    unfolding CreateDesktopConnectionSession_def by (rule create)
  show "connections_kept d (fst (CreateNativeDesktopConnectionSession fault clock now c digest d))"
    using create by (simp add: CreateNativeDesktopConnectionSession_def)
  show "connections_kept d (fst (beginRevokeDesktopConnections fault now predicate d))"
    unfolding beginRevokeDesktopConnections_def
    by (rule run_tx_connections) (auto intro: conn_steps elim!: update_connections_kept)
  show "connections_kept d (fst (BeginRevokeDesktopConnection fault fault2 now cid uid d))"
  proof -
    have "connections_kept d (fst (run_tx fault (\<lambda>d. first_row ErrNotFound
                      (update_connections (\<lambda>c. c_id c = cid \<and> c_user_id c = uid \<and> conn_open c) (begin_revoke now) d)) d))"
      by (rule run_tx_connections) (auto simp: first_row_def intro: conn_steps split: list.splits
          intro!: update_connections_kept [OF surjective_pairing])
    then show ?thesis by (auto simp: BeginRevokeDesktopConnection_def split: prod.splits)
  qed
  show "connections_kept d (fst (DesktopConnectionsDueForRevocation coll fault now stamp locked limit d))"
    unfolding DesktopConnectionsDueForRevocation_def
    by (rule run_tx_connections) (auto intro: conn_steps(2) due_is_open due_ids_row elim!: update_connections_kept)
  show "connections_kept d (fst (MarkDesktopConnectionClosed fault now cid state d))"
  proof -
    have "connections_kept d (fst (run_tx fault (mark_closed_tx now cid s) d))" if "s \<noteq> ConnActive" for s
      by (rule run_tx_connections) (use that in \<open>auto simp: mark_closed_tx_def intro: conn_steps
          intro!: update_connections_kept [OF surjective_pairing]\<close>)
    then show ?thesis by (simp add: MarkDesktopConnectionClosed_def)
  qed
  show "connections_kept d (fst (CompleteGuestIdentityRevocation fault now i d))"
    unfolding CompleteGuestIdentityRevocation_def
    by (rule run_tx_connections, rule connections_kept_upd [where f = "ended_connection now" and
        p = "\<lambda>c. c_desktop_vmid c = ii_desktop_vmid i \<and> c_user_id c = ii_user_id i \<and>
          c_guest_username c = ii_guest_username i \<and> conn_open c"])
      (auto simp: complete_identity_tx_def audit_identity_revoked_def insert_audit_def bindE_eq_Inr guardE_eq_Inr intro: conn_steps)
  show "connections_kept d (fst (QueueExpiredGuestIdentitiesForDesktop fault now vmid d))"
    unfolding QueueExpiredGuestIdentitiesForDesktop_def
    by (rule run_tx_connections, rule connections_kept_cong) (auto simp: queueGuestIdentityRevocations_def)
  show "connections_kept d (fst (RecordGuestIdentityRevocationFailure fault now i d))"
    unfolding RecordGuestIdentityRevocationFailure_def
    by (rule run_tx_connections, rule connections_kept_cong) auto
  show "connections_kept d (fst (PutGuestIdentityBinding fault now b bstate d))"
    unfolding PutGuestIdentityBinding_def
    by (rule run_tx_connections, rule connections_kept_cong) (auto dest: put_binding_frame)
qed

section \<open>The queue of Guest identity revocations is a revision queue\<close>

definition r_key :: "GuestIdentityRevocation \<Rightarrow> int \<times> string \<times> string" where
  "r_key q = (r_desktop_vmid q, r_user_id q, r_guest_username q)"

definition keyed_row :: "db \<Rightarrow> int \<times> string \<times> string \<Rightarrow> GuestIdentityRevocation option" where
  "keyed_row d k = find (\<lambda>q. r_key q = k) (guest_identity_revocations d)"

definition identity_queue_keyed :: "db \<Rightarrow> bool" where
  "identity_queue_keyed d \<longleftrightarrow> identity_queue_wf d \<and> unique_by r_key (guest_identity_revocations d)"

definition key_pending :: "db \<Rightarrow> int \<times> string \<times> string \<Rightarrow> bool" where
  "key_pending d k \<longleftrightarrow> identity_pending d (fst k) (fst (snd k)) (snd (snd k))"

definition identity_revision :: "db \<Rightarrow> int \<times> string \<times> string \<Rightarrow> int" where
  "identity_revision d k = (case keyed_row d k of None \<Rightarrow> 0 | Some q \<Rightarrow> r_requested_revision q)"

text \<open>One request of the queueing statement, and one completion.\<close>

definition keyed_binding :: "int \<times> string \<times> string \<Rightarrow> GuestIdentityBinding" where
  "keyed_binding k =
     \<lparr>b_desktop_vmid = fst k, b_user_id = fst (snd k), b_profile_id = None, b_guest_username = snd (snd k),
      b_state = BindReady, b_last_error = [], b_session_expires_at = None, b_created_at = 0, b_updated_at = 0\<rparr>"

definition request_key :: "time \<times> revoke_reason \<Rightarrow> int \<times> string \<times> string \<Rightarrow> db \<Rightarrow> db" where
  "request_key p k d =
     d\<lparr>guest_identity_revocations :=
         request_identity (fst p) (snd p) (keyed_binding k) (guest_identity_revocations d)\<rparr>"

definition keyed_item :: "revoke_reason \<Rightarrow> int \<times> string \<times> string \<Rightarrow> int \<Rightarrow> IdentityItem" where
  "keyed_item reason k n =
     \<lparr>ii_desktop_vmid = fst k, ii_user_id = fst (snd k), ii_guest_username = snd (snd k), ii_revision = n, ii_reason = reason\<rparr>"

definition finish_key ::
  "tx_fault \<times> time \<times> revoke_reason \<Rightarrow> int \<times> string \<times> string \<Rightarrow> int \<Rightarrow> db \<Rightarrow> db" where
  "finish_key p k n d = fst (CompleteGuestIdentityRevocation (fst p) (fst (snd p)) (keyed_item (snd (snd p)) k n) d)"

lemma revocation_of_key: "revocation_of b q \<longleftrightarrow> r_key q = (b_desktop_vmid b, b_user_id b, b_guest_username b)"
  by (auto simp: revocation_of_def r_key_def)

lemma revocation_of_keyed [simp]: "revocation_of (keyed_binding k) = (\<lambda>q. r_key q = k)"
  by (auto simp: revocation_of_key keyed_binding_def fun_eq_iff)

lemma keyed_item_revision [simp]: "ii_revision (keyed_item reason k n) = n"
  by (simp add: keyed_item_def)

lemma item_open_keyed:
  "item_open (keyed_item reason k n) q \<longleftrightarrow> r_key q = k \<and> r_requested_revision q = n \<and> r_completed_revision q < n"
  by (cases k) (auto simp: item_open_def keyed_item_def r_key_def)

lemma key_pending_row:
  assumes "identity_queue_keyed d"
  shows "key_pending d k \<longleftrightarrow>
    (case keyed_row d k of None \<Rightarrow> False | Some q \<Rightarrow> r_completed_revision q < r_requested_revision q)"
proof -
  have p: "key_pending d k \<longleftrightarrow>
      (\<exists>q \<in> set (guest_identity_revocations d). r_key q = k \<and> r_completed_revision q < r_requested_revision q)"
    by (cases k) (auto simp: key_pending_def identity_pending_def list_ex_iff r_key_def)
  show ?thesis
  proof (cases "keyed_row d k")
    case None
    then have "r_key q \<noteq> k" if "q \<in> set (guest_identity_revocations d)" for q
      using that by (auto simp: keyed_row_def find_None_iff)
    then have "\<not> key_pending d k" unfolding p by blast
    with None show ?thesis by simp
  next
    case (Some q)
    then have q: "q \<in> set (guest_identity_revocations d)" "r_key q = k" by (auto simp: keyed_row_def dest: find_SomeD)
    have "r = q" if "r \<in> set (guest_identity_revocations d)" "r_key r = k" for r
      by (rule unique_by_same [of r_key]) (use assms q that in \<open>simp_all add: identity_queue_keyed_def\<close>)
    then have "key_pending d k \<longleftrightarrow> r_completed_revision q < r_requested_revision q" unfolding p using q by blast
    with Some show ?thesis by simp
  qed
qed

lemma r_key_updates [simp]:
  "r_key (q\<lparr>r_requested_revision := n\<rparr>) = r_key q" "r_key (q\<lparr>r_completed_revision := n\<rparr>) = r_key q"
  "r_key (q\<lparr>r_reason := x\<rparr>) = r_key q" "r_key (q\<lparr>r_last_error := e\<rparr>) = r_key q"
  "r_key (q\<lparr>r_updated_at := t\<rparr>) = r_key q"
  by (simp_all add: r_key_def)

lemma keyed_row_request:
  "keyed_row (request_key p k d) k' =
     (if k' = k then Some (case keyed_row d k of
        None \<Rightarrow> \<lparr>r_desktop_vmid = fst k, r_user_id = fst (snd k), r_guest_username = snd (snd k), r_requested_revision = 1,
                 r_completed_revision = 0, r_reason = snd p, r_last_error = [], r_updated_at = fst p\<rparr>
      | Some q \<Rightarrow> q\<lparr>r_requested_revision := r_requested_revision q + 1, r_reason := snd p, r_last_error := [],
                     r_updated_at := fst p\<rparr>)
      else keyed_row d k')"
proof (cases "list_ex (\<lambda>q. r_key q = k) (guest_identity_revocations d)")
  case True
  let ?f = "\<lambda>q. q\<lparr>r_requested_revision := r_requested_revision q + 1, r_reason := snd p, r_last_error := [], r_updated_at := fst p\<rparr>"
  have "keyed_row (request_key p k d) k' = map_option (\<lambda>q. if r_key q = k then ?f q else q) (keyed_row d k')"
    unfolding keyed_row_def request_key_def request_identity_def
    using True by (simp add: find_upd_where)
  moreover obtain q where "keyed_row d k = Some q" using True by (auto simp: list_ex_find keyed_row_def)
  moreover have "keyed_row d k' = Some r \<Longrightarrow> r_key r = k'" for r by (auto simp: keyed_row_def dest: find_SomeD)
  ultimately show ?thesis by (cases "keyed_row d k'") auto
next
  case False
  then have none: "keyed_row d k = None" by (simp add: list_ex_find keyed_row_def)
  let ?q = "\<lparr>r_desktop_vmid = fst k, r_user_id = fst (snd k), r_guest_username = snd (snd k), r_requested_revision = 1,
                 r_completed_revision = 0, r_reason = snd p, r_last_error = [], r_updated_at = fst p\<rparr>"
  have "guest_identity_revocations (request_key p k d) = guest_identity_revocations d @ [?q]"
    using False by (simp add: request_key_def request_identity_def) (simp add: keyed_binding_def)
  moreover have "r_key ?q = k" by (simp add: r_key_def)
  ultimately show ?thesis using none by (auto simp: keyed_row_def find_snoc split: option.splits)
qed

lemma request_key_wf: "identity_queue_keyed d \<Longrightarrow> identity_queue_keyed (request_key p k d)"
proof -
  assume wf: "identity_queue_keyed d"
  have "\<forall>q \<in> set (guest_identity_revocations d). 0 \<le> r_completed_revision q \<and> r_completed_revision q \<le> r_requested_revision q"
    using wf by (simp add: identity_queue_keyed_def identity_queue_wf_def list_all_iff)
  then have "\<forall>q \<in> set (request_identity (fst p) (snd p) (keyed_binding k) (guest_identity_revocations d)).
      0 \<le> r_completed_revision q \<and> r_completed_revision q \<le> r_requested_revision q"
    using request_identity_wf by blast
  then have "identity_queue_wf (request_key p k d)"
    by (simp add: identity_queue_wf_def request_key_def list_all_iff)
  moreover have "unique_by r_key (guest_identity_revocations (request_key p k d))"
  proof (cases "list_ex (\<lambda>q. r_key q = k) (guest_identity_revocations d)")
    case True
    with wf show ?thesis by (simp add: identity_queue_keyed_def request_key_def request_identity_def unique_by_upd_where)
  next
    case False
    then have "k \<notin> r_key ` set (guest_identity_revocations d)" by (auto simp: list_ex_iff)
    with wf False show ?thesis
      by (simp add: identity_queue_keyed_def request_key_def request_identity_def) (simp add: r_key_def keyed_binding_def)
  qed
  ultimately show ?thesis by (simp add: identity_queue_keyed_def)
qed

lemma complete_identity_cases:
  "fst (CompleteGuestIdentityRevocation fault now i d) = d \<or>
   guest_identity_revocations (fst (CompleteGuestIdentityRevocation fault now i d)) =
     upd_where (item_open i) (\<lambda>q. q\<lparr>r_completed_revision := ii_revision i, r_last_error := [], r_updated_at := now\<rparr>)
       (guest_identity_revocations d)"
proof -
  have "guest_identity_revocations d' = upd_where (item_open i)
      (\<lambda>q. q\<lparr>r_completed_revision := ii_revision i, r_last_error := [], r_updated_at := now\<rparr>) (guest_identity_revocations d)"
    if "complete_identity_tx now i d = Inr (x, d')" for x d'
    using that by (auto simp: complete_identity_tx_def bindE_eq_Inr guardE_eq_Inr audit_identity_revoked_def insert_audit_def)
  then show ?thesis
    using run_tx_state [of fault "complete_identity_tx now i" d] unfolding CompleteGuestIdentityRevocation_def by blast
qed

lemma keyed_row_finish:
  "keyed_row (finish_key p k n d) k' = keyed_row d k' \<or>
   keyed_row (finish_key p k n d) k' =
     map_option (\<lambda>q. if r_key q = k \<and> r_requested_revision q = n \<and> r_completed_revision q < n
        then q\<lparr>r_completed_revision := n, r_last_error := [], r_updated_at := fst (snd p)\<rparr> else q) (keyed_row d k')"
proof -
  let ?i = "keyed_item (snd (snd p)) k n"
  have "find (\<lambda>q. r_key q = k') (upd_where (item_open ?i)
          (\<lambda>q. q\<lparr>r_completed_revision := n, r_last_error := [], r_updated_at := fst (snd p)\<rparr>)
          (guest_identity_revocations d)) =
        map_option (\<lambda>q. if item_open ?i q
          then q\<lparr>r_completed_revision := n, r_last_error := [], r_updated_at := fst (snd p)\<rparr> else q)
          (find (\<lambda>q. r_key q = k') (guest_identity_revocations d))"
    by (rule find_upd_where) simp
  then show ?thesis
    using complete_identity_cases [of "fst p" "fst (snd p)" ?i d, unfolded keyed_item_revision]
    by (auto simp: keyed_row_def finish_key_def item_open_keyed)
qed

lemma finish_key_wf:
  assumes "identity_queue_keyed d"
  shows "identity_queue_keyed (finish_key p k n d)"
proof -
  let ?i = "keyed_item (snd (snd p)) k n"
  let ?t = "upd_where (item_open ?i) (\<lambda>q. q\<lparr>r_completed_revision := ii_revision ?i, r_last_error := [],
      r_updated_at := fst (snd p)\<rparr>) (guest_identity_revocations d)"
  have "\<forall>q \<in> set (guest_identity_revocations d). 0 \<le> r_completed_revision q \<and> r_completed_revision q \<le> r_requested_revision q"
    using assms by (auto simp: identity_queue_keyed_def identity_queue_wf_def list_all_iff)
  then have "\<forall>q \<in> set ?t. 0 \<le> r_completed_revision q \<and> r_completed_revision q \<le> r_requested_revision q"
    unfolding ball_upd_where by (fastforce simp: item_open_def)
  moreover have "unique_by r_key ?t" using assms by (simp add: identity_queue_keyed_def unique_by_upd_where)
  ultimately show ?thesis
    using complete_identity_cases [of "fst p" "fst (snd p)" ?i d] assms
    by (auto simp only: finish_key_def identity_queue_keyed_def identity_queue_wf_def list_all_iff)
qed

interpretation iq: revision_queue identity_queue_keyed key_pending identity_revision request_key finish_key
proof
  fix d p and k k' :: "int \<times> string \<times> string" and q n
  assume wf: "identity_queue_keyed d"
  show "identity_queue_keyed (request_key p k d)" by (rule request_key_wf [OF wf])
  show "identity_queue_keyed (finish_key q k n d)" by (rule finish_key_wf [OF wf])
  note [simp] = key_pending_row [OF wf] key_pending_row [OF request_key_wf [OF wf]]
    key_pending_row [OF finish_key_wf [OF wf]] identity_revision_def keyed_row_request
  have le: "r_completed_revision r \<le> r_requested_revision r" if "keyed_row d x = Some r" for x r
    using wf that
    by (auto simp: keyed_row_def identity_queue_keyed_def identity_queue_wf_def list_all_iff dest: find_SomeD)
  have key: "r_key r = x" if "keyed_row d x = Some r" for x r
    using that by (auto simp: keyed_row_def dest: find_SomeD)
  show "key_pending (request_key p k d) k" using le by (fastforce split: option.splits)
  show "identity_revision d k < identity_revision (request_key p k d) k" by (simp split: option.splits)
  show "key_pending (request_key p k d) k' = key_pending d k' \<and>
        identity_revision (request_key p k d) k' = identity_revision d k'" if "k' \<noteq> k"
    using that by simp
  show "key_pending (finish_key q k n d) k \<and> identity_revision (finish_key q k n d) k = identity_revision d k"
    if "n < identity_revision d k" "key_pending d k"
    using that keyed_row_finish [of q k n d k] by (auto split: option.splits)
  show "key_pending (finish_key q k n d) k' = key_pending d k' \<and>
        identity_revision (finish_key q k n d) k' = identity_revision d k'" if "k' \<noteq> k"
  proof (cases "keyed_row d k'")
    case (Some r)
    then have "r_key r \<noteq> k" using that key by simp
    with Some show ?thesis using keyed_row_finish [of q k n d k'] by auto
  next
    case None
    then show ?thesis using keyed_row_finish [of q k n d k'] by auto
  qed
qed

section \<open>Properties\<close>

text \<open>
  C18. Issuing a connection: it is granted only while the user has access to the desktop, while the
  Native session that asks for it is live, and while neither a Guest revocation nor a Native credential
  holds the desktop; afterwards it is the only open connection of the desktop, its deadline is the
  deadline of the user's Guest login, and nothing of the agents' authority has changed.
\<close>

theorem CreateNativeDesktopConnectionSession_safe:
  assumes "CreateNativeDesktopConnectionSession fault clock now c digest d = (d', Inr r)"
  shows "r = new_connection now c (Some digest) \<and> clock < c_expires_at r \<and>
     effective_user_desktop_access d' (c_user_id r) (c_desktop_vmid r) \<and>
     (\<exists>n \<in> set (native_sessions d'). ns_token_digest n = digest \<and> ns_user_id n = c_user_id r \<and> now < ns_expires_at n) \<and>
     \<not> identity_revocation_pending d' (c_desktop_vmid r) \<and>
     \<not> list_ex (\<lambda>a. na_desktop_vmid a = c_desktop_vmid r \<and> (na_user_id a = c_user_id r \<or> native_reserves a))
        (native_guest_accounts d') \<and>
     filter (\<lambda>q. c_desktop_vmid q = c_desktop_vmid r \<and> conn_open q) (desktop_connection_sessions d') = [r] \<and>
     list_all (\<lambda>b. b_desktop_vmid b = c_desktop_vmid r \<and> b_user_id b = c_user_id r \<longrightarrow>
        b_session_expires_at b = Some (c_expires_at r)) (guest_identity_bindings d') \<and>
     same_authority d d'"
proof -
  let ?r = "new_connection now c (Some digest)"
  from assms have ins: "insertDesktopConnectionSession now c (Some digest) False d = Inr (r, d')" and clock: "clock < c_expires_at c"
    by (auto simp: CreateNativeDesktopConnectionSession_def createDesktopConnectionSession_def run_tx_eq_Inr split: if_splits)
  then have perm: "connection_permitted now c (Some digest) False d"
    and free: "\<not> list_ex (\<lambda>q. c_id q = c_id c \<or> (c_desktop_vmid q = c_desktop_vmid c \<and> conn_open q)) (desktop_connection_sessions d)"
    and r: "r = ?r"
    and d': "d' = d\<lparr>desktop_connection_sessions := desktop_connection_sessions d @ [?r],
              guest_identity_bindings := upd_where (\<lambda>b. b_desktop_vmid b = c_desktop_vmid c \<and> b_user_id b = c_user_id c)
                (\<lambda>b. b\<lparr>b_session_expires_at := Some (c_expires_at c), b_updated_at := now\<rparr>) (guest_identity_bindings d)\<rparr>"
    by (auto simp: insertDesktopConnectionSession_def bindE_eq_Inr guardE_eq_Inr)
  have sel: "c_user_id ?r = c_user_id c" "c_desktop_vmid ?r = c_desktop_vmid c" "c_expires_at ?r = c_expires_at c" "conn_open ?r"
    by (simp_all add: new_connection_def conn_open_def)
  have "same_grants d d'" by (simp add: same_grants_def d')
  note access = same_grants_access [OF this]
  have "filter (\<lambda>q. c_desktop_vmid q = c_desktop_vmid c \<and> conn_open q) (desktop_connection_sessions d) = []"
    using free by (auto simp: list_ex_iff filter_empty_conv)
  moreover have "list_all (\<lambda>b. b_desktop_vmid b = c_desktop_vmid c \<and> b_user_id b = c_user_id c \<longrightarrow>
        b_session_expires_at b = Some (c_expires_at c)) (guest_identity_bindings d')"
    by (auto simp: d' list_all_iff ball_upd_where)
  moreover have "same_authority d d'" by (simp add: same_authority_def d')
  ultimately show ?thesis using perm clock
    unfolding r sel access connection_permitted_def by (simp add: d' sel list_ex_iff identity_revocation_pending_def)
qed

lemma length_filter_ids:
  assumes "unique_by c_id t" "distinct ids" "set ids \<subseteq> c_id ` set t"
  shows "length (filter (\<lambda>c. c_id c \<in> set ids) t) = length ids"
proof -
  have "c_id ` set (filter (\<lambda>c. c_id c \<in> set ids) t) = set ids" using assms(3) by auto
  moreover have "distinct (map c_id (filter (\<lambda>c. c_id c \<in> set ids) t))" by (rule distinct_map_filter [OF assms(1)])
  ultimately have "card (set ids) = length (filter (\<lambda>c. c_id c \<in> set ids) t)"
    by (metis distinct_card length_map set_map)
  then show ?thesis using distinct_card [OF assms(2)] by simp
qed

lemma unique_by_order_by: "unique_by k xs \<Longrightarrow> unique_by k (order_by le xs)"
  using distinct_card [of "map k xs"] by (intro card_distinct) simp

text \<open>
  The sweep of due connections: every connection it returns was due and is now being revoked, the
  rest of the table is as it was, no more than the limit are taken, a due connection that is not taken
  means that the limit was reached by connections with deadlines no later than its own.
\<close>

theorem DesktopConnectionsDueForRevocation_sweeps:
  assumes "connections_wf d" "total_preorder coll"
    "DesktopConnectionsDueForRevocation coll fault now stamp (\<lambda>_. False) limit d = (d', Inr rs)"
  shows "(\<forall>r \<in> set rs. \<exists>c \<in> set (desktop_connection_sessions d). connection_due stamp d c \<and> r = begin_revoke now c) \<and>
     desktop_connection_sessions d' =
       map (\<lambda>c. if begin_revoke now c \<in> set rs then begin_revoke now c else c) (desktop_connection_sessions d) \<and>
     length rs = min (due_limit limit) (length (filter (connection_due stamp d) (desktop_connection_sessions d))) \<and>
     (\<forall>c \<in> set (desktop_connection_sessions d). connection_due stamp d c \<and> begin_revoke now c \<notin> set rs \<longrightarrow>
        length rs = due_limit limit \<and> (\<forall>r \<in> set rs. c_expires_at r \<le> c_expires_at c))"
proof -
  let ?t = "desktop_connection_sessions d"
  let ?le = "then_by (by_key (\<le>) c_expires_at) (by_key coll c_id) :: DesktopConnectionSession \<Rightarrow> _"
  let ?due = "filter (connection_due stamp d) ?t"
  let ?xs = "order_by ?le ?due"
  let ?n = "due_limit limit"
  let ?ids = "due_ids coll stamp (\<lambda>_. False) limit d"
  have u: "unique_by c_id ?t" using assms(1) by (simp add: connections_wf_def)
  have ids: "?ids = map c_id (take ?n ?xs)" by (simp add: due_ids_def)
  have rs: "rs = map (begin_revoke now) (filter (\<lambda>c. c_id c \<in> set ?ids) ?t)"
    and t': "desktop_connection_sessions d' = upd_where (\<lambda>c. c_id c \<in> set ?ids) (begin_revoke now) ?t"
    using assms(3) by (auto simp: DesktopConnectionsDueForRevocation_def run_tx_eq_Inr update_connections_def)
  have inj: "begin_revoke now c \<in> set rs \<longleftrightarrow> c_id c \<in> set ?ids" if "c \<in> set ?t" for c
  proof
    assume "begin_revoke now c \<in> set rs"
    then obtain q where q: "c_id q \<in> set ?ids" "begin_revoke now c = begin_revoke now q" unfolding rs by auto
    have "c_id (begin_revoke now c) = c_id (begin_revoke now q)" using q(2) by simp
    with q(1) show "c_id c \<in> set ?ids" by (simp add: begin_revoke_def)
  qed (use that in \<open>auto simp: rs\<close>)
  have d1: "distinct (map c_id ?xs)" by (rule unique_by_order_by) (rule distinct_map_filter [OF u])
  have sub: "set ?ids \<subseteq> c_id ` set ?t" by (auto simp: ids dest: in_set_takeD)
  have len: "length rs = min ?n (length ?due)"
    unfolding rs length_map using d1 distinct_take [of "map c_id ?xs" ?n]
    by (subst length_filter_ids [OF u _ sub]) (simp_all add: ids take_map min.commute)
  have due: "\<exists>c \<in> set ?t. connection_due stamp d c \<and> r = begin_revoke now c" if "r \<in> set rs" for r
  proof -
    from that obtain q where "q \<in> set ?t" "c_id q \<in> set ?ids" "r = begin_revoke now q" by (auto simp: rs)
    with due_ids_row [OF assms(1)] show ?thesis by blast
  qed
  have late: "length rs = ?n \<and> (\<forall>r \<in> set rs. c_expires_at r \<le> c_expires_at c)"
    if c: "c \<in> set ?t" "connection_due stamp d c" "begin_revoke now c \<notin> set rs" for c
  proof -
    have cx: "c \<in> set ?xs" "c_id c \<notin> set ?ids" using c inj by auto
    then have "c \<in> set (take ?n ?xs @ drop ?n ?xs)" "c \<notin> set (take ?n ?xs)" by (simp, force simp: ids)
    then have "c \<in> set (drop ?n ?xs)" unfolding set_append by blast
    then have long: "?n < length ?xs" by (metis drop_all empty_iff linorder_not_less list.set(1))
    have s: "sorted_wrt ?le (take ?n ?xs @ drop ?n ?xs)"
      using sorted_order_by [of ?le ?due] assms(2)
      by (simp add: total_preorder_then_by total_preorder_by_key total_preorder_int)
    have "c_expires_at r \<le> c_expires_at c" if r: "r \<in> set rs" for r
    proof -
      obtain q where q: "r = begin_revoke now q" "q \<in> set ?t" "c_id q \<in> set ?ids" using r by (auto simp: rs)
      obtain x where x: "x \<in> set (take ?n ?xs)" "c_id x = c_id q" using q(3) by (auto simp: ids)
      have "x \<in> set ?t" using x(1) by (auto dest: in_set_takeD)
      then have "x = q" using unique_by_same [OF u] q(2) x(2) by blast
      then have "?le q c" using s [unfolded sorted_wrt_append] x(1) \<open>c \<in> set (drop ?n ?xs)\<close> by blast
      then show ?thesis by (auto simp: q(1) begin_revoke_def then_by_def by_key_def)
    qed
    with len long show ?thesis by simp
  qed
  have "desktop_connection_sessions d' = map (\<lambda>c. if begin_revoke now c \<in> set rs then begin_revoke now c else c) ?t"
    unfolding t' upd_where_def by (rule map_cong) (simp_all add: inj)
  with due len late show ?thesis by blast
qed

text \<open>
  Completing a revocation: only the revision that is pending can be completed; then the identity is
  no longer pending, its binding is disabled without a deadline, none of its connections is open, one
  audit event is written, and completing the same revision again is refused without any effect.
\<close>

theorem CompleteGuestIdentityRevocation_once:
  assumes "identity_queue_keyed d" "CompleteGuestIdentityRevocation fault now i d = (d', Inr u)"
  shows "identity_pending d (ii_desktop_vmid i) (ii_user_id i) (ii_guest_username i) \<and>
     identity_revision d (ii_desktop_vmid i, ii_user_id i, ii_guest_username i) = ii_revision i \<and>
     \<not> identity_pending d' (ii_desktop_vmid i) (ii_user_id i) (ii_guest_username i) \<and>
     list_all (\<lambda>b. b_desktop_vmid b = ii_desktop_vmid i \<and> b_user_id b = ii_user_id i \<and> b_guest_username b = ii_guest_username i \<longrightarrow>
        b_state b = BindDisabled \<and> b_session_expires_at b = None) (guest_identity_bindings d') \<and>
     list_all (\<lambda>c. c_desktop_vmid c = ii_desktop_vmid i \<and> c_user_id c = ii_user_id i \<and> c_guest_username c = ii_guest_username i \<longrightarrow>
        \<not> conn_open c) (desktop_connection_sessions d') \<and>
     length (audit_events d') = Suc (length (audit_events d)) \<and>
     CompleteGuestIdentityRevocation NoFault now' i d' = (d', Inl ErrConflict)"
proof -
  let ?k = "(ii_desktop_vmid i, ii_user_id i, ii_guest_username i)"
  let ?f = "\<lambda>q. q\<lparr>r_completed_revision := ii_revision i, r_last_error := [], r_updated_at := now\<rparr>"
  let ?t = "guest_identity_revocations d"
  from assms(2) have one: "length (filter (item_open i) ?t) = 1"
    and d': "d' = audit_identity_revoked now i
         (d\<lparr>guest_identity_revocations := upd_where (item_open i) ?f ?t,
            guest_identity_bindings := upd_where (\<lambda>b. b_desktop_vmid b = ii_desktop_vmid i \<and>
                b_user_id b = ii_user_id i \<and> b_guest_username b = ii_guest_username i)
              (\<lambda>b. b\<lparr>b_session_expires_at := None, b_state := BindDisabled, b_updated_at := now\<rparr>)
              (guest_identity_bindings d),
            desktop_connection_sessions := upd_where (\<lambda>c. c_desktop_vmid c = ii_desktop_vmid i \<and>
                c_user_id c = ii_user_id i \<and> c_guest_username c = ii_guest_username i \<and> conn_open c)
              (ended_connection now) (desktop_connection_sessions d)\<rparr>)"
    by (auto simp: CompleteGuestIdentityRevocation_def run_tx_eq_Inr complete_identity_tx_def bindE_eq_Inr guardE_eq_Inr)
  from one obtain q where q: "filter (item_open i) ?t = [q]" by (cases "filter (item_open i) ?t") auto
  then have "q \<in> set (filter (item_open i) ?t)" by simp
  then have qt: "q \<in> set ?t" "item_open i q" by auto
  have key: "r_key q = ?k" using qt(2) by (simp add: item_open_def r_key_def)
  have same: "r = q" if "r \<in> set ?t" "r_key r = ?k" for r
    by (rule unique_by_same [of r_key]) (use assms(1) qt that key in \<open>simp_all add: identity_queue_keyed_def\<close>)
  have "keyed_row d ?k = Some q"
    unfolding keyed_row_def
    by (rule unique_by_find [of r_key]) (use assms(1) qt key in \<open>simp_all add: identity_queue_keyed_def\<close>)
  then have rev: "identity_revision d ?k = ii_revision i" using qt(2) by (simp add: identity_revision_def item_open_def)
  have t': "guest_identity_revocations d' = upd_where (item_open i) ?f ?t"
    and b': "guest_identity_bindings d' = upd_where (\<lambda>b. b_desktop_vmid b = ii_desktop_vmid i \<and>
                b_user_id b = ii_user_id i \<and> b_guest_username b = ii_guest_username i)
              (\<lambda>b. b\<lparr>b_session_expires_at := None, b_state := BindDisabled, b_updated_at := now\<rparr>)
              (guest_identity_bindings d)"
    and c': "desktop_connection_sessions d' = upd_where (\<lambda>c. c_desktop_vmid c = ii_desktop_vmid i \<and>
                c_user_id c = ii_user_id i \<and> c_guest_username c = ii_guest_username i \<and> conn_open c)
              (ended_connection now) (desktop_connection_sessions d)"
    and a': "length (audit_events d') = Suc (length (audit_events d))"
    by (simp_all add: d' audit_identity_revoked_def insert_audit_def)
  have pending: "identity_pending d (ii_desktop_vmid i) (ii_user_id i) (ii_guest_username i)"
    using qt by (auto simp: identity_pending_def list_ex_iff item_open_def)
  have over: "\<not> r_completed_revision r < r_requested_revision r"
    if "r \<in> set (guest_identity_revocations d')" "r_key r = ?k" for r
    using that same qt(2) by (auto simp: t' set_upd_where item_open_def split: if_splits)
  have "\<not> item_open i r" if "r \<in> set (guest_identity_revocations d')" for r
    using over [OF that] by (auto simp: item_open_def r_key_def)
  then have "filter (item_open i) (guest_identity_revocations d') = []" by (simp add: filter_empty_conv)
  then have "CompleteGuestIdentityRevocation NoFault now' i d' = (d', Inl ErrConflict)"
    by (simp add: CompleteGuestIdentityRevocation_def complete_identity_tx_def)
  moreover have "\<not> identity_pending d' (ii_desktop_vmid i) (ii_user_id i) (ii_guest_username i)"
    using over by (auto simp: identity_pending_def list_ex_iff r_key_def)
  moreover have "list_all (\<lambda>b. b_desktop_vmid b = ii_desktop_vmid i \<and> b_user_id b = ii_user_id i \<and> b_guest_username b = ii_guest_username i \<longrightarrow>
        b_state b = BindDisabled \<and> b_session_expires_at b = None) (guest_identity_bindings d')"
    unfolding b' list_all_iff ball_upd_where by auto
  moreover have "list_all (\<lambda>c. c_desktop_vmid c = ii_desktop_vmid i \<and> c_user_id c = ii_user_id i \<and> c_guest_username c = ii_guest_username i \<longrightarrow>
        \<not> conn_open c) (desktop_connection_sessions d')"
    unfolding c' list_all_iff ball_upd_where by (simp add: ended_connection_def conn_open_def)
  ultimately show ?thesis using a' rev pending by blast
qed

text \<open>
  A Guest identity revocation that is requested while older revisions of it are being completed
  stays pending: no completion of a revision up to the one read before the request clears it.
\<close>

theorem newer_identity_revocation_survives:
  assumes "identity_queue_keyed d" "finishes_upto k (identity_revision d k) es"
  shows "key_pending (run_queue request_key finish_key es (request_key p k d)) k"
  by (rule iq.newer_request_survives [OF assms])

section \<open>Witnesses\<close>

definition ex_request_connection :: DesktopConnectionSession where
  "ex_request_connection = ex_connection\<lparr>c_id := ''conn_00000002''\<rparr>"

definition ex_idle_db :: db where
  "ex_idle_db = ex_users_db\<lparr>desktop_connection_sessions := []\<rparr>"

definition ex_identity_item :: IdentityItem where
  "ex_identity_item = \<lparr>ii_desktop_vmid = 100, ii_user_id = ''u1'', ii_guest_username = ''vcwada'', ii_revision = 1,
     ii_reason = ExpiredReason\<rparr>"

definition ex_queued_db :: db where
  "ex_queued_db = fst (QueueExpiredGuestIdentities NoFault 90 ex_users_db)"

theorem CreateNativeDesktopConnectionSession_safe_witness:
  "\<exists>d' r. CreateNativeDesktopConnectionSession NoFault 50 60 ex_request_connection ''n1'' ex_idle_db = (d', Inr r) \<and>
     effective_user_desktop_access d' ''u1'' 100 \<and> desktop_connection_sessions d' = [r]"
proof -
  let ?r = "CreateNativeDesktopConnectionSession NoFault 50 60 ex_request_connection ''n1'' ex_idle_db"
  have "\<not> isl (snd ?r)" by code_simp
  then obtain d' r where ok: "?r = (d', Inr r)" using succeeds by blast
  have "desktop_connection_sessions (fst ?r) = [new_connection 60 ex_request_connection (Some ''n1'')]" by code_simp
  with CreateNativeDesktopConnectionSession_safe [OF ok] ok show ?thesis
    by (auto simp: new_connection_def ex_request_connection_def ex_connection_def)
qed

theorem DesktopConnectionsDueForRevocation_sweeps_witness:
  "\<exists>d' rs. DesktopConnectionsDueForRevocation (\<lambda>_ _. True) NoFault 95 95 (\<lambda>_. False) 0 ex_users_db = (d', Inr rs) \<and>
     length rs = 1 \<and> desktop_connection_sessions d' = [begin_revoke 95 ex_connection]"
proof -
  let ?r = "DesktopConnectionsDueForRevocation (\<lambda>_ _. True) NoFault 95 95 (\<lambda>_. False) 0 ex_users_db"
  have "\<not> isl (snd ?r)" by code_simp
  then obtain d' rs where ok: "?r = (d', Inr rs)" using succeeds by blast
  have "connections_wf ex_users_db" "desktop_connection_sessions (fst ?r) = [begin_revoke 95 ex_connection]"
    "min (due_limit 0) (length (filter (connection_due 95 ex_users_db) (desktop_connection_sessions ex_users_db))) = 1"
    by code_simp+
  with DesktopConnectionsDueForRevocation_sweeps [OF _ _ ok] ok show ?thesis by (auto simp: total_preorder_def)
qed

theorem CompleteGuestIdentityRevocation_once_witness:
  "\<exists>d'. CompleteGuestIdentityRevocation NoFault 91 ex_identity_item ex_queued_db = (d', Inr ()) \<and>
     identity_pending ex_queued_db 100 ''u1'' ''vcwada'' \<and> \<not> identity_pending d' 100 ''u1'' ''vcwada'' \<and>
     CompleteGuestIdentityRevocation NoFault 92 ex_identity_item d' = (d', Inl ErrConflict)"
proof -
  let ?r = "CompleteGuestIdentityRevocation NoFault 91 ex_identity_item ex_queued_db"
  have "\<not> isl (snd ?r)" by code_simp
  then obtain d' where ok: "?r = (d', Inr ())" using succeeds [of ?r] by auto
  have "identity_queue_keyed ex_queued_db" by code_simp
  from CompleteGuestIdentityRevocation_once [OF this ok, of 92] ok show ?thesis
    by (simp add: ex_identity_item_def)
qed

theorem newer_identity_revocation_survives_witness:
  "identity_revision ex_queued_db (100, ''u1'', ''vcwada'') = 1 \<and>
   key_pending (run_queue request_key finish_key [Finish (NoFault, 95, ExpiredReason) (100, ''u1'', ''vcwada'') 1]
     (request_key (92, AccessRemoved) (100, ''u1'', ''vcwada'') ex_queued_db)) (100, ''u1'', ''vcwada'')"
proof -
  let ?k = "(100, ''u1'', ''vcwada'') :: int \<times> string \<times> string"
  have r: "identity_revision ex_queued_db ?k = 1" and wf: "identity_queue_keyed ex_queued_db" by code_simp+
  have "finishes_upto ?k (identity_revision ex_queued_db ?k)
      [Finish (NoFault, 95, ExpiredReason) ?k 1 :: (time \<times> revoke_reason, tx_fault \<times> time \<times> revoke_reason, int \<times> string \<times> string) queue_event]"
    by (simp add: r finishes_upto_def)
  from newer_identity_revocation_survives [OF wf this] r show ?thesis by blast
qed

end
