(* ===== verification/Native_Accounts.thy ===== *)
theory Native_Accounts
  imports Connections
begin

text \<open>
  The Guest accounts behind Native connections: \<open>native_guest_account.go\<close> and \<open>native_guest_recovery.go\<close>
  with the table constraints and triggers of migrations 028 and 030.  An account pins an operating system
  identity; each credential operation is a new revision of it, pending until the Guest confirms it.  The
  Go struct leaves out the columns for the initiating session and the times.  A deadline has no part of
  a second when its microseconds are a multiple of a million.
\<close>

section \<open>Constraints and triggers\<close>

definition NativeGuestUsername :: "string \<Rightarrow> string" where
  "NativeGuestUsername userID = ''vcw'' @ hex_encode (take 6 (Sum256 userID))"

definition nativeConnectionID :: "string \<Rightarrow> bool" where
  "nativeConnectionID s \<longleftrightarrow> matches_class ''conn_'' is_token_char 8 128 s"

text \<open>The CHECK constraints of the table.\<close>

definition native_check :: "NativeGuestAccount \<Rightarrow> bool" where
  "native_check a \<longleftrightarrow>
     matches_class ''vcw'' is_lower_hex 12 12 (na_guest_username a) \<and> na_os_family a \<noteq> OsUnknown \<and> 0 \<le> na_revision a \<and>
     ((na_os_family a = OsLinux \<and> 1000 \<le> na_guest_uid a \<and> na_guest_sid a = []) \<or>
      (na_os_family a = OsWindows \<and> na_guest_uid a = 0 \<and> vcw_valid_windows_account_sid (na_guest_sid a))) \<and>
     ((na_revision a = 0 \<and> na_operation a = OpNone \<and> na_state a = NativeIdle \<and> na_connection_id a = [] \<and> na_expires_at a = None) \<or>
      (0 < na_revision a \<and> na_operation a \<noteq> OpNone \<and> na_state a \<noteq> NativeIdle \<and> nativeConnectionID (na_connection_id a) \<and>
         (((na_operation a = OpIssue \<or> na_operation a = OpRetire) \<and> na_expires_at a \<noteq> None) \<or>
          (na_operation a = OpRevoke \<and> na_expires_at a = None)))) \<and>
     ((na_operation a = OpIssue \<and> na_state a = NativePending \<and>
         (case na_native_session_digest a of None \<Rightarrow> False | Some h \<Rightarrow> 0 < length h)) \<or>
      ((na_operation a \<noteq> OpIssue \<or> na_state a \<noteq> NativePending) \<and> na_native_session_digest a = None))"

definition native_unique :: "NativeGuestAccount list \<Rightarrow> bool" where
  "native_unique t \<longleftrightarrow>
     unique_by (\<lambda>a. (na_desktop_vmid a, na_user_id a)) t \<and>
     unique_by (\<lambda>a. (na_desktop_vmid a, na_guest_username a)) t \<and>
     unique_by (\<lambda>a. (na_desktop_vmid a, na_guest_uid a)) (filter (\<lambda>a. 1000 \<le> na_guest_uid a) t) \<and>
     unique_by (\<lambda>a. (na_desktop_vmid a, na_guest_sid a)) (filter (\<lambda>a. na_guest_sid a \<noteq> []) t) \<and>
     unique_by na_connection_id (filter (\<lambda>a. na_connection_id a \<noteq> []) t)"

text \<open>\<open>protect_cross_subject_guest_account\<close> on this table.\<close>

definition agent_has_identity :: "NativeGuestAccount \<Rightarrow> AgentGuestSession \<Rightarrow> bool" where
  "agent_has_identity a s \<longleftrightarrow>
     s_desktop_vmid s = na_desktop_vmid a \<and>
     ((1000 \<le> na_guest_uid a \<and> s_guest_uid s = na_guest_uid a) \<or>
      (na_guest_sid a \<noteq> [] \<and> s_guest_sid s = na_guest_sid a))"

definition protect_cross_subject_native :: "db \<Rightarrow> NativeGuestAccount \<Rightarrow> err + unit" where
  "protect_cross_subject_native d new =
     (if na_guest_uid new = 0 \<and> na_guest_sid new = [] then Inr ()
      else guardE (SqlErr UniqueViolation) (\<not> list_ex (agent_has_identity new) (agent_guest_sessions d)))"

text \<open>The identifiers of issued credentials: the primary key and one row per revision.\<close>

definition insert_credential_id :: "NativeGuestAccount \<Rightarrow> db \<Rightarrow> err + db" where
  "insert_credential_id new d =
     bindE (guardE (SqlErr CheckViolation) (0 < na_revision new)) (\<lambda>_.
     bindE (guardE (SqlErr UniqueViolation)
              (\<not> list_ex (\<lambda>c. ci_connection_id c = na_connection_id new \<or>
                   (ci_desktop_vmid c, ci_user_id c, ci_revision c) = (na_desktop_vmid new, na_user_id new, na_revision new))
                 (native_guest_credential_ids d))) (\<lambda>_.
       Inr (d\<lparr>native_guest_credential_ids := native_guest_credential_ids d @
                [\<lparr>ci_connection_id = na_connection_id new, ci_desktop_vmid = na_desktop_vmid new,
                  ci_user_id = na_user_id new, ci_revision = na_revision new\<rparr>]\<rparr>)))"

text \<open>
  \<open>protect_native_guest_account_version\<close> as migration 030 leaves it.  \<open>mine\<close> are the recovery receipts
  written by the transaction itself (\<open>transaction_id = txid_current()\<close>).
\<close>

definition pinned_subject :: "db \<Rightarrow> NativeGuestAccount \<Rightarrow> bool" where
  "pinned_subject d a \<longleftrightarrow>
     list_ex (\<lambda>b. b_desktop_vmid b = na_desktop_vmid a \<and> b_user_id b = na_user_id a \<and> b_guest_username b = na_guest_username a)
       (guest_identity_bindings d)"

definition native_insert_guard :: "db \<Rightarrow> NativeGuestAccount \<Rightarrow> err + unit" where
  "native_insert_guard d new =
     guardE (SqlErr CheckViolation) (\<not> (na_revision new \<noteq> 0 \<or> na_state new \<noteq> NativeIdle \<or> na_operation new \<noteq> OpNone \<or>
       \<not> pinned_subject d new))"

definition native_identity :: "NativeGuestAccount \<Rightarrow> int \<times> string \<times> string \<times> os_family \<times> 32 word \<times> string" where
  "native_identity a = (na_desktop_vmid a, na_user_id a, na_guest_username a, na_os_family a, na_guest_uid a, na_guest_sid a)"

definition recovery_step :: "NativeGuestRecovery list \<Rightarrow> NativeGuestAccount \<Rightarrow> NativeGuestAccount \<Rightarrow> bool" where
  "recovery_step mine old new \<longleftrightarrow>
     na_revision old < na_revision new \<and> na_operation old = OpRevoke \<and> na_state old = NativeApplied \<and>
     na_operation new = OpRevoke \<and> na_state new = NativeApplied \<and> na_expires_at new = None \<and>
     na_native_session_digest new = None \<and>
     list_ex (\<lambda>r. rc_desktop_vmid r = na_desktop_vmid old \<and> rc_user_id r = na_user_id old \<and>
       rc_previous_revision r = na_revision old \<and> rc_previous_connection_id r = na_connection_id old \<and>
       rc_recovered_revision r = na_revision new \<and> rc_recovered_connection_id r = na_connection_id new) mine"

definition same_intent :: "NativeGuestAccount \<Rightarrow> NativeGuestAccount \<Rightarrow> bool" where
  "same_intent old new \<longleftrightarrow>
     (na_operation new, na_connection_id new, na_expires_at new) = (na_operation old, na_connection_id old, na_expires_at old) \<and>
     (na_state new \<noteq> na_state old \<longrightarrow> na_state old = NativePending \<and> na_state new = NativeApplied) \<and>
     (na_native_session_digest new \<noteq> na_native_session_digest old \<longrightarrow>
        na_state old = NativePending \<and> na_state new = NativeApplied \<and> na_native_session_digest new = None)"

definition deadline_over :: "time \<Rightarrow> time option \<Rightarrow> bool" where
  "deadline_over now t \<longleftrightarrow> (case t of None \<Rightarrow> False | Some u \<Rightarrow> u \<le> now)"

definition issue_guard :: "time \<Rightarrow> db \<Rightarrow> NativeGuestAccount \<Rightarrow> NativeGuestAccount \<Rightarrow> err + unit" where
  "issue_guard now d old new =
     bindE (guardE (SqlErr CheckViolation)
       (\<not> (\<not> (na_state old = NativeIdle \<or>
                  (na_state old = NativeApplied \<and> (na_operation old = OpRetire \<or> na_operation old = OpRevoke))) \<or>
           na_connection_id new = na_connection_id old \<or>
           (na_operation old = OpRetire \<and> deadline_over now (na_expires_at old))))) (\<lambda>_.
     guardE (SqlErr UniqueViolation)
       (\<not> (list_ex (\<lambda>l. l_desktop_id l = Itoa (na_desktop_vmid new) \<and> l_state l = LeaseActive \<and> now < l_expires_at l) (desktop_leases d) \<or>
           list_ex (\<lambda>a. na_desktop_vmid a = na_desktop_vmid new \<and> na_user_id a \<noteq> na_user_id new \<and> native_reserves a)
             (native_guest_accounts d))))"

definition protect_native_guest_account_version ::
  "time \<Rightarrow> NativeGuestRecovery list \<Rightarrow> NativeGuestAccount \<Rightarrow> NativeGuestAccount \<Rightarrow> db \<Rightarrow> err + db" where
  "protect_native_guest_account_version now mine old new d =
     (if native_identity new \<noteq> native_identity old then Inl (SqlErr CheckViolation)
      else if recovery_step mine old new then insert_credential_id new d
      else if na_revision new = na_revision old then
        (if same_intent old new then Inr d else Inl (SqlErr CheckViolation))
      else if na_revision new = na_revision old + 1 \<and> na_state new = NativePending then
        (case na_operation new of
           OpIssue \<Rightarrow> bindE (issue_guard now d old new) (\<lambda>_. insert_credential_id new d)
         | OpRetire \<Rightarrow>
             if na_operation old \<noteq> OpIssue \<or> na_state old \<noteq> NativeApplied \<or> deadline_over now (na_expires_at old) \<or>
                na_connection_id new \<noteq> na_connection_id old \<or> na_expires_at new \<noteq> na_expires_at old
             then Inl (SqlErr CheckViolation) else Inr d
         | OpRevoke \<Rightarrow>
             if na_state old = NativeIdle \<or> na_connection_id new \<noteq> na_connection_id old \<or> na_operation old = OpRevoke
             then Inl (SqlErr CheckViolation) else Inr d
         | OpNone \<Rightarrow> Inl (SqlErr CheckViolation))
      else Inl (SqlErr CheckViolation))"

text \<open>
  \<open>UPDATE native_guest_accounts ... RETURNING\<close> of the row that satisfies \<open>p\<close>, which fixes the primary
  key: the triggers in the order of their names, the constraints, the indexes.
\<close>

definition same_account_row :: "NativeGuestAccount \<Rightarrow> NativeGuestAccount \<Rightarrow> bool" where
  "same_account_row a q \<longleftrightarrow> na_desktop_vmid q = na_desktop_vmid a \<and> na_user_id q = na_user_id a"

definition update_native ::
  "time \<Rightarrow> NativeGuestRecovery list \<Rightarrow> (NativeGuestAccount \<Rightarrow> bool) \<Rightarrow> (NativeGuestAccount \<Rightarrow> NativeGuestAccount) \<Rightarrow> db \<Rightarrow>
   err + (NativeGuestAccount \<times> db)" where
  "update_native now mine p f d =
     bindE (query_row ErrNotFound p (native_guest_accounts d)) (\<lambda>old.
     bindE (protect_native_guest_account_version now mine old (f old) d) (\<lambda>d1.
     bindE (protect_cross_subject_native d1 (f old)) (\<lambda>_.
     bindE (guardE (SqlErr CheckViolation) (native_check (f old))) (\<lambda>_.
     let t = upd_where (same_account_row old) f (native_guest_accounts d1)
     in bindE (guardE (SqlErr UniqueViolation) (native_unique t)) (\<lambda>_.
          Inr (f old, d1\<lparr>native_guest_accounts := t\<rparr>))))))"

section \<open>Accounts\<close>

definition validIdentity :: "NativeGuestAccount \<Rightarrow> bool" where
  "validIdentity a \<longleftrightarrow>
     0 < na_desktop_vmid a \<and> na_user_id a \<noteq> [] \<and> na_guest_username a = NativeGuestUsername (na_user_id a) \<and>
     ValidAccount (os_text (na_os_family a)) (na_guest_uid a) (na_guest_sid a)"

definition NativeGuestAccountOf :: "tx_fault \<Rightarrow> int \<Rightarrow> string \<Rightarrow> db \<Rightarrow> err + NativeGuestAccount" where
  "NativeGuestAccountOf fault vmid uid d =
     run_query fault (\<lambda>d. query_row ErrNotFound (\<lambda>a. na_desktop_vmid a = vmid \<and> na_user_id a = uid) (native_guest_accounts d)) d"

definition NativeGuestAccountsForDesktop ::
  "(string \<Rightarrow> string \<Rightarrow> bool) \<Rightarrow> tx_fault \<Rightarrow> int \<Rightarrow> db \<Rightarrow> err + NativeGuestAccount list" where
  "NativeGuestAccountsForDesktop coll fault vmid d =
     (if vmid \<le> 0 then Inl ErrConflict
      else run_query fault (\<lambda>d. Inr (order_by (by_key coll na_user_id)
             (filter (\<lambda>a. na_desktop_vmid a = vmid) (native_guest_accounts d)))) d)"

text \<open>The subject, its desktop, its profile, its access and its Native session, joined.\<close>

definition native_subject_ok :: "time \<Rightarrow> NativeGuestAccount \<Rightarrow> string option \<Rightarrow> db \<Rightarrow> bool" where
  "native_subject_ok now a digest d \<longleftrightarrow>
     list_ex (\<lambda>b. b_desktop_vmid b = na_desktop_vmid a \<and> b_user_id b = na_user_id a \<and> b_guest_username b = na_guest_username a \<and>
       (b_state b = BindProvisioning \<or> b_state b = BindReady) \<and>
       list_ex (\<lambda>m. md_vmid m = b_desktop_vmid b \<and> md_os_family m = na_os_family a \<and> md_enabled m \<and> md_present m \<and>
         list_ex (\<lambda>p. ip_id p = profile_or_default (b_profile_id b) (md_os_family m) \<and> ip_platform p = na_os_family a \<and>
             ip_mode p = ManagedLocal \<and> ip_enabled p \<and>
             ip_id p = profile_or_default (md_identity_profile_id m) (md_os_family m)) (identity_profiles d))
         (managed_desktops d)) (guest_identity_bindings d) \<and>
     effective_user_desktop_access d (na_user_id a) (na_desktop_vmid a) \<and>
     list_ex (\<lambda>n. ns_user_id n = na_user_id a \<and> digest = Some (ns_token_digest n) \<and> now < ns_expires_at n) (native_sessions d)"

definition nativeAccountAuthorization :: "time \<Rightarrow> NativeGuestAccount \<Rightarrow> string \<Rightarrow> db \<Rightarrow> bool" where
  "nativeAccountAuthorization now a digest d \<longleftrightarrow>
     native_subject_ok now a (Some digest) d \<and> \<not> identity_revocation_pending d (na_desktop_vmid a)"

definition new_account :: "time \<Rightarrow> NativeGuestAccount \<Rightarrow> NativeGuestAccount" where
  "new_account now a =
     a\<lparr>na_revision := 0, na_operation := OpNone, na_state := NativeIdle, na_connection_id := [], na_expires_at := None,
       na_native_session_digest := None, na_created_at := now, na_updated_at := now\<rparr>"

text \<open>
  The upsert.  The insert triggers and the constraints see the proposed row before a conflict is looked
  for; on a conflict only a row with the same identity is touched.
\<close>

definition bind_native_tx :: "time \<Rightarrow> NativeGuestAccount \<Rightarrow> string \<Rightarrow> db \<Rightarrow> err + (NativeGuestAccount \<times> db)" where
  "bind_native_tx now a digest d =
     bindE (guardE ErrConflict (nativeAccountAuthorization now a digest d)) (\<lambda>_.
     bindE (native_insert_guard d (new_account now a)) (\<lambda>_.
     bindE (protect_cross_subject_native d (new_account now a)) (\<lambda>_.
     bindE (guardE (SqlErr CheckViolation) (native_check (new_account now a))) (\<lambda>_.
       if list_ex (same_account_row a) (native_guest_accounts d)
       then mapErr (\<lambda>e. if e = ErrNotFound then ErrConflict else e)
              (update_native now [] (\<lambda>q. same_account_row a q \<and> native_identity q = native_identity a)
                (\<lambda>q. q\<lparr>na_updated_at := now\<rparr>) d)
       else let t = native_guest_accounts d @ [new_account now a]
            in bindE (guardE (SqlErr UniqueViolation) (native_unique t)) (\<lambda>_.
                 Inr (new_account now a, d\<lparr>native_guest_accounts := t\<rparr>))))))"

definition BindNativeGuestAccount ::
  "tx_fault \<Rightarrow> time \<Rightarrow> NativeGuestAccount \<Rightarrow> string \<Rightarrow> db \<Rightarrow> db \<times> (err + NativeGuestAccount)" where
  "BindNativeGuestAccount fault now a digest d =
     (if \<not> validIdentity a \<or> digest = [] then (d, Inl ErrConflict)
      else run_tx fault (bind_native_tx now a digest) d)"

section \<open>Credentials\<close>

definition credential_request_ok :: "time \<Rightarrow> time \<Rightarrow> NativeGuestAccount \<Rightarrow> string \<Rightarrow> time \<Rightarrow> string \<Rightarrow> bool" where
  "credential_request_ok clock clock2 a cid expires digest \<longleftrightarrow>
     \<not> (\<not> validIdentity a \<or> na_revision a < 0 \<or> na_revision a = max_int64 \<or> \<not> nativeConnectionID cid \<or>
        cid = na_connection_id a \<or> digest = [] \<or> \<not> clock < expires \<or> clock2 + seconds (8 * 60 * 60) < expires \<or>
        expires mod 1000000 \<noteq> 0)"

definition issue_ready ::
  "time \<Rightarrow> NativeGuestAccount \<Rightarrow> string \<Rightarrow> string \<Rightarrow> db \<Rightarrow> NativeGuestAccount \<Rightarrow> bool" where
  "issue_ready now a cid digest d q \<longleftrightarrow>
     native_identity q = native_identity a \<and> na_revision q = na_revision a \<and> na_operation q = na_operation a \<and>
     na_state q = na_state a \<and>
     (na_state q = NativeIdle \<or> (na_state q = NativeApplied \<and> (na_operation q = OpRetire \<or> na_operation q = OpRevoke))) \<and>
     (na_operation q \<noteq> OpRetire \<or> (case na_expires_at q of None \<Rightarrow> False | Some t \<Rightarrow> now < t)) \<and>
     nativeAccountAuthorization now a digest d \<and>
     \<not> list_ex (\<lambda>c. c_id c = cid \<or> (c_desktop_vmid c = na_desktop_vmid a \<and> conn_open c)) (desktop_connection_sessions d) \<and>
     \<not> computer_revocation_pending d (na_desktop_vmid a) \<and>
     \<not> list_ex (\<lambda>s. s_desktop_vmid s = na_desktop_vmid a \<and> s_state s \<noteq> AgentDisabled) (agent_guest_sessions d)"

definition issue_row :: "time \<Rightarrow> string \<Rightarrow> time \<Rightarrow> string \<Rightarrow> NativeGuestAccount \<Rightarrow> NativeGuestAccount" where
  "issue_row now cid expires digest q =
     q\<lparr>na_revision := na_revision q + 1, na_operation := OpIssue, na_state := NativePending, na_connection_id := cid,
       na_expires_at := Some expires, na_native_session_digest := Some digest, na_updated_at := now\<rparr>"

definition issue_error :: "err \<Rightarrow> err" where
  "issue_error e = (if e = ErrNotFound \<or> e = SqlErr UniqueViolation then ErrConflict else e)"

definition begin_credential_tx ::
  "time \<Rightarrow> NativeGuestAccount \<Rightarrow> string \<Rightarrow> time \<Rightarrow> string \<Rightarrow> db \<Rightarrow> err + (NativeGuestAccount \<times> db)" where
  "begin_credential_tx now a cid expires digest d =
     mapErr issue_error (update_native now [] (issue_ready now a cid digest d) (issue_row now cid expires digest) d)"

definition BeginNativeGuestCredential ::
  "tx_fault \<Rightarrow> time \<Rightarrow> time \<Rightarrow> time \<Rightarrow> NativeGuestAccount \<Rightarrow> string \<Rightarrow> time \<Rightarrow> string \<Rightarrow> db \<Rightarrow> db \<times> (err + NativeGuestAccount)" where
  "BeginNativeGuestCredential fault clock clock2 now a cid expires digest d =
     (if \<not> credential_request_ok clock clock2 a cid expires digest then (d, Inl ErrConflict)
      else run_tx fault (begin_credential_tx now a cid expires digest) d)"

definition cleanup_ready :: "time \<Rightarrow> NativeGuestAccount \<Rightarrow> native_op \<Rightarrow> NativeGuestAccount \<Rightarrow> bool" where
  "cleanup_ready now a op q \<longleftrightarrow>
     native_identity q = native_identity a \<and> na_revision q = na_revision a \<and> na_operation q = na_operation a \<and>
     na_state q = na_state a \<and> na_connection_id q = na_connection_id a \<and> na_expires_at q = na_expires_at a \<and>
     (op \<noteq> OpRetire \<or> (case na_expires_at q of None \<Rightarrow> False | Some t \<Rightarrow> now < t))"

definition cleanup_row :: "time \<Rightarrow> native_op \<Rightarrow> NativeGuestAccount \<Rightarrow> NativeGuestAccount" where
  "cleanup_row now op q =
     q\<lparr>na_revision := na_revision q + 1, na_operation := op, na_state := NativePending,
       na_expires_at := (if op = OpRevoke then None else na_expires_at q), na_native_session_digest := None,
       na_updated_at := now\<rparr>"

definition beginNativeGuestCleanup ::
  "tx_fault \<Rightarrow> time \<Rightarrow> NativeGuestAccount \<Rightarrow> native_op \<Rightarrow> db \<Rightarrow> db \<times> (err + NativeGuestAccount)" where
  "beginNativeGuestCleanup fault now a op d =
     (if \<not> validIdentity a \<or> na_revision a \<le> 0 \<or> na_revision a = max_int64 then (d, Inl ErrConflict)
      else run_tx fault (\<lambda>d. mapErr (\<lambda>e. if e = ErrNotFound then ErrConflict else e)
             (update_native now [] (cleanup_ready now a op) (cleanup_row now op) d)) d)"

definition RetireNativeGuestCredential ::
  "tx_fault \<Rightarrow> time \<Rightarrow> NativeGuestAccount \<Rightarrow> db \<Rightarrow> db \<times> (err + NativeGuestAccount)" where
  "RetireNativeGuestCredential fault now a d =
     (if na_operation a \<noteq> OpIssue \<or> na_state a \<noteq> NativeApplied then (d, Inl ErrConflict)
      else beginNativeGuestCleanup fault now a OpRetire d)"

definition RevokeNativeGuestAccount ::
  "tx_fault \<Rightarrow> time \<Rightarrow> NativeGuestAccount \<Rightarrow> db \<Rightarrow> db \<times> (err + NativeGuestAccount)" where
  "RevokeNativeGuestAccount fault now a d =
     (if na_state a = NativeIdle \<or> na_operation a = OpRevoke then (d, Inl ErrConflict)
      else beginNativeGuestCleanup fault now a OpRevoke d)"

section \<open>Completing an operation\<close>

text \<open>
  The acknowledgement, and for an issued credential the connection, in one transaction.  \<open>finalize\<close> is
  what a caller adds to it; it gets the connection, which is there only for an issue.
\<close>

definition complete_ready :: "time \<Rightarrow> NativeGuestAccount \<Rightarrow> db \<Rightarrow> NativeGuestAccount \<Rightarrow> bool" where
  "complete_ready now a d q \<longleftrightarrow>
     native_identity q = native_identity a \<and> na_revision q = na_revision a \<and> na_operation q = na_operation a \<and>
     na_state q = NativePending \<and> na_connection_id q = na_connection_id a \<and> na_expires_at q = na_expires_at a \<and>
     (na_operation q \<noteq> OpIssue \<or>
       ((case na_expires_at q of None \<Rightarrow> False | Some t \<Rightarrow> now < t) \<and>
        native_subject_ok now q (na_native_session_digest q) d \<and>
        \<not> identity_revocation_pending d (na_desktop_vmid q)))"

definition complete_row :: "time \<Rightarrow> NativeGuestAccount \<Rightarrow> NativeGuestAccount" where
  "complete_row now q = q\<lparr>na_state := NativeApplied, na_native_session_digest := None, na_updated_at := now\<rparr>"

definition initiating_digest :: "NativeGuestAccount \<Rightarrow> db \<Rightarrow> err + string option" where
  "initiating_digest a d =
     (if na_operation a = OpIssue
      then bindE (query_row ErrConflict (same_account_row a) (native_guest_accounts d)) (\<lambda>q. Inr (na_native_session_digest q))
      else Inr None)"

definition issued_connection :: "NativeGuestAccount \<Rightarrow> time \<Rightarrow> DesktopConnectionSession" where
  "issued_connection a expires =
     \<lparr>c_id = na_connection_id a, c_user_id = na_user_id a, c_desktop_vmid = na_desktop_vmid a,
      c_guest_username = na_guest_username a, c_state = ConnActive, c_expires_at = expires, c_created_at = 0,
      c_updated_at = 0, c_closed_at = None, c_termination_required = False, c_native_session_digest = None\<rparr>"

definition cleaned_connection :: "time \<Rightarrow> native_op \<Rightarrow> DesktopConnectionSession \<Rightarrow> DesktopConnectionSession" where
  "cleaned_connection now op c =
     c\<lparr>c_state := (if c_expires_at c \<le> now then ConnExpired else ConnRevoked), c_closed_at := Some now,
       c_updated_at := now, c_termination_required := (c_termination_required c \<or> op = OpRevoke)\<rparr>"

definition close_native_connection :: "time \<Rightarrow> NativeGuestAccount \<Rightarrow> db \<Rightarrow> db" where
  "close_native_connection now a d =
     (let d1 = d\<lparr>desktop_connection_sessions := upd_where (\<lambda>c. c_id c = na_connection_id a \<and>
                   c_desktop_vmid c = na_desktop_vmid a \<and> c_user_id c = na_user_id a \<and>
                   c_guest_username c = na_guest_username a \<and> conn_open c)
                   (cleaned_connection now (na_operation a)) (desktop_connection_sessions d)\<rparr>
      in if na_operation a = OpRevoke
         then d1\<lparr>guest_identity_bindings := upd_where (\<lambda>b. b_desktop_vmid b = na_desktop_vmid a \<and>
                   b_user_id b = na_user_id a \<and> b_guest_username b = na_guest_username a)
                   (\<lambda>b. b\<lparr>b_session_expires_at := None, b_updated_at := now\<rparr>) (guest_identity_bindings d1)\<rparr>
         else d1)"

definition complete_native_tx ::
  "time \<Rightarrow> NativeGuestAccount \<Rightarrow> (DesktopConnectionSession option \<Rightarrow> db \<Rightarrow> err + ('t \<times> db)) \<Rightarrow> db \<Rightarrow>
   err + ((DesktopConnectionSession option \<times> 't) \<times> db)" where
  "complete_native_tx now a finalize d =
     bindE (initiating_digest a d) (\<lambda>digest.
     bindE (mapErr (\<lambda>e. if e = ErrNotFound then ErrConflict else e)
              (update_native now [] (complete_ready now a d) (complete_row now) d)) (\<lambda>(_, d1).
     bindE (if na_operation a = OpIssue
            then (case na_expires_at a of
                    None \<Rightarrow> Inl ErrConflict
                  | Some t \<Rightarrow> bindE (insertDesktopConnectionSession now (issued_connection a t) digest True d1)
                                (\<lambda>(c, d2). Inr (Some c, d2)))
            else Inr (None, close_native_connection now a d1)) (\<lambda>(c, d2).
     bindE (finalize c d2) (\<lambda>(x, d3). Inr ((c, x), d3)))))"

definition completeNativeGuestAccountOperation ::
  "tx_fault \<Rightarrow> time \<Rightarrow> NativeGuestAccount \<Rightarrow> (DesktopConnectionSession option \<Rightarrow> db \<Rightarrow> err + ('t \<times> db)) \<Rightarrow> db \<Rightarrow>
   db \<times> (err + (DesktopConnectionSession option \<times> 't))" where
  "completeNativeGuestAccountOperation fault now a finalize d =
     (if \<not> validIdentity a \<or> na_revision a \<le> 0 \<or> na_state a \<noteq> NativePending then (d, Inl ErrConflict)
      else run_tx fault (complete_native_tx now a finalize) d)"

definition no_finalize :: "DesktopConnectionSession option \<Rightarrow> db \<Rightarrow> err + (unit \<times> db)" where
  "no_finalize c d = Inr ((), d)"

definition CompleteNativeGuestAccountOperation ::
  "tx_fault \<Rightarrow> time \<Rightarrow> NativeGuestAccount \<Rightarrow> db \<Rightarrow> db \<times> (err + unit)" where
  "CompleteNativeGuestAccountOperation fault now a d =
     then_check (completeNativeGuestAccountOperation fault now a no_finalize d) (\<lambda>_. Inr ())"

definition CompleteNativeGuestConnection ::
  "tx_fault \<Rightarrow> time \<Rightarrow> NativeGuestAccount \<Rightarrow> db \<Rightarrow> db \<times> (err + DesktopConnectionSession option)" where
  "CompleteNativeGuestConnection fault now a d =
     (if na_operation a \<noteq> OpIssue then (d, Inl ErrConflict)
      else then_check (completeNativeGuestAccountOperation fault now a no_finalize d) (\<lambda>(c, _). Inr c))"

definition needs_recovery :: "time \<Rightarrow> db \<Rightarrow> NativeGuestAccount \<Rightarrow> bool" where
  "needs_recovery now d a \<longleftrightarrow>
     na_state a = NativePending \<or>
     ((na_operation a = OpIssue \<or> na_operation a = OpRetire) \<and> deadline_over now (na_expires_at a)) \<or>
     (na_operation a = OpIssue \<and> na_state a = NativeApplied \<and>
        \<not> list_ex (\<lambda>c. c_id c = na_connection_id a \<and> conn_open c) (desktop_connection_sessions d))"

definition NativeGuestAccountsNeedingRecovery ::
  "(string \<Rightarrow> string \<Rightarrow> bool) \<Rightarrow> tx_fault \<Rightarrow> time \<Rightarrow> int \<Rightarrow> db \<Rightarrow> err + NativeGuestAccount list" where
  "NativeGuestAccountsNeedingRecovery coll fault now limit d =
     (if limit < 1 \<or> limit > 1000 then Inl ErrConflict
      else run_query fault (\<lambda>d. Inr (take (nat limit) (order_by
             (then_by (by_key (\<le>) na_updated_at) (then_by (by_key (\<le>) na_desktop_vmid) (by_key coll na_user_id)))
             (filter (needs_recovery now d) (native_guest_accounts d))))) d)"

section \<open>Recovering a fence\<close>

definition recovery_request_ok :: "NativeGuestAccount \<Rightarrow> int \<Rightarrow> string \<Rightarrow> string \<Rightarrow> string \<Rightarrow> string \<Rightarrow> bool" where
  "recovery_request_ok e revision cid actor receipt reason \<longleftrightarrow>
     \<not> (\<not> validIdentity e \<or> na_os_family e \<noteq> OsLinux \<or> na_operation e \<noteq> OpRevoke \<or> na_state e \<noteq> NativeApplied \<or>
        na_revision e < 1 \<or> revision \<le> na_revision e \<or> revision = max_int64 \<or> \<not> nativeConnectionID cid \<or>
        cid = na_connection_id e \<or> actor = [] \<or> receipt = [] \<or> length receipt > 128 \<or> reason = [] \<or> rune_count reason > 500)"

definition recovery_safe :: "int \<Rightarrow> string \<Rightarrow> db \<Rightarrow> bool" where
  "recovery_safe vmid actor d \<longleftrightarrow>
     list_ex (\<lambda>u. u_id u = actor \<and> u_role u = PlatformAdmin \<and> \<not> u_disabled u) (users d) \<and>
     \<not> list_ex (\<lambda>c. c_desktop_vmid c = vmid \<and> conn_open c) (desktop_connection_sessions d) \<and>
     \<not> list_ex (\<lambda>a. na_desktop_vmid a = vmid \<and>
         (na_state a = NativePending \<or> na_operation a = OpIssue \<or> na_operation a = OpRetire)) (native_guest_accounts d) \<and>
     \<not> list_ex (\<lambda>l. l_desktop_id l = Itoa vmid \<and> l_state l = LeaseActive) (desktop_leases d) \<and>
     \<not> list_ex (\<lambda>s. s_desktop_vmid s = vmid \<and> s_state s \<noteq> AgentDisabled) (agent_guest_sessions d) \<and>
     \<not> identity_revocation_pending d vmid \<and> \<not> computer_revocation_pending d vmid"

definition nativeRecoveryError :: "err \<Rightarrow> err" where
  "nativeRecoveryError e =
     (if e = ErrNotFound \<or> e = SqlErr UniqueViolation \<or> e = SqlErr CheckViolation \<or> e = SqlErr ForeignKeyViolation
      then ErrConflict else e)"

definition recovery_receipt ::
  "time \<Rightarrow> NativeGuestAccount \<Rightarrow> int \<Rightarrow> string \<Rightarrow> string \<Rightarrow> string \<Rightarrow> string \<Rightarrow> NativeGuestRecovery" where
  "recovery_receipt now e revision cid actor receipt reason =
     \<lparr>rc_id = receipt, rc_desktop_vmid = na_desktop_vmid e, rc_user_id = na_user_id e, rc_actor_user_id = actor,
      rc_reason = reason, rc_previous_revision = na_revision e, rc_previous_connection_id = na_connection_id e,
      rc_recovered_revision = revision, rc_recovered_connection_id = cid, rc_created_at = now\<rparr>"

text \<open>
  The insert of a receipt: its CHECK constraints follow from the request's; the keys and references are
  checked here.  The table is append-only.
\<close>

definition insert_receipt :: "NativeGuestRecovery \<Rightarrow> db \<Rightarrow> err + db" where
  "insert_receipt r d =
     bindE (guardE (SqlErr CheckViolation)
              (0 < rc_previous_revision r \<and> rc_previous_revision r < rc_recovered_revision r \<and>
               nativeConnectionID (rc_recovered_connection_id r))) (\<lambda>_.
     bindE (guardE (SqlErr UniqueViolation)
              (\<not> list_ex (\<lambda>q. rc_id q = rc_id r \<or>
                   (rc_desktop_vmid q, rc_user_id q, rc_recovered_revision q) =
                     (rc_desktop_vmid r, rc_user_id r, rc_recovered_revision r)) (native_guest_recoveries d))) (\<lambda>_.
     bindE (guardE (SqlErr ForeignKeyViolation)
              (list_ex (\<lambda>u. u_id u = rc_actor_user_id r) (users d) \<and>
               list_ex (\<lambda>a. na_desktop_vmid a = rc_desktop_vmid r \<and> na_user_id a = rc_user_id r) (native_guest_accounts d))) (\<lambda>_.
       Inr (d\<lparr>native_guest_recoveries := native_guest_recoveries d @ [r]\<rparr>))))"

definition recover_ready :: "NativeGuestAccount \<Rightarrow> NativeGuestAccount \<Rightarrow> bool" where
  "recover_ready e q \<longleftrightarrow>
     native_identity q = native_identity e \<and> na_revision q = na_revision e \<and> na_connection_id q = na_connection_id e \<and>
     na_operation q = OpRevoke \<and> na_state q = na_state e"

definition recover_tx ::
  "time \<Rightarrow> NativeGuestAccount \<Rightarrow> int \<Rightarrow> string \<Rightarrow> string \<Rightarrow> string \<Rightarrow> string \<Rightarrow> db \<Rightarrow> err + (NativeGuestAccount \<times> db)" where
  "recover_tx now e revision cid actor receipt reason d =
     (let r = recovery_receipt now e revision cid actor receipt reason
      in bindE (guardE ErrConflict (recovery_safe (na_desktop_vmid e) actor d)) (\<lambda>_.
         bindE (mapErr nativeRecoveryError (insert_receipt r d)) (\<lambda>d1.
           mapErr nativeRecoveryError (update_native now [r] (recover_ready e)
             (\<lambda>q. q\<lparr>na_revision := revision, na_connection_id := cid, na_updated_at := now\<rparr>) d1))))"

definition CommitNativeGuestRecovery ::
  "tx_fault \<Rightarrow> time \<Rightarrow> NativeGuestAccount \<Rightarrow> int \<Rightarrow> string \<Rightarrow> string \<Rightarrow> string \<Rightarrow> string \<Rightarrow> db \<Rightarrow> db \<times> (err + NativeGuestAccount)" where
  "CommitNativeGuestRecovery fault now e revision cid actor receipt reason d =
     (let reason' = TrimSpace reason
      in if \<not> recovery_request_ok e revision cid actor receipt reason' then (d, Inl ErrConflict)
         else run_tx fault (recover_tx now e revision cid actor receipt reason') d)"

end
