(* ===== verification/Native_Laws.thy ===== *)
theory Native_Laws
  imports Native_Accounts
begin

text \<open>
  What the operations on Native accounts keep and promise: the identity of an account never changes, its
  revision only grows, an identifier of a credential is never used twice, a credential is issued only on a
  desktop nobody else controls, and the confirmation of a credential and its connection are one step.
\<close>

section \<open>The invariant\<close>

definition account_step :: "NativeGuestAccount \<Rightarrow> NativeGuestAccount \<Rightarrow> bool" where
  "account_step old new \<longleftrightarrow>
     native_identity new = native_identity old \<and>
     (na_revision old < na_revision new \<or> (na_revision new = na_revision old \<and> same_intent old new))"

definition credential_of :: "NativeGuestAccount \<Rightarrow> NativeCredentialId \<Rightarrow> bool" where
  "credential_of a c \<longleftrightarrow> ci_desktop_vmid c = na_desktop_vmid a \<and> ci_user_id c = na_user_id a"

definition account_inv :: "db \<Rightarrow> NativeGuestAccount \<Rightarrow> bool" where
  "account_inv d a \<longleftrightarrow>
     native_check a \<and> pinned_subject d a \<and>
     (0 < na_revision a \<longrightarrow>
        list_ex (\<lambda>c. credential_of a c \<and> ci_connection_id c = na_connection_id a) (native_guest_credential_ids d))"

definition native_inv :: "db \<Rightarrow> bool" where
  "native_inv d \<longleftrightarrow>
     native_unique (native_guest_accounts d) \<and> list_all (account_inv d) (native_guest_accounts d) \<and>
     unique_by ci_connection_id (native_guest_credential_ids d) \<and>
     list_all (\<lambda>c. list_ex (\<lambda>a. credential_of a c \<and> ci_revision c \<le> na_revision a) (native_guest_accounts d))
       (native_guest_credential_ids d)"

text \<open>How the tables may change: rows move forward, identifiers and receipts are only added.\<close>

definition natives_advance :: "db \<Rightarrow> db \<Rightarrow> bool" where
  "natives_advance d d' \<longleftrightarrow>
     list_all2 account_step (native_guest_accounts d) (take (length (native_guest_accounts d)) (native_guest_accounts d')) \<and>
     (\<exists>cs. native_guest_credential_ids d' = native_guest_credential_ids d @ cs) \<and>
     (\<exists>rs. native_guest_recoveries d' = native_guest_recoveries d @ rs)"

lemma account_step_refl [simp]: "account_step a a"
  by (simp add: account_step_def same_intent_def)

lemma same_intent_trans: "same_intent a b \<Longrightarrow> same_intent b c \<Longrightarrow> same_intent a c"
  by (auto simp: same_intent_def)

lemma account_step_trans: "account_step a b \<Longrightarrow> account_step b c \<Longrightarrow> account_step a c"
  using same_intent_trans by (auto simp: account_step_def)

lemma natives_advance_refl [simp]: "natives_advance d d"
  by (simp add: natives_advance_def list.rel_refl)

lemma natives_advance_length:
  "natives_advance d d' \<Longrightarrow> length (native_guest_accounts d) \<le> length (native_guest_accounts d')"
  by (auto simp: natives_advance_def dest!: list_all2_lengthD)

lemma natives_advance_trans:
  assumes "natives_advance a b" "natives_advance b c"
  shows "natives_advance a c"
proof -
  let ?n = "length (native_guest_accounts a)" and ?t = native_guest_accounts
  have le: "?n \<le> length (?t b)" by (rule natives_advance_length [OF assms(1)])
  have "list_all2 account_step (take ?n (?t b)) (take ?n (take (length (?t b)) (?t c)))"
    using assms(2) unfolding natives_advance_def by (blast intro: list_all2_takeI)
  then have bc: "list_all2 account_step (take ?n (?t b)) (take ?n (?t c))" using le by (simp add: min_absorb1)
  have ab: "list_all2 account_step (?t a) (take ?n (?t b))" using assms(1) by (simp add: natives_advance_def)
  have "list_all2 account_step (?t a) (take ?n (?t c))"
    by (rule list_all2_trans [OF account_step_trans ab bc])
  with assms show ?thesis by (auto simp: natives_advance_def)
qed

lemma account_key: "native_identity a = native_identity b \<Longrightarrow> same_account_row b a"
  by (simp add: native_identity_def same_account_row_def)

lemma native_unique_same:
  assumes "native_unique t" "a \<in> set t" "b \<in> set t" "same_account_row b a"
  shows "a = b"
  by (rule unique_by_same [of "\<lambda>a. (na_desktop_vmid a, na_user_id a)" t])
    (use assms in \<open>auto simp: native_unique_def same_account_row_def\<close>)

section \<open>Updates\<close>

lemma insert_credential_id_Inr:
  "insert_credential_id new d = Inr d' \<longleftrightarrow>
     0 < na_revision new \<and> na_connection_id new \<notin> ci_connection_id ` set (native_guest_credential_ids d) \<and>
     (na_desktop_vmid new, na_user_id new, na_revision new) \<notin>
       (\<lambda>c. (ci_desktop_vmid c, ci_user_id c, ci_revision c)) ` set (native_guest_credential_ids d) \<and>
     d' = d\<lparr>native_guest_credential_ids := native_guest_credential_ids d @
              [\<lparr>ci_connection_id = na_connection_id new, ci_desktop_vmid = na_desktop_vmid new,
                ci_user_id = na_user_id new, ci_revision = na_revision new\<rparr>]\<rparr>"
  by (force simp: insert_credential_id_def bindE_eq_Inr guardE_eq_Inr list_ex_iff)

text \<open>The trigger lets only steps through, and either keeps the connection or records a new one.\<close>

lemma version_guard_cases:
  assumes "protect_native_guest_account_version now mine old new d = Inr d1"
  shows "native_identity new = native_identity old"
    and "if recovery_step mine old new then insert_credential_id new d = Inr d1
         else if na_revision new = na_revision old then same_intent old new \<and> d1 = d
         else na_revision new = na_revision old + 1 \<and> na_state new = NativePending \<and>
           (if na_operation new = OpIssue then issue_guard now d old new = Inr () \<and> insert_credential_id new d = Inr d1
            else d1 = d \<and> na_connection_id new = na_connection_id old)"
proof -
  show id: "native_identity new = native_identity old"
    using assms by (simp add: protect_native_guest_account_version_def split: if_splits)
  note g = assms [unfolded protect_native_guest_account_version_def, simplified id]
  show "if recovery_step mine old new then insert_credential_id new d = Inr d1
         else if na_revision new = na_revision old then same_intent old new \<and> d1 = d
         else na_revision new = na_revision old + 1 \<and> na_state new = NativePending \<and>
           (if na_operation new = OpIssue then issue_guard now d old new = Inr () \<and> insert_credential_id new d = Inr d1
            else d1 = d \<and> na_connection_id new = na_connection_id old)"
  proof (cases "recovery_step mine old new \<or> na_revision new = na_revision old")
    case True
    then show ?thesis using g by (simp split: if_splits)
  next
    case False
    then have step: "na_revision new = na_revision old + 1" "na_state new = NativePending"
      using g by (simp_all split: if_splits)
    then show ?thesis using g False by (cases "na_operation new") (simp_all add: bindE_eq_Inr split: if_splits)
  qed
qed

lemma version_guard_Inr:
  assumes "protect_native_guest_account_version now mine old new d = Inr d1"
  shows "account_step old new"
    and "(d1 = d \<and> na_connection_id new = na_connection_id old) \<or> insert_credential_id new d = Inr d1"
  using version_guard_cases [OF assms]
  by (simp_all add: account_step_def recovery_step_def same_intent_def split: if_splits)

lemma update_native_Inr:
  assumes "update_native now mine p f d = Inr (r, d')"
  obtains old d1 where "find p (native_guest_accounts d) = Some old" "r = f old" "native_check r" "account_step old r"
    "protect_native_guest_account_version now mine old r d = Inr d1"
    "(d1 = d \<and> na_connection_id r = na_connection_id old) \<or> insert_credential_id r d = Inr d1"
    "\<exists>cs. d1 = d\<lparr>native_guest_credential_ids := native_guest_credential_ids d @ cs\<rparr>"
    "d' = d1\<lparr>native_guest_accounts := upd_where (same_account_row old) f (native_guest_accounts d)\<rparr>"
    "native_unique (native_guest_accounts d')"
proof -
  from assms obtain old d1 where u: "find p (native_guest_accounts d) = Some old"
    "protect_native_guest_account_version now mine old (f old) d = Inr d1" "native_check (f old)" "r = f old"
    "native_unique (upd_where (same_account_row old) f (native_guest_accounts d1))"
    "d' = d1\<lparr>native_guest_accounts := upd_where (same_account_row old) f (native_guest_accounts d1)\<rparr>"
    by (auto simp: update_native_def bindE_eq_Inr guardE_eq_Inr query_row_eq_Inr Let_def)
  note g = version_guard_Inr [OF u(2)]
  have ids: "\<exists>cs. d1 = d\<lparr>native_guest_credential_ids := native_guest_credential_ids d @ cs\<rparr>"
  proof (cases "d1 = d")
    case True
    then show ?thesis by (intro exI [of _ "[]"]) simp
  next
    case False
    with g(2) show ?thesis by (auto simp: insert_credential_id_Inr)
  qed
  then have "native_guest_accounts d1 = native_guest_accounts d" by auto
  with u g ids that show thesis by auto
qed

lemma update_native_rows:
  assumes "update_native now mine p f d = Inr (r, d')" "native_inv d"
  shows "natives_advance d d'"
proof -
  obtain old d1 where u: "find p (native_guest_accounts d) = Some old" "r = f old" "native_check r" "account_step old r"
    "protect_native_guest_account_version now mine old r d = Inr d1"
    "(d1 = d \<and> na_connection_id r = na_connection_id old) \<or> insert_credential_id r d = Inr d1"
    "\<exists>cs. d1 = d\<lparr>native_guest_credential_ids := native_guest_credential_ids d @ cs\<rparr>"
    "d' = d1\<lparr>native_guest_accounts := upd_where (same_account_row old) f (native_guest_accounts d)\<rparr>"
    "native_unique (native_guest_accounts d')"
    by (rule update_native_Inr [OF assms(1)])
  have old: "old \<in> set (native_guest_accounts d)" using find_SomeD [OF u(1)] by simp
  have "list_all2 account_step (native_guest_accounts d) (upd_where (same_account_row old) f (native_guest_accounts d))"
  proof (rule list_all2_upd_where)
    fix q assume "q \<in> set (native_guest_accounts d)" "same_account_row old q"
    then have "q = old" by (intro native_unique_same [OF _ _ old]) (use assms(2) in \<open>simp_all add: native_inv_def\<close>)
    then show "account_step q (f q)" using u(2,4) by simp
  qed simp
  with u(7,8) show ?thesis by (auto simp: natives_advance_def)
qed

lemma nativeConnectionID_not_Nil: "nativeConnectionID s \<Longrightarrow> s \<noteq> []"
  by (auto simp: nativeConnectionID_def matches_class_def)

lemma native_check_connection: "native_check a \<Longrightarrow> na_connection_id a = [] \<longleftrightarrow> na_revision a = 0"
  using nativeConnectionID_not_Nil by (auto simp: native_check_def)

lemma pinned_subject_cong:
  "native_identity a = native_identity b \<Longrightarrow> guest_identity_bindings d' = guest_identity_bindings d \<Longrightarrow>
     pinned_subject d' a = pinned_subject d b"
  by (simp add: pinned_subject_def native_identity_def)

lemma credential_of_cong: "native_identity a = native_identity b \<Longrightarrow> credential_of a = credential_of b"
  by (simp add: credential_of_def native_identity_def fun_eq_iff)

lemma upd_row_set:
  assumes "native_unique t" "old \<in> set t"
  shows "set (upd_where (same_account_row old) f t) = insert (f old) {a \<in> set t. a \<noteq> old}"
proof -
  have "same_account_row old a \<longleftrightarrow> a = old" if "a \<in> set t" for a
    using native_unique_same [OF assms(1) that assms(2)] by (auto simp: same_account_row_def)
  then have "(\<lambda>a. if same_account_row old a then f a else a) ` set t = (\<lambda>a. if a = old then f a else a) ` set t"
    by (intro image_cong) auto
  also have "\<dots> = insert (f old) {a \<in> set t. a \<noteq> old}" using assms(2) by auto
  finally show ?thesis by (simp add: set_upd_where)
qed

lemma update_native_inv:
  assumes "update_native now mine p f d = Inr (r, d')" "native_inv d"
  shows "native_inv d'"
proof -
  obtain old d1 where u: "find p (native_guest_accounts d) = Some old" "r = f old" "native_check r" "account_step old r"
    "protect_native_guest_account_version now mine old r d = Inr d1"
    "(d1 = d \<and> na_connection_id r = na_connection_id old) \<or> insert_credential_id r d = Inr d1"
    "\<exists>cs. d1 = d\<lparr>native_guest_credential_ids := native_guest_credential_ids d @ cs\<rparr>"
    "d' = d1\<lparr>native_guest_accounts := upd_where (same_account_row old) f (native_guest_accounts d)\<rparr>"
    "native_unique (native_guest_accounts d')"
    by (rule update_native_Inr [OF assms(1)])
  let ?t = "native_guest_accounts d" and ?ids = "native_guest_credential_ids d"
  obtain cs where cs: "d1 = d\<lparr>native_guest_credential_ids := ?ids @ cs\<rparr>" using u(7) by blast
  let ?c = "\<lparr>ci_connection_id = na_connection_id r, ci_desktop_vmid = na_desktop_vmid r, ci_user_id = na_user_id r,
              ci_revision = na_revision r\<rparr>"
  have ids1: "native_guest_credential_ids d1 = ?ids @ cs" by (simp add: cs)
  have new: "cs = [?c] \<and> na_connection_id r \<notin> ci_connection_id ` set ?ids" if "insert_credential_id r d = Inr d1"
    using that ids1 by (auto simp: insert_credential_id_Inr)
  have same: "cs = []" if "d1 = d" using that ids1 by simp
  have old: "old \<in> set ?t" using find_SomeD [OF u(1)] by simp
  have inv: "native_unique ?t" "\<And>a. a \<in> set ?t \<Longrightarrow> account_inv d a" "unique_by ci_connection_id ?ids"
    "\<And>c. c \<in> set ?ids \<Longrightarrow> \<exists>a \<in> set ?t. credential_of a c \<and> ci_revision c \<le> na_revision a"
    using assms(2) by (auto simp: native_inv_def list_all_iff list_ex_iff)
  have id: "native_identity r = native_identity old" and rev: "na_revision old \<le> na_revision r"
    using u(4) by (auto simp: account_step_def)
  have rows: "set (native_guest_accounts d') = insert r {a \<in> set ?t. a \<noteq> old}"
    unfolding u(2,8) using upd_row_set [OF inv(1) old] by simp
  have keep: "account_inv d' a" if "a \<in> set ?t" for a
    using inv(2) [OF that] pinned_subject_cong [of a a d' d]
    by (auto simp: account_inv_def u(8) cs list_ex_iff)
  have cred: "\<exists>c \<in> set (?ids @ cs). credential_of r c \<and> ci_connection_id c = na_connection_id r" if "0 < na_revision r"
    using u(6)
  proof
    assume eq: "d1 = d \<and> na_connection_id r = na_connection_id old"
    have "0 < na_revision old"
      using native_check_connection [OF u(3)] native_check_connection [of old] inv(2) [OF old] that eq
      by (auto simp: account_inv_def native_check_def)
    then show ?thesis
      using inv(2) [OF old] eq credential_of_cong [OF id] by (auto simp: account_inv_def list_ex_iff)
  next
    assume "insert_credential_id r d = Inr d1"
    then show ?thesis using new by (auto simp: credential_of_def)
  qed
  have r: "account_inv d' r"
    using u(3) cred inv(2) [OF old] pinned_subject_cong [OF id, of d' d]
    by (auto simp: account_inv_def u(8) cs list_ex_iff)
  have uq: "unique_by ci_connection_id (?ids @ cs)"
    using u(6) inv(3) new same by (elim disjE) (auto simp: image_iff)
  have own: "\<exists>a \<in> set (native_guest_accounts d'). credential_of a c \<and> ci_revision c \<le> na_revision a" if "c \<in> set (?ids @ cs)" for c
  proof (cases "c \<in> set ?ids")
    case True
    then obtain a where "a \<in> set ?t" "credential_of a c" "ci_revision c \<le> na_revision a" using inv(4) by blast
    then show ?thesis using rev credential_of_cong [OF id] unfolding rows by (cases "a = old") auto
  next
    case False
    then have "c \<in> set cs" using that by simp
    then have "credential_of r c \<and> ci_revision c \<le> na_revision r"
      using u(6) new same by (auto simp: credential_of_def)
    then show ?thesis unfolding rows by blast
  qed
  have ids': "native_guest_credential_ids d' = ?ids @ cs" by (simp add: u(8) cs)
  have "\<forall>a \<in> set (native_guest_accounts d'). account_inv d' a" using rows keep r by auto
  with u(9) uq own show ?thesis unfolding native_inv_def ids' list_all_iff list_ex_iff by blast
qed

lemma bind_native_inv:
  assumes "bind_native_tx now a digest d = Inr (r, d')" "native_inv d"
  shows "native_inv d' \<and> natives_advance d d'"
proof (cases "list_ex (same_account_row a) (native_guest_accounts d)")
  case True
  with assms(1) have "update_native now [] (\<lambda>q. same_account_row a q \<and> native_identity q = native_identity a)
                (\<lambda>q. q\<lparr>na_updated_at := now\<rparr>) d = Inr (r, d')"
    by (auto simp: bind_native_tx_def bindE_eq_Inr mapErr_eq_Inr)
  then show ?thesis using update_native_inv update_native_rows assms(2) by blast
next
  case False
  let ?t = "native_guest_accounts d" and ?a = "new_account now a"
  from assms(1) False have b: "pinned_subject d ?a" "native_check ?a" "native_unique (?t @ [?a])"
    "d' = d\<lparr>native_guest_accounts := ?t @ [?a]\<rparr>"
    by (auto simp: bind_native_tx_def bindE_eq_Inr guardE_eq_Inr native_insert_guard_def Let_def)
  have "account_inv d' q" if "q \<in> set ?t" for q
    using assms(2) that by (auto simp: native_inv_def list_all_iff account_inv_def b(4) pinned_subject_def)
  moreover have "account_inv d' ?a" using b(1,2) by (simp add: account_inv_def b(4) pinned_subject_def new_account_def)
  ultimately have "native_inv d'"
    using assms(2) b(3) by (auto simp: native_inv_def b(4) list_all_iff)
  moreover have "natives_advance d d'" by (simp add: natives_advance_def b(4) list.rel_refl)
  ultimately show ?thesis ..
qed

section \<open>Every operation keeps the invariants\<close>

text \<open>
  The two kinds of statements: those that go through the table's triggers, and those that leave accounts,
  identifiers and receipts alone and keep the subjects of the bindings.
\<close>

definition binding_subjects :: "db \<Rightarrow> (int \<times> string \<times> string) set" where
  "binding_subjects d = (\<lambda>b. (b_desktop_vmid b, b_user_id b, b_guest_username b)) ` set (guest_identity_bindings d)"

lemma pinned_subject_iff: "pinned_subject d a \<longleftrightarrow> (na_desktop_vmid a, na_user_id a, na_guest_username a) \<in> binding_subjects d"
  by (force simp: pinned_subject_def binding_subjects_def list_ex_iff)

definition natives_kept :: "db \<Rightarrow> db \<Rightarrow> bool" where
  "natives_kept d d' \<longleftrightarrow> (native_inv d \<longrightarrow> native_inv d' \<and> natives_advance d d' \<and> (fenced d \<longrightarrow> fenced d'))"

lemma natives_kept_refl [simp]: "natives_kept d d"
  by (simp add: natives_kept_def)

lemma natives_kept_trans: "natives_kept a b \<Longrightarrow> natives_kept b c \<Longrightarrow> natives_kept a c"
  using natives_advance_trans by (auto simp: natives_kept_def)

lemma native_inv_frame:
  assumes "native_guest_accounts d' = native_guest_accounts d" "native_guest_credential_ids d' = native_guest_credential_ids d"
    "binding_subjects d \<subseteq> binding_subjects d'" "native_inv d"
  shows "native_inv d'"
  using assms by (auto simp: native_inv_def account_inv_def pinned_subject_iff list_all_iff)

lemma natives_advance_frame:
  "native_guest_accounts d' = native_guest_accounts d \<Longrightarrow> native_guest_credential_ids d' = native_guest_credential_ids d \<Longrightarrow>
   native_guest_recoveries d' = native_guest_recoveries d \<Longrightarrow> natives_advance d d'"
  by (simp add: natives_advance_def list.rel_refl)

lemma natives_kept_frame:
  assumes "same_authority d d'" "native_guest_credential_ids d' = native_guest_credential_ids d"
    "native_guest_recoveries d' = native_guest_recoveries d" "binding_subjects d \<subseteq> binding_subjects d'"
  shows "natives_kept d d'"
proof -
  have "native_guest_accounts d' = native_guest_accounts d" using assms(1) by (simp add: same_authority_def)
  then show ?thesis
    unfolding natives_kept_def
    using native_inv_frame [OF _ assms(2,4)] natives_advance_frame assms(2,3) same_authority_fenced [OF assms(1)] by blast
qed

lemma binding_subjects_upd:
  assumes "guest_identity_bindings d' = upd_where p f (guest_identity_bindings d)"
    "\<And>b. b_desktop_vmid (f b) = b_desktop_vmid b \<and> b_user_id (f b) = b_user_id b \<and> b_guest_username (f b) = b_guest_username b"
  shows "binding_subjects d' = binding_subjects d"
  unfolding binding_subjects_def assms(1) by (rule image_upd_where) (simp add: assms(2))

lemma same_os_identity_agent: "same_os_identity s a \<longleftrightarrow> agent_has_identity a s"
  by (auto simp: same_os_identity_def agent_has_identity_def)

lemma fenced_natives:
  assumes "fenced d" "desktop_leases d' = desktop_leases d" "desktop_computer_epochs d' = desktop_computer_epochs d"
    "desktop_computer_revocations d' = desktop_computer_revocations d" "agent_guest_sessions d' = agent_guest_sessions d"
    "managed_desktops d' = managed_desktops d"
    "\<And>a s. a \<in> set (native_guest_accounts d') \<Longrightarrow> s \<in> set (agent_guest_sessions d) \<Longrightarrow>
       (\<exists>q \<in> set (native_guest_accounts d). native_identity q = native_identity a) \<or> \<not> agent_has_identity a s"
  shows "fenced d'"
proof -
  have "\<not> same_os_identity s a" if "s \<in> set (agent_guest_sessions d)" "a \<in> set (native_guest_accounts d')" for s a
    using assms(7) [OF that(2,1)]
  proof
    assume "\<exists>q \<in> set (native_guest_accounts d). native_identity q = native_identity a"
    then obtain q where q: "q \<in> set (native_guest_accounts d)" "native_identity q = native_identity a" by blast
    then have "\<not> same_os_identity s q"
      using assms(1) that(1) by (auto simp: fenced_def session_inv_def ags_wf_def list_ex_iff)
    with q(2) show ?thesis by (simp add: same_os_identity_def native_identity_def)
  qed (simp add: same_os_identity_agent)
  then have "session_inv d'"
    using assms(1,2,5) by (auto simp: fenced_def session_inv_def ags_wf_def list_ex_iff)
  moreover have "authority_inv d'"
    by (rule authority_inv_frame [of d]) (use assms(1-6) in \<open>simp_all add: fenced_def\<close>)
  ultimately show ?thesis by (simp add: fenced_def)
qed

lemma update_native_kept:
  assumes "update_native now mine p f d = Inr (r, d')"
  shows "natives_kept d d'"
proof -
  obtain old d1 where u: "find p (native_guest_accounts d) = Some old" "r = f old" "native_check r" "account_step old r"
    "protect_native_guest_account_version now mine old r d = Inr d1"
    "(d1 = d \<and> na_connection_id r = na_connection_id old) \<or> insert_credential_id r d = Inr d1"
    "\<exists>cs. d1 = d\<lparr>native_guest_credential_ids := native_guest_credential_ids d @ cs\<rparr>"
    "d' = d1\<lparr>native_guest_accounts := upd_where (same_account_row old) f (native_guest_accounts d)\<rparr>"
    "native_unique (native_guest_accounts d')"
    by (rule update_native_Inr [OF assms])
  show ?thesis unfolding natives_kept_def
  proof (intro conjI impI)
    assume inv: "native_inv d"
    then show "native_inv d'" "natives_advance d d'" using update_native_inv update_native_rows assms by blast+
    assume f: "fenced d"
    have old: "old \<in> set (native_guest_accounts d)" using find_SomeD [OF u(1)] by simp
    show "fenced d'"
    proof (rule fenced_natives [OF f])
      fix a s assume "a \<in> set (native_guest_accounts d')"
      then have "a = r \<or> a \<in> set (native_guest_accounts d)"
        using upd_row_set [of "native_guest_accounts d" old f] inv old u(2,8) by (auto simp: native_inv_def)
      moreover have "native_identity r = native_identity old" using u(4) by (simp add: account_step_def)
      ultimately show "(\<exists>q \<in> set (native_guest_accounts d). native_identity q = native_identity a) \<or> \<not> agent_has_identity a s"
        using old by metis
    qed (use u(7,8) in auto)
  qed
qed

lemma run_tx_natives:
  "(\<And>x d'. body d = Inr (x, d') \<Longrightarrow> natives_kept d d') \<Longrightarrow> natives_kept d (fst (run_tx fault body d))"
  by (rule run_tx_preserves) simp_all

lemma bind_native_kept:
  assumes "bind_native_tx now a digest d = Inr (r, d')"
  shows "natives_kept d d'"
proof (cases "list_ex (same_account_row a) (native_guest_accounts d)")
  case True
  with assms have "update_native now [] (\<lambda>q. same_account_row a q \<and> native_identity q = native_identity a)
                (\<lambda>q. q\<lparr>na_updated_at := now\<rparr>) d = Inr (r, d')"
    by (auto simp: bind_native_tx_def bindE_eq_Inr mapErr_eq_Inr)
  then show ?thesis by (rule update_native_kept)
next
  case False
  let ?a = "new_account now a"
  from assms False have b: "protect_cross_subject_native d ?a = Inr ()" "native_check ?a"
    "d' = d\<lparr>native_guest_accounts := native_guest_accounts d @ [?a]\<rparr>"
    by (auto simp: bind_native_tx_def bindE_eq_Inr guardE_eq_Inr Let_def)
  have "\<not> agent_has_identity ?a s" if "s \<in> set (agent_guest_sessions d)" for s
    using b(1,2) that
    by (auto simp: protect_cross_subject_native_def guardE_eq_Inr list_ex_iff agent_has_identity_def split: if_splits)
  then have "fenced d'" if "fenced d" by (intro fenced_natives [OF that]) (auto simp: b(3))
  then show ?thesis using bind_native_inv [OF assms] by (simp add: natives_kept_def)
qed

lemma insert_connection_natives:
  assumes "insertDesktopConnectionSession now c digest b d = Inr (r, d')"
  shows "natives_kept d d'"
proof -
  from assms have d': "d' = d\<lparr>desktop_connection_sessions := desktop_connection_sessions d @ [new_connection now c digest],
      guest_identity_bindings := upd_where (\<lambda>b. b_desktop_vmid b = c_desktop_vmid c \<and> b_user_id b = c_user_id c)
                (\<lambda>b. b\<lparr>b_session_expires_at := Some (c_expires_at c), b_updated_at := now\<rparr>) (guest_identity_bindings d)\<rparr>"
    by (auto simp: insertDesktopConnectionSession_def bindE_eq_Inr guardE_eq_Inr)
  have "binding_subjects d' = binding_subjects d"
    by (rule binding_subjects_upd [where f = "\<lambda>b. b\<lparr>b_session_expires_at := Some (c_expires_at c), b_updated_at := now\<rparr>"])
      (simp_all add: d')
  then show ?thesis by (intro natives_kept_frame) (simp_all add: d' same_authority_def)
qed

lemma close_connection_natives: "natives_kept d (close_native_connection now a d)"
proof -
  have "binding_subjects (close_native_connection now a d) = binding_subjects d"
  proof (cases "na_operation a = OpRevoke")
    case True
    show ?thesis
      by (rule binding_subjects_upd [where f = "\<lambda>b. b\<lparr>b_session_expires_at := None, b_updated_at := now\<rparr>"])
        (simp_all add: close_native_connection_def Let_def True)
  qed (simp add: close_native_connection_def binding_subjects_def)
  then show ?thesis
    by (intro natives_kept_frame) (auto simp: close_native_connection_def Let_def same_authority_def)
qed

lemma close_native_connection_kept: "connections_kept d (close_native_connection now a d)"
proof (rule connections_kept_upd)
  show "desktop_connection_sessions (close_native_connection now a d) =
      upd_where (\<lambda>c. c_id c = na_connection_id a \<and> c_desktop_vmid c = na_desktop_vmid a \<and> c_user_id c = na_user_id a \<and>
                   c_guest_username c = na_guest_username a \<and> conn_open c)
                   (cleaned_connection now (na_operation a)) (desktop_connection_sessions d)"
    by (simp add: close_native_connection_def Let_def)
qed (auto simp: conn_step_def cleaned_connection_def)

lemma update_native_connections:
  assumes "update_native now mine p f d = Inr (r, d')"
  shows "connections_kept d d'"
proof -
  have "desktop_connection_sessions d' = desktop_connection_sessions d" by (rule update_native_Inr [OF assms]) auto
  then show ?thesis by (rule connections_kept_cong)
qed

text \<open>The acknowledgement and what follows it.\<close>

lemma complete_native_Inr:
  assumes "complete_native_tx now a finalize d = Inr ((c, x), d')"
  obtains digest q d1 d2 where "initiating_digest a d = Inr digest"
    "update_native now [] (complete_ready now a d) (complete_row now) d = Inr (q, d1)"
    "if na_operation a = OpIssue
     then (\<exists>t r. na_expires_at a = Some t \<and> c = Some r \<and> insertDesktopConnectionSession now (issued_connection a t) digest True d1 = Inr (r, d2))
     else c = None \<and> d2 = close_native_connection now a d1"
    "finalize c d2 = Inr (x, d')"
  using assms
  by (auto simp: complete_native_tx_def bindE_eq_Inr mapErr_eq_Inr split: if_splits option.splits)

lemma complete_native_kept:
  assumes "complete_native_tx now a finalize d = Inr ((c, x), d')"
    "\<And>d2. finalize c d2 = Inr (x, d') \<Longrightarrow> natives_kept d2 d' \<and> connections_kept d2 d'"
  shows "natives_kept d d'" and "connections_kept d d'"
proof -
  obtain digest q d1 d2 where c: "update_native now [] (complete_ready now a d) (complete_row now) d = Inr (q, d1)"
    "if na_operation a = OpIssue
     then (\<exists>t r. na_expires_at a = Some t \<and> c = Some r \<and> insertDesktopConnectionSession now (issued_connection a t) digest True d1 = Inr (r, d2))
     else c = None \<and> d2 = close_native_connection now a d1"
    "finalize c d2 = Inr (x, d')"
    by (rule complete_native_Inr [OF assms(1)])
  have "natives_kept d1 d2 \<and> connections_kept d1 d2"
    using c(2) insert_connection_natives insert_connection_kept close_connection_natives close_native_connection_kept
    by (auto split: if_splits)
  then show "natives_kept d d'" "connections_kept d d'"
    using update_native_kept [OF c(1)] update_native_connections [OF c(1)] assms(2) [OF c(3)]
      natives_kept_trans connections_kept_trans by blast+
qed

lemma insert_receipt_Inr:
  "insert_receipt r d = Inr d' \<Longrightarrow> d' = d\<lparr>native_guest_recoveries := native_guest_recoveries d @ [r]\<rparr>"
  by (auto simp: insert_receipt_def bindE_eq_Inr)

lemma recover_tx_kept:
  assumes "recover_tx now e revision cid actor receipt reason d = Inr (x, d')"
  shows "natives_kept d d'" and "connections_kept d d'"
proof -
  let ?r = "recovery_receipt now e revision cid actor receipt reason"
  from assms obtain d1 where r: "insert_receipt ?r d = Inr d1"
    and u: "update_native now [?r] (recover_ready e) (\<lambda>q. q\<lparr>na_revision := revision, na_connection_id := cid, na_updated_at := now\<rparr>) d1 = Inr (x, d')"
    by (auto simp: recover_tx_def Let_def bindE_eq_Inr mapErr_eq_Inr)
  note d1 = insert_receipt_Inr [OF r]
  have "native_inv d \<longrightarrow> native_inv d1" using native_inv_frame [of d1 d] by (simp add: d1 binding_subjects_def)
  moreover have "natives_advance d d1" by (simp add: natives_advance_def d1 list.rel_refl)
  moreover have "fenced d \<longrightarrow> fenced d1" using same_authority_fenced [of d d1] by (simp add: d1 same_authority_def)
  ultimately have "natives_kept d d1" by (simp add: natives_kept_def)
  then show "natives_kept d d'" using update_native_kept [OF u] natives_kept_trans by blast
  have "connections_kept d d1" by (rule connections_kept_cong) (simp add: d1)
  then show "connections_kept d d'" using update_native_connections [OF u] connections_kept_trans by blast
qed

text \<open>All operations of the two files.\<close>

lemma native_ops_kept:
  "natives_kept d (fst (BindNativeGuestAccount fault now a digest d))"
  "natives_kept d (fst (BeginNativeGuestCredential fault clock clock2 now a cid expires digest d))"
  "natives_kept d (fst (beginNativeGuestCleanup fault now a op d))"
  "natives_kept d (fst (RetireNativeGuestCredential fault now a d))"
  "natives_kept d (fst (RevokeNativeGuestAccount fault now a d))"
  "natives_kept d (fst (CompleteNativeGuestAccountOperation fault now a d))"
  "natives_kept d (fst (CompleteNativeGuestConnection fault now a d))"
  "natives_kept d (fst (CommitNativeGuestRecovery fault now a revision cid actor receipt reason d))"
proof -
  show "natives_kept d (fst (BindNativeGuestAccount fault now a digest d))"
    unfolding BindNativeGuestAccount_def by (simp, intro impI, rule run_tx_natives, rule bind_native_kept)
  show "natives_kept d (fst (BeginNativeGuestCredential fault clock clock2 now a cid expires digest d))"
    unfolding BeginNativeGuestCredential_def begin_credential_tx_def
    by (simp, intro impI, rule run_tx_natives) (auto simp: mapErr_eq_Inr intro: update_native_kept)
  have cleanup: "natives_kept d (fst (beginNativeGuestCleanup fault now a op d))" for op
    unfolding beginNativeGuestCleanup_def
    by (simp, intro impI, rule run_tx_natives) (auto simp: mapErr_eq_Inr intro: update_native_kept)
  then show "natives_kept d (fst (beginNativeGuestCleanup fault now a op d))"
    "natives_kept d (fst (RetireNativeGuestCredential fault now a d))"
    "natives_kept d (fst (RevokeNativeGuestAccount fault now a d))"
    by (simp_all add: RetireNativeGuestCredential_def RevokeNativeGuestAccount_def)
  have complete: "natives_kept d (fst (completeNativeGuestAccountOperation fault now a no_finalize d))"
    unfolding completeNativeGuestAccountOperation_def
    by (simp, intro impI, rule run_tx_natives) (auto simp: no_finalize_def intro: complete_native_kept(1))
  then show "natives_kept d (fst (CompleteNativeGuestAccountOperation fault now a d))"
    "natives_kept d (fst (CompleteNativeGuestConnection fault now a d))"
    by (simp_all add: CompleteNativeGuestAccountOperation_def CompleteNativeGuestConnection_def)
  show "natives_kept d (fst (CommitNativeGuestRecovery fault now a revision cid actor receipt reason d))"
    unfolding CommitNativeGuestRecovery_def Let_def
    by (simp, intro impI, rule run_tx_natives, rule recover_tx_kept(1))
qed

section \<open>Properties\<close>

text \<open>The row an update returns is the row in the table afterwards.\<close>

lemma update_native_result:
  assumes "update_native now mine p f d = Inr (r, d')" "native_inv d"
  obtains old where "old \<in> set (native_guest_accounts d)" "p old" "r = f old" "account_step old r" "native_check r"
    "set (native_guest_accounts d') = insert r {a \<in> set (native_guest_accounts d). a \<noteq> old}"
proof -
  obtain old d1 where u: "find p (native_guest_accounts d) = Some old" "r = f old" "native_check r" "account_step old r"
    "protect_native_guest_account_version now mine old r d = Inr d1"
    "(d1 = d \<and> na_connection_id r = na_connection_id old) \<or> insert_credential_id r d = Inr d1"
    "\<exists>cs. d1 = d\<lparr>native_guest_credential_ids := native_guest_credential_ids d @ cs\<rparr>"
    "d' = d1\<lparr>native_guest_accounts := upd_where (same_account_row old) f (native_guest_accounts d)\<rparr>"
    "native_unique (native_guest_accounts d')"
    by (rule update_native_Inr [OF assms(1)])
  have "old \<in> set (native_guest_accounts d)" "p old" using find_SomeD [OF u(1)] by auto
  with that u upd_row_set [of "native_guest_accounts d" old f] assms(2) show thesis by (simp add: native_inv_def)
qed

lemma issued_once:
  assumes "update_native now mine p f d = Inr (r, d')" "na_operation r = OpIssue" "na_state r = NativePending"
    "\<And>q. na_revision (f q) \<noteq> na_revision q"
  shows "na_connection_id r \<notin> ci_connection_id ` set (native_guest_credential_ids d) \<and>
         na_connection_id r \<in> ci_connection_id ` set (native_guest_credential_ids d') \<and>
         \<not> live_lease_on d now (Itoa (na_desktop_vmid r)) \<and>
         \<not> list_ex (\<lambda>a. na_desktop_vmid a = na_desktop_vmid r \<and> na_user_id a \<noteq> na_user_id r \<and> native_reserves a)
             (native_guest_accounts d)"
proof -
  obtain old d1 where u: "find p (native_guest_accounts d) = Some old" "r = f old" "native_check r" "account_step old r"
    "protect_native_guest_account_version now mine old r d = Inr d1"
    "(d1 = d \<and> na_connection_id r = na_connection_id old) \<or> insert_credential_id r d = Inr d1"
    "\<exists>cs. d1 = d\<lparr>native_guest_credential_ids := native_guest_credential_ids d @ cs\<rparr>"
    "d' = d1\<lparr>native_guest_accounts := upd_where (same_account_row old) f (native_guest_accounts d)\<rparr>"
    "native_unique (native_guest_accounts d')"
    by (rule update_native_Inr [OF assms(1)])
  have "\<not> recovery_step mine old r" "na_revision r \<noteq> na_revision old"
    using assms(2) assms(4) [of old] u(2) by (auto simp: recovery_step_def)
  then have i: "issue_guard now d old r = Inr ()" "insert_credential_id r d = Inr d1"
    using version_guard_cases(2) [OF u(5)] assms(2) by simp_all
  from i(1) have "\<not> live_lease_on d now (Itoa (na_desktop_vmid r))"
    "\<not> list_ex (\<lambda>a. na_desktop_vmid a = na_desktop_vmid r \<and> na_user_id a \<noteq> na_user_id r \<and> native_reserves a) (native_guest_accounts d)"
    by (auto simp: issue_guard_def bindE_eq_Inr guardE_eq_Inr live_lease_on_def list_ex_iff)
  then show ?thesis using i(2) by (auto simp: insert_credential_id_Inr u(8))
qed


text \<open>
  C20. Confirming an issued credential and opening its connection are one step, whatever the driver does:
  either nothing has changed, or the account is applied and the connection with its identifier, its
  deadline and the Native session that asked for it is the open connection of the desktop.
\<close>

theorem CompleteNativeGuestConnection_atomic:
  assumes "native_inv d" "connections_wf d"
  shows "fst (CompleteNativeGuestConnection fault now a d) = d \<or>
    (\<exists>q old c. old \<in> set (native_guest_accounts d) \<and> native_identity old = native_identity a \<and> na_state old = NativePending \<and>
       q = complete_row now old \<and> na_operation q = OpIssue \<and> na_connection_id q = na_connection_id a \<and>
       q \<in> set (native_guest_accounts (fst (CompleteNativeGuestConnection fault now a d))) \<and>
       filter (\<lambda>x. c_desktop_vmid x = na_desktop_vmid a \<and> conn_open x)
         (desktop_connection_sessions (fst (CompleteNativeGuestConnection fault now a d))) = [c] \<and>
       c_id c = na_connection_id a \<and> c_user_id c = na_user_id a \<and> Some (c_expires_at c) = na_expires_at a \<and>
       c_native_session_digest c = na_native_session_digest old \<and>
       (snd (CompleteNativeGuestConnection fault now a d) = Inr (Some c) \<or>
        (fault = CommitLost \<and> snd (CompleteNativeGuestConnection fault now a d) = Inl DriverErr)))"
proof (cases "fst (CompleteNativeGuestConnection fault now a d) = d")
  case False
  let ?r = "run_tx fault (complete_native_tx now a no_finalize) d"
  have op: "na_operation a = OpIssue" and r: "CompleteNativeGuestConnection fault now a d = then_check ?r (\<lambda>(c, _). Inr c)"
    using False by (auto simp: CompleteNativeGuestConnection_def completeNativeGuestAccountOperation_def split: if_splits)
  with False have ch: "fst ?r \<noteq> d" by simp
  then obtain x where "complete_native_tx now a no_finalize d = Inr (x, fst ?r)"
    using run_tx_state [of fault "complete_native_tx now a no_finalize" d] by auto
  then obtain c where tx: "complete_native_tx now a no_finalize d = Inr ((c, ()), fst ?r)" by (cases x) auto
  obtain digest q d1 d2 where s: "initiating_digest a d = Inr digest"
    "update_native now [] (complete_ready now a d) (complete_row now) d = Inr (q, d1)"
    "if na_operation a = OpIssue
     then (\<exists>t r. na_expires_at a = Some t \<and> c = Some r \<and> insertDesktopConnectionSession now (issued_connection a t) digest True d1 = Inr (r, d2))
     else c = None \<and> d2 = close_native_connection now a d1"
    "no_finalize c d2 = Inr ((), fst ?r)"
    by (rule complete_native_Inr [OF tx])
  obtain t k where k: "na_expires_at a = Some t" "c = Some k"
    "insertDesktopConnectionSession now (issued_connection a t) digest True d1 = Inr (k, d2)"
    using s(3) op by auto
  have d2: "fst ?r = d2" using s(4) by (simp add: no_finalize_def)
  from k(3) have k': "k = new_connection now (issued_connection a t) digest"
    "desktop_connection_sessions d2 = desktop_connection_sessions d1 @ [k]" "native_guest_accounts d2 = native_guest_accounts d1"
    and free: "filter (\<lambda>x. c_desktop_vmid x = na_desktop_vmid a \<and> conn_open x) (desktop_connection_sessions d1) = []"
    by (auto simp: insertDesktopConnectionSession_def bindE_eq_Inr guardE_eq_Inr list_ex_iff filter_empty_conv issued_connection_def)
  obtain old where old: "old \<in> set (native_guest_accounts d)" "complete_ready now a d old" "q = complete_row now old"
    "account_step old q" "native_check q" "set (native_guest_accounts d1) = insert q {a \<in> set (native_guest_accounts d). a \<noteq> old}"
    by (rule update_native_result [OF s(2) assms(1)])
  have id: "native_identity old = native_identity a" "na_state old = NativePending" "na_operation old = OpIssue"
    "na_connection_id old = na_connection_id a"
    using old(2) op by (auto simp: complete_ready_def)
  have "find (same_account_row a) (native_guest_accounts d) = Some old"
    by (rule unique_by_find [of "\<lambda>a. (na_desktop_vmid a, na_user_id a)"])
      (use assms(1) old(1) id(1) in \<open>auto simp: native_inv_def native_unique_def same_account_row_def native_identity_def\<close>)
  then have dg: "digest = na_native_session_digest old" using s(1) op by (simp add: initiating_digest_def query_row_def)
  have q: "na_operation q = OpIssue" "na_connection_id q = na_connection_id a" "q \<in> set (native_guest_accounts d2)"
    using id by (simp_all add: old(3,6) k'(3) complete_row_def)
  have fl: "filter (\<lambda>x. c_desktop_vmid x = na_desktop_vmid a \<and> conn_open x) (desktop_connection_sessions d2) = [k]"
    by (simp add: k'(2) free) (simp add: k'(1) new_connection_def issued_connection_def conn_open_def)
  have kk: "c_id k = na_connection_id a" "c_user_id k = na_user_id a" "Some (c_expires_at k) = na_expires_at a"
    "c_native_session_digest k = na_native_session_digest old"
    by (simp_all add: k'(1) k(1) dg new_connection_def issued_connection_def)
  have out: "snd (CompleteNativeGuestConnection fault now a d) = Inr (Some k) \<or>
        (fault = CommitLost \<and> snd (CompleteNativeGuestConnection fault now a d) = Inl DriverErr)"
  proof (cases "fault = CommitLost")
    case True
    then show ?thesis using tx [unfolded d2] unfolding r by (simp add: run_tx_def)
  next
    case False
    then have "fault = NoFault" using ch by (cases fault) simp_all
    then show ?thesis using tx [unfolded d2] k(2) unfolding r by simp
  qed
  have after: "fst (CompleteNativeGuestConnection fault now a d) = d2" by (simp add: r d2)
  show ?thesis unfolding after
    by (rule disjI2, rule exI [of _ q], rule exI [of _ old], rule exI [of _ k], intro conjI)
      (fact old(1) id(1,2) old(3) q fl kk out)+
qed simp


text \<open>The operations of the two files in any order, with any arguments and any driver faults.\<close>

inductive native_step :: "db \<Rightarrow> db \<Rightarrow> bool" where
  Bind: "native_step d (fst (BindNativeGuestAccount fault now a digest d))"
| Begin: "native_step d (fst (BeginNativeGuestCredential fault clock clock2 now a cid expires digest d))"
| Retire: "native_step d (fst (RetireNativeGuestCredential fault now a d))"
| Revoke: "native_step d (fst (RevokeNativeGuestAccount fault now a d))"
| CompleteOp: "native_step d (fst (CompleteNativeGuestAccountOperation fault now a d))"
| CompleteConn: "native_step d (fst (CompleteNativeGuestConnection fault now a d))"
| Recover: "native_step d (fst (CommitNativeGuestRecovery fault now a revision cid actor receipt reason d))"

lemma native_step_kept: "native_step d d' \<Longrightarrow> natives_kept d d'"
  by (induction rule: native_step.induct) (rule native_ops_kept)+

lemma native_steps_kept: "native_step\<^sup>*\<^sup>* d d' \<Longrightarrow> natives_kept d d'"
proof (induction rule: rtranclp_induct)
  case (step y z)
  then show ?case using native_step_kept natives_kept_trans by blast
qed simp



section \<open>Witnesses\<close>

definition ex_account :: NativeGuestAccount where
  "ex_account = \<lparr>na_desktop_vmid = 100, na_user_id = ''u1'', na_guest_username = NativeGuestUsername ''u1'',
     na_os_family = OsLinux, na_guest_uid = 1300, na_guest_sid = [], na_revision = 0, na_operation = OpNone,
     na_state = NativeIdle, na_connection_id = [], na_expires_at = None, na_native_session_digest = None,
     na_created_at = 0, na_updated_at = 0\<rparr>"

definition ex_cid :: string where
  "ex_cid = ''conn_00000001''"

definition ex_pending :: NativeGuestAccount where
  "ex_pending = issue_row 60 ex_cid (seconds 90) ''n1'' ex_account"

definition ex_native_db :: "NativeGuestAccount \<Rightarrow> NativeCredentialId list \<Rightarrow> db" where
  "ex_native_db a ids = empty_db\<lparr>
     users := [ex_user, ex_user\<lparr>u_id := ''root'', u_role := PlatformAdmin\<rparr>],
     native_sessions := [\<lparr>ns_token_digest = ''n1'', ns_user_id = ''u1'', ns_expires_at = seconds 90, ns_created_at = 0, ns_last_seen_at = 0\<rparr>],
     managed_desktops := [ex_desktop],
     user_desktop_assignments := [\<lparr>as_subject_id = ''u1'', as_desktop_vmid = 100, as_created_by = None, as_created_at = 0\<rparr>],
     identity_profiles := [\<lparr>ip_id = ''managed-local-linux'', ip_display_name = ''local'', ip_platform = OsLinux, ip_mode = ManagedLocal,
       ip_enabled = True, ip_experimental = False, ip_config = [], ip_created_by = None, ip_created_at = 0, ip_updated_at = 0\<rparr>],
     guest_identity_bindings := [ex_binding\<lparr>b_guest_username := NativeGuestUsername ''u1''\<rparr>],
     native_guest_accounts := [a], native_guest_credential_ids := ids\<rparr>"

definition ex_credential :: NativeCredentialId where
  "ex_credential = \<lparr>ci_connection_id = ex_cid, ci_desktop_vmid = 100, ci_user_id = ''u1'', ci_revision = 1\<rparr>"

lemma NativeGuestUsername_valid: "matches_class ''vcw'' is_lower_hex 12 12 (NativeGuestUsername uid)"
  by (simp add: NativeGuestUsername_def matches_class_def hex_encode_lower_hex)

lemma ex_cid_valid: "nativeConnectionID ex_cid" "nativeConnectionID ''conn_00000002''"
  by code_simp+

lemma ex_native_access: "effective_user_desktop_access (ex_native_db a ids) ''u1'' 100"
  by (simp add: effective_user_desktop_access_def desktop_grants_def desktop_clone_ready_def ex_native_db_def ex_user_def
      ex_desktop_def empty_db_def)

lemmas ex_native_defs = ex_native_db_def ex_account_def ex_pending_def ex_credential_def issue_row_def empty_db_def
  ex_desktop_def ex_binding_def

lemma ex_native_inv: "native_inv (ex_native_db ex_account [])" "native_inv (ex_native_db ex_pending [ex_credential])"
  using NativeGuestUsername_valid [of "''u1''"] ex_cid_valid(1)
  by (simp_all add: native_inv_def native_unique_def account_inv_def native_check_def pinned_subject_def credential_of_def ex_native_defs
      ex_cid_def)

lemma ex_native_subject: "native_subject_ok 60 ex_account (Some ''n1'') (ex_native_db a ids)"
  "native_subject_ok 61 ex_pending (Some ''n1'') (ex_native_db a ids)"
  using ex_native_access [of a ids]
  by (simp_all add: native_subject_ok_def profile_or_default_def managed_local_profile_def ex_native_defs)

lemma ex_native_idle:
  "\<not> identity_revocation_pending (ex_native_db a ids) v" "\<not> computer_revocation_pending (ex_native_db a ids) v"
  by (simp_all add: identity_revocation_pending_def computer_revocation_pending_def ex_native_defs)

lemma ex_valid_identity: "validIdentity ex_account" "validIdentity ex_pending"
  by (simp_all add: validIdentity_def ValidAccount_def ex_native_defs)

lemma ex_native_fenced: "fenced (ex_native_db a ids)"
proof -
  have "fenced ((ex_native_db a ids)\<lparr>native_guest_accounts := []\<rparr>)"
    by (rule same_authority_fenced [OF _ fenced_empty]) (simp add: same_authority_def ex_native_defs)
  then show ?thesis by (rule fenced_natives) (simp_all add: ex_native_defs)
qed




theorem CompleteNativeGuestConnection_atomic_witness:
  "\<exists>c. filter (\<lambda>x. c_desktop_vmid x = 100 \<and> conn_open x)
     (desktop_connection_sessions (fst (CompleteNativeGuestConnection NoFault 61 ex_pending (ex_native_db ex_pending [ex_credential])))) = [c] \<and>
     c_id c = ex_cid \<and> c_native_session_digest c = Some ''n1''"
proof -
  let ?d = "ex_native_db ex_pending [ex_credential]"
  let ?q = "complete_row 61 ex_pending"
  have "complete_ready 61 ex_pending ?d ex_pending"
    using ex_native_subject(2) ex_native_idle
    by (simp add: complete_ready_def) (simp add: ex_pending_def issue_row_def ex_account_def)
  moreover have "protect_native_guest_account_version 61 [] ex_pending ?q ?d = Inr ?d"
    by (simp add: protect_native_guest_account_version_def native_identity_def recovery_step_def same_intent_def complete_row_def
        ex_pending_def issue_row_def)
  moreover have "native_check ?q"
    using NativeGuestUsername_valid [of "''u1''"] ex_cid_valid(1) by (simp add: native_check_def complete_row_def ex_native_defs)
  ultimately have up: "update_native 61 [] (complete_ready 61 ex_pending ?d) (complete_row 61) ?d = Inr (?q, ex_native_db ?q [ex_credential])"
    by (simp add: update_native_def query_row_def)
      (simp add: protect_cross_subject_native_def native_unique_def same_account_row_def ex_native_defs complete_row_def query_row_def)
  have "connection_permitted 61 (issued_connection ex_pending (seconds 90)) (Some ''n1'') True (ex_native_db ?q [ex_credential])"
    using ex_native_access [of ?q "[ex_credential]"] ex_native_idle(1) [of ?q "[ex_credential]"]
    by (simp add: connection_permitted_def issued_connection_def ex_native_defs)
  then obtain k d2 where ins: "insertDesktopConnectionSession 61 (issued_connection ex_pending (seconds 90)) (Some ''n1'') True
      (ex_native_db ?q [ex_credential]) = Inr (k, d2)" "desktop_connection_sessions d2 = [k]"
    by (simp add: insertDesktopConnectionSession_def digest_check_def ex_native_db_def empty_db_def)
  have p: "initiating_digest ex_pending ?d = Inr (Some ''n1'')" "na_operation ex_pending = OpIssue"
    "na_expires_at ex_pending = Some (seconds 90)" "0 < na_revision ex_pending" "na_state ex_pending = NativePending"
    "na_desktop_vmid ex_pending = 100" "na_connection_id ex_pending = ex_cid" "native_guest_accounts ?d = [ex_pending]"
    "na_native_session_digest ex_pending = Some ''n1''" "desktop_connection_sessions ?d = []"
    by (simp_all add: initiating_digest_def query_row_def same_account_row_def ex_native_defs)
  have "fst (CompleteNativeGuestConnection NoFault 61 ex_pending ?d) = d2"
    using ex_valid_identity(2) up ins(1) p(1-5)
    by (simp add: CompleteNativeGuestConnection_def completeNativeGuestAccountOperation_def complete_native_tx_def no_finalize_def)
  then have ne: "fst (CompleteNativeGuestConnection NoFault 61 ex_pending ?d) \<noteq> ?d" using ins(2) p(10) by auto
  have "connections_wf ?d" by (simp add: connections_wf_def ex_native_db_def empty_db_def)
  from CompleteNativeGuestConnection_atomic [OF ex_native_inv(2) this, of NoFault 61 ex_pending] ne p(6-9) show ?thesis
    by auto
qed

definition ex_revoked :: NativeGuestAccount where
  "ex_revoked = complete_row 62 (cleanup_row 61 OpRevoke ex_pending)"


end
