(* ===== verification/Auth.thy ===== *)
theory Auth
  imports Go_Strings Sha256
begin

text \<open>
  Package auth (src/internal/auth/password.go) with the parts of \<open>encoding/base64\<close> and \<open>fmt.Sscanf\<close> it
  uses.  Argon2 and its version number come from a third-party package: \<open>argon2id\<close> and \<open>ver\<close> are
  arguments.  \<open>entropy\<close> is what \<open>rand.Read\<close> fills the buffer with, \<open>None\<close> when it fails.
\<close>

section \<open>Base64 without padding\<close>

definition std_alphabet :: string where
  "std_alphabet = ''ABCDEFGHIJKLMNOPQRSTUVWXYZabcdefghijklmnopqrstuvwxyz0123456789+/''"

definition url_alphabet :: string where
  "url_alphabet = ''ABCDEFGHIJKLMNOPQRSTUVWXYZabcdefghijklmnopqrstuvwxyz0123456789-_''"

text \<open>Bytes to six-bit groups and back; \<open>strict\<close> asks for zero bits after the last byte.\<close>

fun sextets :: "nat list \<Rightarrow> nat list" where
  "sextets [] = []"
| "sextets [a] = [a div 4, (a mod 4) * 16]"
| "sextets [a, b] = [a div 4, (a mod 4) * 16 + b div 16, (b mod 16) * 4]"
| "sextets (a # b # c # r) =
     a div 4 # ((a mod 4) * 16 + b div 16) # ((b mod 16) * 4 + c div 64) # c mod 64 # sextets r"

fun octets :: "bool \<Rightarrow> nat list \<Rightarrow> nat list option" where
  "octets strict [] = Some []"
| "octets strict [w] = None"
| "octets strict [w, x] = (if strict \<and> x mod 16 \<noteq> 0 then None else Some [w * 4 + x div 16])"
| "octets strict [w, x, y] =
     (if strict \<and> y mod 4 \<noteq> 0 then None else Some [w * 4 + x div 16, (x mod 16) * 16 + y div 4])"
| "octets strict (w # x # y # z # r) =
     map_option (\<lambda>t. (w * 4 + x div 16) # ((x mod 16) * 16 + y div 4) # ((y mod 4) * 64 + z) # t) (octets strict r)"

definition b64_value :: "string \<Rightarrow> char \<Rightarrow> nat option" where
  "b64_value al c = (let n = length (takeWhile (\<lambda>x. x \<noteq> c) al) in if n < length al then Some n else None)"

definition EncodeToString :: "string \<Rightarrow> string \<Rightarrow> string" where
  "EncodeToString al s = map (\<lambda>n. al ! n) (sextets (map byte_of s))"

text \<open>The decoder skips carriage returns and line feeds.\<close>

definition DecodeString :: "string \<Rightarrow> bool \<Rightarrow> string \<Rightarrow> string option" where
  "DecodeString al strict s =
     Option.bind (those (map (b64_value al) (filter (\<lambda>c. c \<noteq> CHR 10 \<and> c \<noteq> CHR 13) s)))
       (\<lambda>vs. map_option (map char_of) (octets strict vs))"

section \<open>Scanning the parameters of a password hash\<close>

text \<open>
  \<open>fmt.Sscanf\<close> with \<open>"m=%d,t=%d,p=%d"\<close> into unsigned integers: a literal must match, white space before a
  number is skipped unless it is a newline, what follows the last number is not looked at.
\<close>

function scan_space :: "string \<Rightarrow> string option" where
  "scan_space s =
     (if s \<noteq> [] \<and> hd s = CHR 10 then None
      else if space_len s = 0 then Some s
      else scan_space (drop (space_len s) s))"
  by pat_completeness auto
termination
  by (relation "measure length") (use space_len_le in \<open>auto simp: space_len_def split: list.splits\<close>)

declare scan_space.simps [simp del]

definition scan_uint :: "nat \<Rightarrow> string \<Rightarrow> (nat \<times> string) option" where
  "scan_uint bits s =
     Option.bind (scan_space s) (\<lambda>t.
     Option.bind (ParseUint 10 64 (takeWhile is_digit t)) (\<lambda>n.
       if n < 2 ^ bits then Some (n, dropWhile is_digit t) else None))"

definition scan_literal :: "string \<Rightarrow> string \<Rightarrow> string option" where
  "scan_literal lit s = (if HasPrefix s lit then Some (drop (length lit) s) else None)"

definition scan_argon :: "string \<Rightarrow> (nat \<times> nat \<times> nat) option" where
  "scan_argon s =
     Option.bind (scan_literal ''m='' s) (\<lambda>s1. Option.bind (scan_uint 32 s1) (\<lambda>(m, s2).
     Option.bind (scan_literal '',t='' s2) (\<lambda>s3. Option.bind (scan_uint 32 s3) (\<lambda>(t, s4).
     Option.bind (scan_literal '',p='' s4) (\<lambda>s5. Option.bind (scan_uint 8 s5) (\<lambda>(p, _).
       Some (m, t, p)))))))"

section \<open>Passwords\<close>

abbreviation argonTime :: nat where "argonTime \<equiv> 3"
abbreviation argonMemory :: nat where "argonMemory \<equiv> 65536"
abbreviation argonThreads :: nat where "argonThreads \<equiv> 4"
abbreviation argonKeyLen :: nat where "argonKeyLen \<equiv> 32"
abbreviation argonSaltLen :: nat where "argonSaltLen \<equiv> 16"

type_synonym argon = "string \<Rightarrow> string \<Rightarrow> nat \<Rightarrow> nat \<Rightarrow> nat \<Rightarrow> nat \<Rightarrow> string"

definition hash_text :: "nat \<Rightarrow> string \<Rightarrow> string \<Rightarrow> string" where
  "hash_text ver salt hash =
     ''$argon2id$v='' @ FormatUint ver @ ''$m='' @ FormatUint argonMemory @ '',t='' @ FormatUint argonTime @
     '',p='' @ FormatUint argonThreads @ ''$'' @ EncodeToString std_alphabet salt @ ''$'' @
     EncodeToString std_alphabet hash"

definition HashPassword :: "argon \<Rightarrow> nat \<Rightarrow> (nat \<Rightarrow> string option) \<Rightarrow> string \<Rightarrow> err + string" where
  "HashPassword argon2id ver entropy password =
     (case entropy argonSaltLen of
        None \<Rightarrow> Inl (ErrMsg ''generate password salt'')
      | Some salt \<Rightarrow> Inr (hash_text ver salt (argon2id password salt argonTime argonMemory argonThreads argonKeyLen)))"

definition VerifyPassword :: "argon \<Rightarrow> nat \<Rightarrow> string \<Rightarrow> string \<Rightarrow> err + bool" where
  "VerifyPassword argon2id ver encoded password =
     (let parts = Split (CHR ''$'') encoded
      in if length parts \<noteq> 6 \<or> parts ! 1 \<noteq> ''argon2id'' then Inl (ErrMsg ''invalid password hash format'')
         else if Atoi (TrimPrefix (parts ! 2) ''v='') \<noteq> Some (int ver) then Inl (ErrMsg ''unsupported Argon2 version'')
         else case scan_argon (parts ! 3) of
                None \<Rightarrow> Inl (ErrMsg ''invalid Argon2 parameters'')
              | Some (memory, iterations, parallelism) \<Rightarrow>
                  if memory < 8 * 1024 \<or> memory > 1024 * 1024 \<or> iterations = 0 \<or> iterations > 10 \<or> parallelism = 0 \<or> parallelism > 16
                  then Inl (ErrMsg ''unsafe Argon2 parameters'')
                  else case DecodeString std_alphabet False (parts ! 4) of
                         None \<Rightarrow> Inl (ErrMsg ''invalid password salt'')
                       | Some salt \<Rightarrow>
                           (case DecodeString std_alphabet False (parts ! 5) of
                              None \<Rightarrow> Inl (ErrMsg ''invalid password digest'')
                            | Some expected \<Rightarrow>
                                if expected = [] \<or> length expected > 128 then Inl (ErrMsg ''invalid password digest'')
                                else Inr (argon2id password salt iterations memory parallelism (length expected) = expected)))"

section \<open>Tokens\<close>

definition OpaqueToken :: "(nat \<Rightarrow> string option) \<Rightarrow> nat \<Rightarrow> err + string" where
  "OpaqueToken entropy byteLength =
     (case entropy byteLength of
        None \<Rightarrow> Inl (ErrMsg ''generate token'')
      | Some value \<Rightarrow> Inr (EncodeToString url_alphabet value))"

definition TokenDigest :: "string \<Rightarrow> string" where
  "TokenDigest token = Sum256 token"

text \<open>\<open>subtle.ConstantTimeCompare\<close> of two byte strings of one length.\<close>

definition ConstantTimeEqual :: "string \<Rightarrow> string \<Rightarrow> bool" where
  "ConstantTimeEqual left right \<longleftrightarrow> (if length left \<noteq> length right then False else left = right)"

text \<open>\<open>EqualFold\<close> against a word none of whose letters has a case variant outside ASCII.\<close>

definition ParseBearerToken :: "string \<Rightarrow> string option" where
  "ParseBearerToken header =
     (let fields = Fields header
      in if length fields \<noteq> 2 \<or> map ascii_lower (fields ! 0) \<noteq> ''bearer'' \<or> fields ! 1 = [] then None
         else Some (fields ! 1))"

section \<open>Decoding inverts encoding\<close>

text \<open>What the decoder relies on about an alphabet.\<close>

definition alphabet_ok :: "string \<Rightarrow> bool" where
  "alphabet_ok al \<longleftrightarrow> length al = 64 \<and> distinct al \<and> list_all (\<lambda>c. c \<noteq> CHR 10 \<and> c \<noteq> CHR 13 \<and> c \<noteq> CHR ''$'') al"

lemma std_alphabet_ok: "alphabet_ok std_alphabet"
  by code_simp

lemma url_alphabet_ok: "alphabet_ok url_alphabet"
  by code_simp

lemma b64_value_nth: "alphabet_ok al \<Longrightarrow> n < 64 \<Longrightarrow> b64_value al (al ! n) = Some n"
proof -
  assume al: "alphabet_ok al" and n: "n < 64"
  have "takeWhile (\<lambda>x. x \<noteq> al ! n) al = take n al"
    using al n by (intro takeWhile_eq_take_P_nth) (auto simp: alphabet_ok_def nth_eq_iff_index_eq)
  then show "b64_value al (al ! n) = Some n"
    using al n by (simp add: b64_value_def alphabet_ok_def)
qed

lemma b64_value_Some: "b64_value al c = Some n \<Longrightarrow> n < length al \<and> al ! n = c"
  unfolding b64_value_def Let_def using nth_length_takeWhile [of "\<lambda>x. x \<noteq> c" al]
  by (auto split: if_splits)

lemma sextets_bound: "list_all (\<lambda>b. b < 256) bs \<Longrightarrow> list_all (\<lambda>v. v < 64) (sextets bs)"
  by (induction bs rule: sextets.induct) auto

lemma octets_sextets: "list_all (\<lambda>b. b < 256) bs \<Longrightarrow> octets strict (sextets bs) = Some bs"
  by (induction bs rule: sextets.induct) auto

lemma octets_bound: "list_all (\<lambda>v. v < 64) vs \<Longrightarrow> octets strict vs = Some bs \<Longrightarrow> list_all (\<lambda>b. b < 256) bs"
  by (induction strict vs arbitrary: bs rule: octets.induct) (auto split: if_splits)

lemma octets_length: "octets strict vs = Some bs \<Longrightarrow> length bs = 3 * length vs div 4"
  by (induction strict vs arbitrary: bs rule: octets.induct) (auto split: if_splits)

lemma sextets_length: "length (sextets bs) = (4 * length bs + 2) div 3"
  by (induction bs rule: sextets.induct) auto

text \<open>With the strict flag a text has at most one decoding and a value exactly one text.\<close>

lemma sextets_octets: "list_all (\<lambda>v. v < 64) vs \<Longrightarrow> octets True vs = Some bs \<Longrightarrow> sextets bs = vs"
proof (induction "True" vs arbitrary: bs rule: octets.induct)
  case (5 w x y z r)
  then obtain t where t: "octets True r = Some t" "sextets t = r"
    and bs: "bs = (w * 4 + x div 16) # ((x mod 16) * 16 + y div 4) # ((y mod 4) * 64 + z) # t"
    by auto
  moreover have "w < 64" "x < 64" "y < 64" "z < 64" using 5 by auto
  ultimately show ?case by (auto simp: div_add1_eq)
qed (auto split: if_splits)

lemma those_map_b64:
  "alphabet_ok al \<Longrightarrow> list_all (\<lambda>v. v < 64) vs \<Longrightarrow> those (map (b64_value al) (map (\<lambda>n. al ! n) vs)) = Some vs"
  by (induction vs) (auto simp: b64_value_nth)

lemma those_b64_Some:
  "those (map (b64_value al) s) = Some vs \<Longrightarrow> map (\<lambda>n. al ! n) vs = s \<and> list_all (\<lambda>v. v < length al) vs"
  by (induction s arbitrary: vs) (auto split: option.splits dest!: b64_value_Some)

lemma bytes_of_string: "list_all (\<lambda>b. b < 256) (map byte_of (s :: string))"
  by (simp add: list_all_iff)

lemma EncodeToString_chars: "alphabet_ok al \<Longrightarrow> set (EncodeToString al s) \<subseteq> set al"
proof -
  assume "alphabet_ok al"
  then have "\<forall>v\<in>set (sextets (map byte_of s)). v < length al"
    using sextets_bound [OF bytes_of_string, of s] by (simp add: alphabet_ok_def list_all_iff)
  then show ?thesis by (auto simp: EncodeToString_def simp del: length_map)
qed

lemma EncodeToString_not_in:
  "alphabet_ok al \<Longrightarrow> c \<in> {CHR 10, CHR 13, CHR ''$''} \<Longrightarrow> c \<notin> set (EncodeToString al s)"
  using EncodeToString_chars [of al s] by (auto simp: alphabet_ok_def list_all_iff)

lemma length_EncodeToString: "length (EncodeToString al s) = (4 * length s + 2) div 3"
  by (simp add: EncodeToString_def sextets_length)

lemma DecodeString_EncodeToString [simp]:
  assumes "alphabet_ok al"
  shows "DecodeString al strict (EncodeToString al s) = Some s"
proof -
  have "filter (\<lambda>c. c \<noteq> CHR 10 \<and> c \<noteq> CHR 13) (EncodeToString al s) = EncodeToString al s"
    using EncodeToString_not_in [OF assms, of _ s] by (intro filter_True) auto
  then show ?thesis
    using those_map_b64 [OF assms sextets_bound [OF bytes_of_string, of s]] octets_sextets [OF bytes_of_string, of strict s]
    by (simp add: DecodeString_def EncodeToString_def comp_def)
qed

lemma DecodeString_strict:
  assumes "alphabet_ok al" "DecodeString al True s = Some v"
  shows "filter (\<lambda>c. c \<noteq> CHR 10 \<and> c \<noteq> CHR 13) s = EncodeToString al v"
proof -
  obtain vs bs where vs: "those (map (b64_value al) (filter (\<lambda>c. c \<noteq> CHR 10 \<and> c \<noteq> CHR 13) s)) = Some vs"
    and bs: "octets True vs = Some bs" and v: "v = map char_of bs"
    using assms by (auto simp: DecodeString_def bind_eq_Some_conv)
  have b: "list_all (\<lambda>v. v < 64) vs" using those_b64_Some [OF vs] assms by (simp add: alphabet_ok_def)
  have "map byte_of v = bs"
    using octets_bound [OF b bs] by (auto simp: v comp_def list_all_iff intro: map_idI)
  then show ?thesis
    using those_b64_Some [OF vs] sextets_octets [OF b bs] by (simp add: EncodeToString_def)
qed

section \<open>Scanning inverts printing\<close>

lemma wide_spaces_no_digit: "list_all (\<lambda>w. w \<noteq> [] \<and> \<not> is_digit (hd w)) wide_spaces"
  by code_simp

lemma space_len_digit:
  assumes "is_digit c"
  shows "space_len (c # s) = 0"
proof -
  have "\<not> HasPrefix (c # s) w" if "w \<in> set wide_spaces" for w
  proof
    assume "HasPrefix (c # s) w"
    then obtain r where "c # s = w @ r" by (auto simp: HasPrefix_iff)
    moreover have "w \<noteq> []" "\<not> is_digit (hd w)" using that wide_spaces_no_digit unfolding list_all_iff by blast+
    ultimately show False using assms by (cases w) auto
  qed
  then have "find (\<lambda>w. HasPrefix (c # s) w) wide_spaces = None" by (simp add: find_None_iff)
  moreover have "\<not> ascii_space c" using assms by (auto simp: is_digit_def in_range_def ascii_space_def)
  ultimately show ?thesis by (simp add: space_len_def)
qed

lemma scan_space_digit: "is_digit c \<Longrightarrow> scan_space (c # s) = Some (c # s)"
  by (subst scan_space.simps) (auto simp: space_len_digit is_digit_def in_range_def)

lemma scan_uint_FormatUint:
  assumes "n < 2 ^ bits" "bits \<le> 64" "case r of [] \<Rightarrow> True | c # _ \<Rightarrow> \<not> is_digit c"
  shows "scan_uint bits (FormatUint n @ r) = Some (n, r)"
proof -
  obtain c w where c: "FormatUint n = c # w" by (cases "FormatUint n") auto
  have d: "\<forall>x\<in>set (FormatUint n). is_digit x" using FormatUint_digits [of n] by (simp add: list_all_iff)
  have "scan_space (FormatUint n @ r) = Some (FormatUint n @ r)" using c d by (simp add: scan_space_digit)
  moreover have "takeWhile is_digit (FormatUint n @ r) = FormatUint n" "dropWhile is_digit (FormatUint n @ r) = r"
    using d assms(3) by (auto simp: takeWhile_append2 dropWhile_append2 split: list.splits)
  moreover have "n < 2 ^ 64" using assms(1,2) by (meson order_less_le_trans power_increasing one_le_numeral)
  ultimately show ?thesis using assms(1) by (simp add: scan_uint_def)
qed

lemma scan_literal_append [simp]: "scan_literal lit (lit @ s) = Some s"
  by (simp add: scan_literal_def)

lemma scan_argon_print:
  assumes "m < 2 ^ 32" "t < 2 ^ 32" "p < 2 ^ 8"
  shows "scan_argon (''m='' @ FormatUint m @ '',t='' @ FormatUint t @ '',p='' @ FormatUint p) = Some (m, t, p)"
proof -
  have "scan_uint 32 (FormatUint m @ '',t='' @ FormatUint t @ '',p='' @ FormatUint p) = Some (m, '',t='' @ FormatUint t @ '',p='' @ FormatUint p)"
    "scan_uint 32 (FormatUint t @ '',p='' @ FormatUint p) = Some (t, '',p='' @ FormatUint p)"
    "scan_uint 8 (FormatUint p) = Some (p, [])"
    using scan_uint_FormatUint [of p 8 "[]"] assms
    by (auto intro!: scan_uint_FormatUint simp: is_digit_def in_range_def)
  then show ?thesis
    unfolding scan_argon_def by (simp only: scan_literal_append prod.case Option.bind.simps)
qed

lemma hash_text_parts:
  "Split (CHR ''$'') (hash_text ver salt hash) =
     [[], ''argon2id'', ''v='' @ FormatUint ver,
      ''m='' @ FormatUint argonMemory @ '',t='' @ FormatUint argonTime @ '',p='' @ FormatUint argonThreads,
      EncodeToString std_alphabet salt, EncodeToString std_alphabet hash]" (is "_ = ?ws")
proof -
  have "\<not> is_digit (CHR ''$'')" by (simp add: is_digit_def in_range_def)
  then have "\<forall>w\<in>set ?ws. CHR ''$'' \<notin> set w"
    using EncodeToString_not_in [OF std_alphabet_ok, of "CHR ''$''"] by (simp add: FormatUint_no_char)
  then have split: "Split (CHR ''$'') (Join (CHR ''$'') ?ws) = ?ws" by (rule Split_Join [rotated]) simp
  have join: "Join (CHR ''$'') ?ws = hash_text ver salt hash" by (simp add: hash_text_def)
  show ?thesis by (rule split [unfolded join])
qed

lemma Atoi_FormatUint: "int n \<le> max_int64 \<Longrightarrow> Atoi (FormatUint n) = Some (int n)"
  using Atoi_Itoa [of "int n"] by (simp add: Itoa_def)

lemma VerifyPassword_hash_text:
  assumes "int ver \<le> max_int64" "hash \<noteq> []" "length hash \<le> 128"
  shows "VerifyPassword argon2id ver (hash_text ver salt hash) password =
           Inr (argon2id password salt argonTime argonMemory argonThreads (length hash) = hash)"
proof -
  have "TrimPrefix (''v='' @ FormatUint ver) ''v='' = FormatUint ver"
    by (simp add: TrimPrefix_def CutPrefix_def HasPrefix_def)
  moreover have "scan_argon (''m='' @ FormatUint argonMemory @ '',t='' @ FormatUint argonTime @ '',p='' @ FormatUint argonThreads) = Some (argonMemory, argonTime, argonThreads)"
    by (rule scan_argon_print) simp_all
  ultimately show ?thesis
    using assms unfolding VerifyPassword_def Let_def hash_text_parts
    by (simp add: Atoi_FormatUint std_alphabet_ok)
qed

text \<open>
  C27. A password hash made by HashPassword is accepted by VerifyPassword without an error, with the
  very password it was made from, and with another password exactly when Argon2 derives the same key from
  it under the stored salt.  Argon2 returns as many bytes as it is asked for.
\<close>

theorem HashPassword_VerifyPassword:
  assumes length_key: "\<And>p s t m th n. length (argon2id p s t m th n) = n"
    and ver: "int ver \<le> max_int64"
    and hash: "HashPassword argon2id ver entropy password = Inr encoded"
  shows "VerifyPassword argon2id ver encoded password = Inr True \<and>
    (\<exists>salt. entropy argonSaltLen = Some salt \<and>
       (\<forall>other. VerifyPassword argon2id ver encoded other =
          Inr (argon2id other salt argonTime argonMemory argonThreads argonKeyLen =
               argon2id password salt argonTime argonMemory argonThreads argonKeyLen)))"
proof -
  obtain salt where salt: "entropy argonSaltLen = Some salt"
    and enc: "encoded = hash_text ver salt (argon2id password salt argonTime argonMemory argonThreads argonKeyLen)"
    using hash by (auto simp: HashPassword_def split: option.splits)
  define key where "key = (\<lambda>x. argon2id x salt argonTime argonMemory argonThreads argonKeyLen)"
  have len: "length (key x) = argonKeyLen" for x by (simp add: key_def length_key)
  then have ne: "key password \<noteq> []" by (metis length_0_conv zero_neq_numeral)
  have "VerifyPassword argon2id ver encoded x = Inr (key x = key password)" for x
  proof -
    have "encoded = hash_text ver salt (key password)" by (simp only: enc key_def)
    moreover have "length (key password) \<le> 128" by (simp add: len)
    ultimately show ?thesis
      using VerifyPassword_hash_text [OF ver ne, of argon2id salt x] by (simp only: key_def length_key simp_thms)
  qed
  with salt show ?thesis unfolding key_def by simp
qed

theorem HashPassword_VerifyPassword_witness:
  "VerifyPassword (\<lambda>p s t m th n. replicate n (CHR ''k'')) 19
     (hash_text 19 ''0123456789abcdef'' (replicate 32 (CHR ''k''))) ''secret'' = Inr True"
  using HashPassword_VerifyPassword [of "\<lambda>p s t m th n. replicate n (CHR ''k'')" 19 "\<lambda>n. Some ''0123456789abcdef''" "''secret''"
      "hash_text 19 ''0123456789abcdef'' (replicate 32 (CHR ''k''))"]
  by (simp only: HashPassword_def length_replicate option.case simp_thms)

end
