(* ===== verification/Gateway_Tickets.thy ===== *)
theory Gateway_Tickets
  imports Native_Laws Auth "HOL-Library.Word"
begin

text \<open>
  Gateway session tickets (src/internal/store/gateway_ticket.go), the constraints and the trigger of
  migration 029, and the one transaction that completes a Native credential together with its ticket.
  \<open>stamp\<close> is \<open>statement_timestamp()\<close>, \<open>entropy\<close> the random bytes of \<open>OpaqueToken\<close>.
\<close>

unbundle bit_operations_syntax

section \<open>Requests, tickets, grants\<close>

text \<open>\<open>netip.Addr\<close>: no address, an IPv4 address, or an IPv6 address with its zone.\<close>

datatype netip_addr = NoAddr | Addr4 "32 word" | Addr6 "128 word" string

definition private4 :: "32 word \<Rightarrow> bool" where
  "private4 a \<longleftrightarrow> drop_bit 24 a = 10 \<or> drop_bit 20 a = 0xAC1 \<or> drop_bit 16 a = 0xC0A8"

fun Is4 :: "netip_addr \<Rightarrow> bool" where
  "Is4 (Addr4 _) = True"
| "Is4 _ = False"

fun IsPrivate :: "netip_addr \<Rightarrow> bool" where
  "IsPrivate NoAddr = False"
| "IsPrivate (Addr4 a) = private4 a"
| "IsPrivate (Addr6 a z) = (drop_bit 121 a = 0x7E)"

fun addr4 :: "netip_addr \<Rightarrow> 32 word" where
  "addr4 (Addr4 a) = a"
| "addr4 _ = 0"

record NativeGatewayTicketRequest =
  gr_ConnectionID :: string
  gr_NativeDigest :: string
  gr_GatewayID :: string
  gr_Target :: netip_addr
  gr_CertificateSHA256 :: string
  gr_PolicyRevision :: int

record NativeGatewayTicket =
  gt_Token :: string
  gt_ExpiresAt :: time

record NativeGatewayGrant =
  gg_ConnectionID :: string
  gg_GatewayID :: string
  gg_TunnelID :: string
  gg_Target :: netip_addr
  gg_CertificateSHA256 :: string
  gg_PolicyRevision :: int
  gg_ValidFor :: time

abbreviation GatewayAuthorizationWindow :: time where
  "GatewayAuthorizationWindow \<equiv> seconds 5"

definition gatewayIDPattern :: "string \<Rightarrow> bool" where
  "gatewayIDPattern s = matches_class ''gw_'' is_lower_token_char 8 64 s"

definition tunnelIDPattern :: "string \<Rightarrow> bool" where
  "tunnelIDPattern s = matches_class ''tun_'' is_token_char 24 128 s"

section \<open>Access of a connection\<close>

text \<open>
  The query \<open>gatewayAccess\<close> for one connection: the policy revision and the deadline of its row, if it has
  one.  The joined tables are looked up by their primary keys.
\<close>

definition gateway_native_clear :: "db \<Rightarrow> DesktopConnectionSession \<Rightarrow> bool" where
  "gateway_native_clear d c \<longleftrightarrow>
     \<not> list_ex (\<lambda>a. na_desktop_vmid a = c_desktop_vmid c \<and>
         (na_state a = NativePending \<or>
          (na_user_id a = c_user_id c \<and>
             (na_connection_id a \<noteq> c_id c \<or> na_operation a \<noteq> OpIssue \<or> na_state a \<noteq> NativeApplied)))) (native_guest_accounts d)"

definition gateway_profile_ok :: "db \<Rightarrow> DesktopConnectionSession \<Rightarrow> ManagedDesktop \<Rightarrow> bool" where
  "gateway_profile_ok d c m \<longleftrightarrow>
     list_ex (\<lambda>b. b_desktop_vmid b = c_desktop_vmid c \<and> b_user_id b = c_user_id c \<and> b_guest_username b = c_guest_username c \<and>
       (b_state b = BindReady \<or> b_state b = BindProvisioning) \<and>
       list_ex (\<lambda>p. ip_id p = profile_or_default (b_profile_id b) (md_os_family m) \<and> ip_enabled p \<and>
           ip_platform p = md_os_family m \<and> ip_id p = profile_or_default (md_identity_profile_id m) (md_os_family m))
         (identity_profiles d)) (guest_identity_bindings d)"

definition gatewayAccess :: "time \<Rightarrow> db \<Rightarrow> DesktopConnectionSession \<Rightarrow> (int \<times> time) option" where
  "gatewayAccess stamp d c =
     (case (find (\<lambda>n. c_native_session_digest c = Some (ns_token_digest n) \<and> ns_user_id n = c_user_id c) (native_sessions d),
            find (\<lambda>m. md_vmid m = c_desktop_vmid c) (managed_desktops d),
            find (\<lambda>p. p_vmid p = c_desktop_vmid c) (desktop_access_policies d)) of
        (Some n, Some m, Some policy) \<Rightarrow>
          if effective_user_desktop_access d (c_user_id c) (c_desktop_vmid c) \<and>
             c_state c = ConnActive \<and> c_closed_at c = None \<and> \<not> c_termination_required c \<and>
             c_expires_at c > stamp \<and> ns_expires_at n > stamp \<and>
             gateway_profile_ok d c m \<and>
             p_state policy = PolicyApplied \<and> p_desired_revision policy = p_applied_revision policy \<and>
             p_os_family policy = md_os_family m \<and>
             \<not> identity_revocation_pending d (c_desktop_vmid c) \<and> gateway_native_clear d c
          then Some (p_desired_revision policy, min (c_expires_at c) (ns_expires_at n)) else None
      | _ \<Rightarrow> None)"

definition ticket_access :: "time \<Rightarrow> db \<Rightarrow> GatewayTicketRow \<Rightarrow> (int \<times> time) option" where
  "ticket_access stamp d g =
     Option.bind (find (\<lambda>c. c_id c = t_connection_id g) (desktop_connection_sessions d)) (gatewayAccess stamp d)"

section \<open>The table of tickets\<close>

definition ticket_spent_ok :: "GatewayTicketRow \<Rightarrow> bool" where
  "ticket_spent_ok g =
     (case (t_tunnel_id g, t_consumed_at g, t_lease_until g) of
        (None, None, None) \<Rightarrow> t_closed_at g = None
      | (Some _, Some consumed, Some lease) \<Rightarrow>
          consumed \<ge> t_created_at g \<and> lease \<ge> consumed \<and> lease \<le> t_session_deadline g \<and>
          (case t_closed_at g of None \<Rightarrow> True | Some closed \<Rightarrow> closed \<ge> consumed)
      | _ \<Rightarrow> False)"

definition ticket_check :: "GatewayTicketRow \<Rightarrow> bool" where
  "ticket_check g \<longleftrightarrow>
     length (t_token_digest g) = 32 \<and> gatewayIDPattern (t_gateway_id g) \<and> private4 (t_target_host g) \<and>
     t_target_port g = 3389 \<and> length (t_certificate_sha256 g) = 32 \<and> t_policy_revision g > 0 \<and>
     (case t_tunnel_id g of None \<Rightarrow> True | Some s \<Rightarrow> tunnelIDPattern s) \<and>
     t_expires_at g > t_created_at g \<and> t_expires_at g \<le> t_created_at g + seconds 30 \<and> t_expires_at g \<le> t_session_deadline g \<and>
     ticket_spent_ok g"

definition tickets_unique :: "GatewayTicketRow list \<Rightarrow> bool" where
  "tickets_unique t \<longleftrightarrow>
     unique_by t_token_digest t \<and> unique_by t_connection_id t \<and>
     unique_by t_tunnel_id (filter (\<lambda>g. t_tunnel_id g \<noteq> None) t)"

definition ticket_authority ::
  "GatewayTicketRow \<Rightarrow> string \<times> string \<times> string \<times> 32 word \<times> int \<times> string \<times> int \<times> time \<times> time \<times> time" where
  "ticket_authority g =
     (t_token_digest g, t_connection_id g, t_gateway_id g, t_target_host g, t_target_port g,
      t_certificate_sha256 g, t_policy_revision g, t_created_at g, t_expires_at g, t_session_deadline g)"

definition protect_gateway_ticket :: "GatewayTicketRow \<Rightarrow> GatewayTicketRow \<Rightarrow> bool" where
  "protect_gateway_ticket old new \<longleftrightarrow>
     ticket_authority new = ticket_authority old \<and>
     (t_consumed_at old \<noteq> None \<longrightarrow> (t_tunnel_id new, t_consumed_at new) = (t_tunnel_id old, t_consumed_at old)) \<and>
     (t_closed_at old \<noteq> None \<longrightarrow> (t_closed_at new, t_lease_until new) = (t_closed_at old, t_lease_until old))"

text \<open>\<open>INSERT\<close> and \<open>UPDATE ... RETURNING\<close>: the trigger, the constraints, the indexes.\<close>

definition insert_ticket :: "GatewayTicketRow \<Rightarrow> db \<Rightarrow> err + db" where
  "insert_ticket g d =
     bindE (guardE (SqlErr CheckViolation) (ticket_check g)) (\<lambda>_.
     bindE (guardE (SqlErr UniqueViolation) (tickets_unique (gateway_session_tickets d @ [g]))) (\<lambda>_.
       Inr (d\<lparr>gateway_session_tickets := gateway_session_tickets d @ [g]\<rparr>)))"

definition update_tickets ::
  "(GatewayTicketRow \<Rightarrow> bool) \<Rightarrow> (GatewayTicketRow \<Rightarrow> GatewayTicketRow) \<Rightarrow> db \<Rightarrow> err + (GatewayTicketRow list \<times> db)" where
  "update_tickets p f d =
     (let old = filter p (gateway_session_tickets d); t = upd_where p f (gateway_session_tickets d)
      in bindE (guardE (SqlErr CheckViolation) (list_all (\<lambda>g. protect_gateway_ticket g (f g) \<and> ticket_check (f g)) old)) (\<lambda>_.
         bindE (guardE (SqlErr UniqueViolation) (tickets_unique t)) (\<lambda>_.
           Inr (map f old, d\<lparr>gateway_session_tickets := t\<rparr>))))"

section \<open>Operations\<close>

definition gatewayError :: "err \<Rightarrow> err" where
  "gatewayError e = (if e = SqlErr UniqueViolation then ErrConflict else e)"

definition gateway_detail :: "string \<Rightarrow> string \<Rightarrow> audit_value" where
  "gateway_detail gatewayID tunnelID = AObj [(''gateway_id'', AText gatewayID), (''tunnel_id'', AText tunnelID)]"

definition audit_connection :: "time \<Rightarrow> string \<Rightarrow> string \<Rightarrow> string \<Rightarrow> DesktopConnectionSession \<Rightarrow> db \<Rightarrow> db" where
  "audit_connection now gatewayID tunnelID event c d =
     insert_audit now (Some (c_user_id c)) event ''success'' (Some ''desktop_connection'') (Some (c_id c))
       (gateway_detail gatewayID tunnelID) d"

definition auditGatewayTicket :: "time \<Rightarrow> string \<Rightarrow> string \<Rightarrow> string \<Rightarrow> string \<Rightarrow> db \<Rightarrow> db" where
  "auditGatewayTicket now connectionID gatewayID tunnelID event d =
     fold (audit_connection now gatewayID tunnelID event)
       (filter (\<lambda>c. c_id c = connectionID) (desktop_connection_sessions d)) d"

definition ticket_request_ok :: "NativeGatewayTicketRequest \<Rightarrow> bool" where
  "ticket_request_ok r \<longleftrightarrow>
     \<not> (length (gr_NativeDigest r) \<noteq> 32 \<or> \<not> gatewayIDPattern (gr_GatewayID r) \<or>
        \<not> Is4 (gr_Target r) \<or> \<not> IsPrivate (gr_Target r) \<or> length (gr_CertificateSHA256 r) \<noteq> 32 \<or>
        length (gr_ConnectionID r) > 140 \<or> gr_ConnectionID r = [] \<or> gr_PolicyRevision r \<le> 0)"

definition ticket_row :: "time \<Rightarrow> NativeGatewayTicketRequest \<Rightarrow> string \<Rightarrow> int \<Rightarrow> time \<Rightarrow> GatewayTicketRow" where
  "ticket_row stamp r token revision deadline =
     \<lparr>t_token_digest = TokenDigest token, t_connection_id = gr_ConnectionID r, t_gateway_id = gr_GatewayID r,
      t_target_host = addr4 (gr_Target r), t_target_port = 3389, t_certificate_sha256 = gr_CertificateSHA256 r,
      t_policy_revision = revision, t_created_at = stamp, t_expires_at = min deadline (stamp + seconds 30),
      t_session_deadline = deadline, t_tunnel_id = None, t_consumed_at = None, t_lease_until = None, t_closed_at = None\<rparr>"

definition request_access :: "time \<Rightarrow> NativeGatewayTicketRequest \<Rightarrow> db \<Rightarrow> (int \<times> time) option" where
  "request_access stamp r d =
     (case find (\<lambda>c. c_id c = gr_ConnectionID r) (desktop_connection_sessions d) of
        None \<Rightarrow> None
      | Some c \<Rightarrow>
          (case gatewayAccess stamp d c of
             None \<Rightarrow> None
           | Some (revision, deadline) \<Rightarrow>
               if c_native_session_digest c = Some (gr_NativeDigest r) \<and> revision = gr_PolicyRevision r
               then Some (revision, deadline) else None))"

definition createNativeGatewayTicket ::
  "(nat \<Rightarrow> string option) \<Rightarrow> time \<Rightarrow> time \<Rightarrow> NativeGatewayTicketRequest \<Rightarrow> db \<Rightarrow> err + (NativeGatewayTicket \<times> db)" where
  "createNativeGatewayTicket entropy now stamp r d =
     (if \<not> ticket_request_ok r then Inl ErrNotFound
      else bindE (OpaqueToken entropy 32) (\<lambda>secret.
        let token = ''gwt_'' @ secret
        in case request_access stamp r d of
             None \<Rightarrow> Inl ErrNotFound
           | Some (revision, deadline) \<Rightarrow>
               let g = ticket_row stamp r token revision deadline
               in bindE (mapErr gatewayError (insert_ticket g d)) (\<lambda>d1.
                    Inr (\<lparr>gt_Token = token, gt_ExpiresAt = t_expires_at g\<rparr>,
                         auditGatewayTicket now (gr_ConnectionID r) (gr_GatewayID r) [] ''gateway.ticket_created'' d1))))"

definition CreateNativeGatewayTicket ::
  "tx_fault \<Rightarrow> (nat \<Rightarrow> string option) \<Rightarrow> time \<Rightarrow> time \<Rightarrow> NativeGatewayTicketRequest \<Rightarrow> db \<Rightarrow> db \<times> (err + NativeGatewayTicket)" where
  "CreateNativeGatewayTicket fault entropy now stamp r d = run_tx fault (createNativeGatewayTicket entropy now stamp r) d"

definition gatewayTokenDigest :: "string \<Rightarrow> err + string" where
  "gatewayTokenDigest token =
     (if \<not> HasPrefix token ''gwt_'' \<or> length token \<noteq> 47 then Inl ErrNotFound
      else case DecodeString url_alphabet True (drop 4 token) of
             None \<Rightarrow> Inl ErrNotFound
           | Some value \<Rightarrow> if length value \<noteq> 32 then Inl ErrNotFound else Inr (TokenDigest token))"

text \<open>\<open>scanGatewayGrant\<close> of the columns \<open>gatewayGrantColumns\<close> of an updated ticket.\<close>

definition grant_of :: "time \<Rightarrow> GatewayTicketRow \<Rightarrow> string \<Rightarrow> time \<Rightarrow> NativeGatewayGrant" where
  "grant_of stamp g tunnel lease =
     \<lparr>gg_ConnectionID = t_connection_id g, gg_GatewayID = t_gateway_id g, gg_TunnelID = tunnel,
      gg_Target = Addr4 (t_target_host g), gg_CertificateSHA256 = t_certificate_sha256 g,
      gg_PolicyRevision = t_policy_revision g, gg_ValidFor = lease - stamp\<rparr>"

definition scanGatewayGrant :: "time \<Rightarrow> GatewayTicketRow \<Rightarrow> err + NativeGatewayGrant" where
  "scanGatewayGrant stamp g =
     (case (t_tunnel_id g, t_lease_until g) of
        (Some tunnel, Some lease) \<Rightarrow>
          let grant = grant_of stamp g tunnel lease
          in if \<not> Is4 (gg_Target grant) \<or> \<not> IsPrivate (gg_Target grant) \<or> length (gg_CertificateSHA256 grant) \<noteq> 32 \<or>
                gg_ValidFor grant \<le> 0 \<or> gg_ValidFor grant > GatewayAuthorizationWindow
             then Inl ErrNotFound else Inr grant
      | _ \<Rightarrow> Inl DriverErr)"

definition lease_end :: "time \<Rightarrow> db \<Rightarrow> GatewayTicketRow \<Rightarrow> time" where
  "lease_end stamp d g =
     (case ticket_access stamp d g of
        None \<Rightarrow> t_session_deadline g
      | Some (_, deadline) \<Rightarrow> min (t_session_deadline g) (min deadline (stamp + seconds 5)))"

definition current_policy :: "time \<Rightarrow> db \<Rightarrow> GatewayTicketRow \<Rightarrow> bool" where
  "current_policy stamp d g =
     (case ticket_access stamp d g of None \<Rightarrow> False | Some (revision, _) \<Rightarrow> t_policy_revision g = revision)"

definition redeemable :: "time \<Rightarrow> string \<Rightarrow> string \<Rightarrow> db \<Rightarrow> GatewayTicketRow \<Rightarrow> bool" where
  "redeemable stamp digest gatewayID d g \<longleftrightarrow>
     t_token_digest g = digest \<and> t_gateway_id g = gatewayID \<and> t_consumed_at g = None \<and>
     t_expires_at g > stamp \<and> t_session_deadline g > stamp \<and> current_policy stamp d g"

definition redeemed :: "time \<Rightarrow> string \<Rightarrow> db \<Rightarrow> GatewayTicketRow \<Rightarrow> GatewayTicketRow" where
  "redeemed stamp tunnelID d g =
     g\<lparr>t_tunnel_id := Some tunnelID, t_consumed_at := Some stamp, t_lease_until := Some (lease_end stamp d g)\<rparr>"

definition redeem_tx ::
  "time \<Rightarrow> time \<Rightarrow> string \<Rightarrow> string \<Rightarrow> string \<Rightarrow> db \<Rightarrow> err + (NativeGatewayGrant \<times> db)" where
  "redeem_tx now stamp gatewayID digest tunnelID d =
     bindE (mapErr gatewayError (bindE (update_tickets (redeemable stamp digest gatewayID d) (redeemed stamp tunnelID d) d)
              (first_row ErrNotFound))) (\<lambda>(g, d1).
     bindE (scanGatewayGrant stamp g) (\<lambda>grant.
       Inr (grant, auditGatewayTicket now (gg_ConnectionID grant) gatewayID (gg_TunnelID grant) ''gateway.tunnel_authorized'' d1)))"

definition RedeemNativeGatewayTicket ::
  "tx_fault \<Rightarrow> (nat \<Rightarrow> string option) \<Rightarrow> time \<Rightarrow> time \<Rightarrow> string \<Rightarrow> string \<Rightarrow> db \<Rightarrow> db \<times> (err + NativeGatewayGrant)" where
  "RedeemNativeGatewayTicket fault entropy now stamp gatewayID token d =
     (case gatewayTokenDigest token of
        Inl _ \<Rightarrow> (d, Inl ErrNotFound)
      | Inr digest \<Rightarrow>
          if \<not> gatewayIDPattern gatewayID then (d, Inl ErrNotFound)
          else case OpaqueToken entropy 24 of
                 Inl e \<Rightarrow> (d, Inl e)
               | Inr random \<Rightarrow> run_tx fault (redeem_tx now stamp gatewayID digest (''tun_'' @ random)) d)"

definition renewable :: "time \<Rightarrow> string \<Rightarrow> string \<Rightarrow> db \<Rightarrow> GatewayTicketRow \<Rightarrow> bool" where
  "renewable stamp tunnelID gatewayID d g \<longleftrightarrow>
     t_tunnel_id g = Some tunnelID \<and> t_gateway_id g = gatewayID \<and> t_closed_at g = None \<and>
     (case t_lease_until g of None \<Rightarrow> False | Some lease \<Rightarrow> lease > stamp) \<and>
     t_session_deadline g > stamp \<and> current_policy stamp d g"

definition renewed :: "time \<Rightarrow> db \<Rightarrow> GatewayTicketRow \<Rightarrow> GatewayTicketRow" where
  "renewed stamp d g = g\<lparr>t_lease_until := Some (lease_end stamp d g)\<rparr>"

definition renew_tx :: "time \<Rightarrow> string \<Rightarrow> string \<Rightarrow> db \<Rightarrow> err + (NativeGatewayGrant \<times> db)" where
  "renew_tx stamp gatewayID tunnelID d =
     bindE (mapErr gatewayError (bindE (update_tickets (renewable stamp tunnelID gatewayID d) (renewed stamp d) d)
              (first_row ErrNotFound))) (\<lambda>(g, d1).
     bindE (scanGatewayGrant stamp g) (\<lambda>grant. Inr (grant, d1)))"

definition RenewNativeGatewayGrant ::
  "tx_fault \<Rightarrow> time \<Rightarrow> string \<Rightarrow> string \<Rightarrow> db \<Rightarrow> db \<times> (err + NativeGatewayGrant)" where
  "RenewNativeGatewayGrant fault stamp gatewayID tunnelID d =
     (if \<not> gatewayIDPattern gatewayID \<or> \<not> tunnelIDPattern tunnelID then (d, Inl ErrNotFound)
      else run_tx fault (renew_tx stamp gatewayID tunnelID) d)"

definition closable :: "string \<Rightarrow> string \<Rightarrow> GatewayTicketRow \<Rightarrow> bool" where
  "closable gatewayID tunnelID g \<longleftrightarrow>
     t_gateway_id g = gatewayID \<and> t_tunnel_id g = Some tunnelID \<and> t_consumed_at g \<noteq> None \<and> t_closed_at g = None"

definition close_tx :: "time \<Rightarrow> time \<Rightarrow> string \<Rightarrow> string \<Rightarrow> db \<Rightarrow> err + (unit \<times> db)" where
  "close_tx now stamp gatewayID tunnelID d =
     bindE (update_tickets (closable gatewayID tunnelID) (\<lambda>g. g\<lparr>t_closed_at := Some stamp\<rparr>) d) (\<lambda>(closed, d1).
       Inr ((), fold (\<lambda>g. auditGatewayTicket now (t_connection_id g) gatewayID tunnelID ''gateway.tunnel_closed'') closed d1))"

definition CloseNativeGatewayGrant ::
  "tx_fault \<Rightarrow> time \<Rightarrow> time \<Rightarrow> string \<Rightarrow> string \<Rightarrow> db \<Rightarrow> db \<times> (err + unit)" where
  "CloseNativeGatewayGrant fault now stamp gatewayID tunnelID d =
     (if \<not> gatewayIDPattern gatewayID \<or> \<not> tunnelIDPattern tunnelID then (d, Inl ErrNotFound)
      else run_tx fault (close_tx now stamp gatewayID tunnelID) d)"

definition CompleteNativeGuestGatewayConnection ::
  "tx_fault \<Rightarrow> (nat \<Rightarrow> string option) \<Rightarrow> time \<Rightarrow> time \<Rightarrow> NativeGuestAccount \<Rightarrow> NativeGatewayTicketRequest \<Rightarrow> db \<Rightarrow>
   db \<times> (err + (DesktopConnectionSession option \<times> NativeGatewayTicket))" where
  "CompleteNativeGuestGatewayConnection fault entropy now stamp a r d =
     (if na_operation a \<noteq> OpIssue \<or> gr_ConnectionID r \<noteq> na_connection_id a then (d, Inl ErrConflict)
      else completeNativeGuestAccountOperation fault now a (\<lambda>_. createNativeGatewayTicket entropy now stamp r) d)"

end
