(* ===== verification/Relay.thy ===== *)
theory Relay
  imports Gateway_Tickets
begin

text \<open>
  The relay of a Gateway (src/internal/gateway/relay.go): its configuration, the opening of a tunnel and the
  loop that renews it while two workers copy bytes.  What the network, the clock and the authority answer is
  an argument of the opening and an event of the loop.  All times are readings of the monotonic clock of the
  Gateway.
\<close>

section \<open>Network prefixes\<close>

text \<open>\<open>netip.Prefix\<close>: the zero value, or an address with the number of its leading bits.\<close>

datatype netip_prefix = NoPrefix | Prefix netip_addr nat

fun prefix_IsValid :: "netip_prefix \<Rightarrow> bool" where
  "prefix_IsValid NoPrefix = False"
| "prefix_IsValid (Prefix _ _) = True"

fun prefix_Addr :: "netip_prefix \<Rightarrow> netip_addr" where
  "prefix_Addr NoPrefix = NoAddr"
| "prefix_Addr (Prefix a _) = a"

fun prefix_Bits :: "netip_prefix \<Rightarrow> int" where
  "prefix_Bits NoPrefix = - 1"
| "prefix_Bits (Prefix _ n) = int n"

definition keep_top :: "nat \<Rightarrow> nat \<Rightarrow> 'a::len word \<Rightarrow> 'a word" where
  "keep_top width n a = push_bit (width - n) (drop_bit (width - n) a)"

fun prefix_Masked :: "netip_prefix \<Rightarrow> netip_prefix" where
  "prefix_Masked (Prefix (Addr4 a) n) = Prefix (Addr4 (keep_top 32 n a)) n"
| "prefix_Masked (Prefix (Addr6 a _) n) = Prefix (Addr6 (keep_top 128 n a) []) n"
| "prefix_Masked _ = NoPrefix"

fun prefix_Contains :: "netip_prefix \<Rightarrow> netip_addr \<Rightarrow> bool" where
  "prefix_Contains (Prefix (Addr4 p) n) (Addr4 a) = (drop_bit (32 - n) (p XOR a) = 0)"
| "prefix_Contains (Prefix (Addr6 p _) n) (Addr6 a zone) = (zone = [] \<and> drop_bit (128 - n) (p XOR a) = 0)"
| "prefix_Contains _ _ = False"

section \<open>Configuration\<close>

text \<open>The errors of the relay; \<open>CtxErr\<close> is the error of a context that was cancelled.\<close>

datatype relay_err = ErrConfiguration | ErrCapacity | ErrAuthorization | ErrLeaseExpired | ErrTransport | ErrClosure | CtxErr

record RelayConfig =
  rc_GatewayID :: string
  rc_AllowedTargets :: "netip_prefix list"
  rc_MaxConnections :: int

record Relay =
  rl_id :: string
  rl_allowed :: "netip_prefix list"
  rl_slots :: nat

abbreviation controlTimeout :: time where
  "controlTimeout \<equiv> seconds 2"

definition private_scopes :: "netip_prefix list" where
  "private_scopes = [Prefix (Addr4 0x0A000000) 8, Prefix (Addr4 0xAC100000) 12, Prefix (Addr4 0xC0A80000) 16]"

definition validTargetPrefixes :: "netip_prefix list \<Rightarrow> bool" where
  "validTargetPrefixes ps \<longleftrightarrow>
     \<not> (length ps = 0 \<or> length ps > 128) \<and>
     list_all (\<lambda>p. list_ex (\<lambda>scope.
       prefix_IsValid p \<and> Is4 (prefix_Addr p) \<and> p = prefix_Masked p \<and>
       prefix_Bits p \<ge> prefix_Bits scope \<and> prefix_Contains scope (prefix_Addr p)) private_scopes) ps"

text \<open>\<open>authority\<close> says that there is one.\<close>

definition New :: "bool \<Rightarrow> RelayConfig \<Rightarrow> relay_err + Relay" where
  "New authority config =
     (if \<not> authority \<or> \<not> gatewayIDPattern (rc_GatewayID config) \<or> \<not> validTargetPrefixes (rc_AllowedTargets config) \<or>
         rc_MaxConnections config < 1 \<or> rc_MaxConnections config > 4096 then Inl ErrConfiguration
      else Inr \<lparr>rl_id = rc_GatewayID config, rl_allowed = rc_AllowedTargets config, rl_slots = nat (rc_MaxConnections config)\<rparr>)"

definition validGrant :: "Relay \<Rightarrow> NativeGatewayGrant \<Rightarrow> bool" where
  "validGrant r grant =
     (if gg_GatewayID grant \<noteq> rl_id r \<or> \<not> tunnelIDPattern (gg_TunnelID grant) \<or> gg_ConnectionID grant = [] \<or>
         length (gg_ConnectionID grant) > 140 \<or> \<not> Is4 (gg_Target grant) \<or> \<not> IsPrivate (gg_Target grant) \<or>
         length (gg_CertificateSHA256 grant) \<noteq> 32 \<or> gg_PolicyRevision grant \<le> 0 \<or>
         gg_ValidFor grant \<le> 0 \<or> gg_ValidFor grant > GatewayAuthorizationWindow then False
      else list_ex (\<lambda>p. prefix_Contains p (gg_Target grant)) (rl_allowed r))"

section \<open>Opening a tunnel\<close>

text \<open>
  What \<open>serve\<close> meets until it copies: whether there is a client, whether the context has ended, how many
  slots are taken, the answer of the redemption (a grant and an error, both present in Go), the dial, the
  deadlines of the sockets, the \<open>ready\<close> callback if there is one, and the clock at each reading.
\<close>

record open_env =
  oe_client :: bool
  oe_used :: nat
  oe_ctx_err :: bool
  oe_started :: time
  oe_redeem :: "NativeGatewayGrant \<times> bool"
  oe_rpc_err :: bool
  oe_now_granted :: time
  oe_dial_err :: bool
  oe_guest :: bool
  oe_dial_ctx_err :: bool
  oe_now_dialed :: time
  oe_client_deadline_err :: bool
  oe_guest_deadline_err :: bool
  oe_ready :: "(bool \<times> time) option"
  oe_now_timers :: time

text \<open>
  The variables of the loop: the first grant, the deadline (which is also the deadline of both sockets and of
  the expiry timer), when the renewal timer fires if it is armed, and when the outstanding renewal was sent.
\<close>

record relay_loop =
  lp_grant :: NativeGatewayGrant
  lp_deadline :: time
  lp_renew_at :: "time option"
  lp_pending :: "time option"

text \<open>\<open>time.Until(deadline) / 2\<close> after a reading of the clock; the division truncates.\<close>

definition half_way :: "time \<Rightarrow> time \<Rightarrow> time" where
  "half_way now deadline = now + (if deadline \<ge> now then (deadline - now) div 2 else - ((now - deadline) div 2))"

definition serve_open :: "Relay \<Rightarrow> open_env \<Rightarrow> relay_err + relay_loop" where
  "serve_open r e =
     (let grant = fst (oe_redeem e); deadline = oe_started e + gg_ValidFor grant in
      if \<not> oe_client e then Inl ErrTransport
      else if oe_used e \<ge> rl_slots r then Inl ErrCapacity
      else if oe_ctx_err e then Inl CtxErr
      else if snd (oe_redeem e) \<or> oe_rpc_err e \<or> \<not> validGrant r grant then Inl ErrAuthorization
      else if \<not> oe_now_granted e < deadline then Inl ErrLeaseExpired
      else if oe_dial_err e \<or> oe_dial_ctx_err e \<or> \<not> oe_guest e then Inl ErrTransport
      else if \<not> oe_now_dialed e < deadline then Inl ErrLeaseExpired
      else if oe_client_deadline_err e \<or> oe_guest_deadline_err e then Inl ErrTransport
      else if (case oe_ready e of None \<Rightarrow> False | Some (failed, now) \<Rightarrow> failed \<or> \<not> now < deadline) then Inl ErrTransport
      else Inr \<lparr>lp_grant = grant, lp_deadline = deadline,
                lp_renew_at = Some (half_way (oe_now_timers e) deadline), lp_pending = None\<rparr>)"

text \<open>A redemption reached the authority, and its grant names a tunnel that has to be closed.\<close>

definition close_due :: "Relay \<Rightarrow> open_env \<Rightarrow> bool" where
  "close_due r e \<longleftrightarrow>
     oe_client e \<and> oe_used e < rl_slots r \<and> \<not> oe_ctx_err e \<and>
     gg_GatewayID (fst (oe_redeem e)) = rl_id r \<and> tunnelIDPattern (gg_TunnelID (fst (oe_redeem e)))"

section \<open>The loop\<close>

text \<open>
  \<open>Forward\<close> is a worker moving bytes between the sockets, which their deadline forbids once it has passed;
  the other events are the branches of the \<open>select\<close>.  A reply carries the grant, its error, the clock and
  whether setting a socket deadline failed.
\<close>

datatype loop_event =
    Forward time
  | CtxDone
  | ExpiryFires time
  | CopyDone bool
  | RenewFires time
  | Reply NativeGatewayGrant bool time bool

definition renewal_ok :: "Relay \<Rightarrow> NativeGatewayGrant \<Rightarrow> NativeGatewayGrant \<Rightarrow> bool" where
  "renewal_ok r grant next \<longleftrightarrow>
     \<not> (\<not> validGrant r next \<or> gg_TunnelID next \<noteq> gg_TunnelID grant \<or> gg_ConnectionID next \<noteq> gg_ConnectionID grant \<or>
        gg_Target next \<noteq> gg_Target grant \<or> gg_PolicyRevision next \<noteq> gg_PolicyRevision grant \<or>
        gg_CertificateSHA256 next \<noteq> gg_CertificateSHA256 grant)"

text \<open>No value when the event cannot happen in this state; \<open>Inl\<close> when \<open>serve\<close> returns.\<close>

fun loop_step :: "Relay \<Rightarrow> relay_loop \<Rightarrow> loop_event \<Rightarrow> (relay_err list + relay_loop) option" where
  "loop_step r l (Forward now) = (if now < lp_deadline l then Some (Inr l) else None)"
| "loop_step r l CtxDone = Some (Inl [CtxErr])"
| "loop_step r l (ExpiryFires now) = (if now \<ge> lp_deadline l then Some (Inl [ErrLeaseExpired]) else None)"
| "loop_step r l (CopyDone failed) = Some (Inl (if failed then [ErrTransport] else []))"
| "loop_step r l (RenewFires now) =
     (case lp_renew_at l of
        None \<Rightarrow> None
      | Some due \<Rightarrow> if now < due then None else Some (Inr (l\<lparr>lp_renew_at := None, lp_pending := Some now\<rparr>)))"
| "loop_step r l (Reply next failed now unset) =
     (case lp_pending l of
        None \<Rightarrow> None
      | Some started \<Rightarrow>
          let nextDeadline = started + gg_ValidFor next in
          if failed \<or> \<not> renewal_ok r (lp_grant l) next then Some (Inl [ErrAuthorization])
          else if \<not> now < lp_deadline l \<or> \<not> now < nextDeadline then Some (Inl [ErrLeaseExpired])
          else if unset then Some (Inl [ErrTransport])
          else Some (Inr (l\<lparr>lp_deadline := nextDeadline, lp_renew_at := Some (half_way now nextDeadline), lp_pending := None\<rparr>)))"

fun loop_run :: "Relay \<Rightarrow> relay_loop \<Rightarrow> loop_event list \<Rightarrow> (relay_err list + relay_loop) option" where
  "loop_run r l [] = Some (Inr l)"
| "loop_run r l (ev # evs) =
     (case loop_step r l ev of
        None \<Rightarrow> None
      | Some (Inl errs) \<Rightarrow> if evs = [] then Some (Inl errs) else None
      | Some (Inr l') \<Rightarrow> loop_run r l' evs)"

text \<open>
  The whole of \<open>serve\<close>: the errors it returns, joined with \<open>ErrClosure\<close> when the closing call that it owes
  the authority fails, or the loop it is still in.
\<close>

definition serve_result :: "Relay \<Rightarrow> open_env \<Rightarrow> bool \<Rightarrow> relay_err list \<Rightarrow> relay_err list" where
  "serve_result r e closed errs = errs @ (if close_due r e \<and> \<not> closed then [ErrClosure] else [])"

definition serve :: "Relay \<Rightarrow> open_env \<Rightarrow> loop_event list \<Rightarrow> bool \<Rightarrow> (relay_err list + relay_loop) option" where
  "serve r e evs closed =
     (case serve_open r e of
        Inl err \<Rightarrow> if evs = [] then Some (Inl (serve_result r e closed [err])) else None
      | Inr l \<Rightarrow>
          (case loop_run r l evs of
             None \<Rightarrow> None
           | Some (Inl errs) \<Rightarrow> Some (Inl (serve_result r e closed errs))
           | Some (Inr l') \<Rightarrow> Some (Inr l')))"

end
