(* ===== verification/Row_History.thy ===== *)
theory Row_History
  imports Prelude
begin

text \<open>
  Tables whose rows only move forward: a later table continues an earlier one when each old row has made
  a \<open>step\<close> and new rows stand behind.  What a client needs of \<open>step\<close> is that it is a preorder.
\<close>

definition rows_advance :: "('r \<Rightarrow> 'r \<Rightarrow> bool) \<Rightarrow> 'r list \<Rightarrow> 'r list \<Rightarrow> bool" where
  "rows_advance step t t' \<longleftrightarrow> list_all2 step t (take (length t) t')"

lemma rows_advance_length: "rows_advance step t t' \<Longrightarrow> length t \<le> length t'"
  by (auto simp: rows_advance_def dest!: list_all2_lengthD)

lemma rows_advance_member:
  assumes "rows_advance step t t'" "r \<in> set t"
  shows "\<exists>r'\<in>set t'. step r r'"
proof -
  obtain i where i: "i < length t" "t ! i = r" using assms(2) by (auto simp: in_set_conv_nth)
  have le: "length t \<le> length t'" by (rule rows_advance_length [OF assms(1)])
  have "step (t ! i) (take (length t) t' ! i)" using assms(1) i by (auto simp: rows_advance_def list_all2_conv_all_nth)
  with i le show ?thesis by (intro bexI [of _ "t' ! i"]) auto
qed

locale row_history =
  fixes step :: "'r \<Rightarrow> 'r \<Rightarrow> bool"
  assumes step_refl: "step r r"
    and step_trans: "step a b \<Longrightarrow> step b c \<Longrightarrow> step a c"
begin

lemma advance_refl: "rows_advance step t t"
  by (simp add: rows_advance_def list.rel_refl step_refl)

lemma advance_append: "rows_advance step t (t @ new)"
  by (simp add: rows_advance_def list.rel_refl step_refl)

lemma advance_upd_where:
  "(\<And>r. r \<in> set t \<Longrightarrow> p r \<Longrightarrow> step r (f r)) \<Longrightarrow> rows_advance step t (upd_where p f t)"
  by (auto simp: rows_advance_def upd_where_def list_all2_conv_all_nth step_refl)

lemma advance_trans:
  assumes "rows_advance step a b" "rows_advance step b c"
  shows "rows_advance step a c"
proof -
  have le: "length a \<le> length b" by (rule rows_advance_length [OF assms(1)])
  have "list_all2 step (take (length a) b) (take (length a) (take (length b) c))"
    using assms(2) unfolding rows_advance_def by (blast intro: list_all2_takeI)
  then have "list_all2 step (take (length a) b) (take (length a) c)" using le by (simp add: min_absorb1)
  note bc = this
  have ab: "list_all2 step a (take (length a) b)" using assms(1) by (simp add: rows_advance_def)
  show ?thesis unfolding rows_advance_def by (rule list_all2_trans [OF step_trans ab bc])
qed

text \<open>A step system none of whose steps takes a row back never takes one back.\<close>

lemma advance_steps:
  assumes "sys\<^sup>*\<^sup>* d d'" "\<And>d d'. sys d d' \<Longrightarrow> ok d \<Longrightarrow> ok d' \<and> rows_advance step (tab d) (tab d')" "ok d"
  shows "ok d' \<and> rows_advance step (tab d) (tab d')"
  using assms(1)
proof induction
  case base
  then show ?case using assms(3) by (simp add: advance_refl)
next
  case (step y z)
  then show ?case using assms(2) advance_trans by blast
qed

end

end
