(* ===== verification/Gateway_Laws.thy ===== *)
theory Gateway_Laws
  imports Gateway_Tickets Row_History
begin

text \<open>
  What holds of Gateway tickets: the table's invariant, the history of a ticket, single use, the window of
  a grant, the end of a closed tunnel and the shape of the accepted tokens.
\<close>

section \<open>The history of a ticket\<close>

interpretation gt: row_history protect_gateway_ticket
  by unfold_locales (auto simp: protect_gateway_ticket_def)

definition tickets_inv :: "db \<Rightarrow> bool" where
  "tickets_inv d \<longleftrightarrow> list_all ticket_check (gateway_session_tickets d) \<and> tickets_unique (gateway_session_tickets d)"

abbreviation tickets_advance :: "db \<Rightarrow> db \<Rightarrow> bool" where
  "tickets_advance d d' \<equiv> rows_advance protect_gateway_ticket (gateway_session_tickets d) (gateway_session_tickets d')"

lemma audit_ticket_frame: "\<exists>a. auditGatewayTicket now cid gw tun event d = d\<lparr>audit_events := a\<rparr>"
proof -
  have "\<exists>a. fold (audit_connection now gw tun event) cs d = d\<lparr>audit_events := a\<rparr>" for cs
  proof (induction cs arbitrary: d)
    case Nil
    show ?case by (rule exI [of _ "audit_events d"]) simp
  next
    case (Cons c cs)
    show ?case using Cons [of "audit_connection now gw tun event c d"] by (auto simp: audit_connection_def insert_audit_def)
  qed
  then show ?thesis by (simp add: auditGatewayTicket_def)
qed

lemma audit_ticket_rows [simp]:
  "gateway_session_tickets (auditGatewayTicket now cid gw tun event d) = gateway_session_tickets d"
  "desktop_connection_sessions (auditGatewayTicket now cid gw tun event d) = desktop_connection_sessions d"
  "native_guest_accounts (auditGatewayTicket now cid gw tun event d) = native_guest_accounts d"
  using audit_ticket_frame [of now cid gw tun event d] by auto

lemma fold_audit_rows [simp]:
  "gateway_session_tickets (fold (\<lambda>g. auditGatewayTicket now (k g) gw tun event) gs d) = gateway_session_tickets d"
  by (induction gs arbitrary: d) simp_all

lemma update_tickets_Inr:
  "update_tickets p f d = Inr (rs, d') \<longleftrightarrow>
     (\<forall>g\<in>set (gateway_session_tickets d). p g \<longrightarrow> protect_gateway_ticket g (f g) \<and> ticket_check (f g)) \<and>
     tickets_unique (upd_where p f (gateway_session_tickets d)) \<and>
     rs = map f (filter p (gateway_session_tickets d)) \<and>
     d' = d\<lparr>gateway_session_tickets := upd_where p f (gateway_session_tickets d)\<rparr>"
  by (auto simp: update_tickets_def Let_def bindE_eq_Inr guardE_eq_Inr list_all_iff)

lemma update_tickets_kept:
  assumes "update_tickets p f d = Inr (rs, d')" "tickets_inv d"
  shows "tickets_inv d' \<and> tickets_advance d d'"
proof -
  note u = assms(1) [unfolded update_tickets_Inr]
  have "tickets_inv d'"
    using u assms(2) by (auto simp: tickets_inv_def list_all_iff set_upd_where)
  moreover have "tickets_advance d d'" using u by (auto intro!: gt.advance_upd_where)
  ultimately show ?thesis by simp
qed

lemma create_ticket_Inr:
  assumes "createNativeGatewayTicket entropy now stamp r d = Inr (t, d')"
  obtains secret revision deadline where "entropy 32 = Some secret" "ticket_request_ok r"
    "gt_Token t = ''gwt_'' @ EncodeToString url_alphabet secret"
    "request_access stamp r d = Some (revision, deadline)"
    "gt_ExpiresAt t = min deadline (stamp + seconds 30)"
    "ticket_check (ticket_row stamp r (gt_Token t) revision deadline)"
    "gateway_session_tickets d' = gateway_session_tickets d @ [ticket_row stamp r (gt_Token t) revision deadline]"
    "tickets_unique (gateway_session_tickets d')"
    "desktop_connection_sessions d' = desktop_connection_sessions d" "native_guest_accounts d' = native_guest_accounts d"
  using assms that
  by (auto simp: createNativeGatewayTicket_def OpaqueToken_def insert_ticket_def Let_def bindE_eq_Inr mapErr_eq_Inr guardE_eq_Inr ticket_row_def
      split: if_splits option.splits)

lemma create_ticket_kept:
  assumes "createNativeGatewayTicket entropy now stamp r d = Inr (t, d')" "tickets_inv d"
  shows "tickets_inv d' \<and> tickets_advance d d'"
  by (rule create_ticket_Inr [OF assms(1)]) (use assms(2) in \<open>auto simp: tickets_inv_def gt.advance_append\<close>)

lemma update_first_Inr:
  assumes "mapErr h (bindE (update_tickets p f d) (first_row e)) = Inr (r, d')"
  obtains g where "update_tickets p f d = Inr (map f (filter p (gateway_session_tickets d)), d')"
    "g \<in> set (gateway_session_tickets d)" "p g" "r = f g"
proof -
  obtain rs d1 where u: "update_tickets p f d = Inr (rs, d1)" "first_row e (rs, d1) = Inr (r, d')"
    using assms by (auto simp: mapErr_eq_Inr bindE_eq_Inr)
  have rs: "rs = map f (filter p (gateway_session_tickets d))" using u(1) by (simp add: update_tickets_Inr)
  have "r \<in> set rs" "d1 = d'" using u(2) by (auto simp: first_row_eq_Inr)
  then obtain g where "g \<in> set (gateway_session_tickets d)" "p g" "r = f g" by (auto simp: rs)
  with u(1) \<open>d1 = d'\<close> show thesis unfolding rs by (intro that) simp_all
qed

lemma redeem_tx_Inr:
  assumes "redeem_tx now stamp gw digest tun d = Inr (grant, d')"
  obtains g rs d1 where "update_tickets (redeemable stamp digest gw d) (redeemed stamp tun d) d = Inr (rs, d1)"
    "gateway_session_tickets d' = gateway_session_tickets d1"
    "g \<in> set (gateway_session_tickets d)" "redeemable stamp digest gw d g"
    "scanGatewayGrant stamp (redeemed stamp tun d g) = Inr grant"
proof -
  obtain r d1 where u: "mapErr gatewayError (bindE (update_tickets (redeemable stamp digest gw d) (redeemed stamp tun d) d)
      (first_row ErrNotFound)) = Inr (r, d1)" and s: "scanGatewayGrant stamp r = Inr grant"
    and d': "gateway_session_tickets d' = gateway_session_tickets d1"
    using assms by (auto simp: redeem_tx_def bindE_eq_Inr [where m = "mapErr _ _"] bindE_eq_Inr [where m = "scanGatewayGrant _ _"])
  show thesis by (rule update_first_Inr [OF u], rule that) (use s d' in simp_all)
qed

lemma renew_tx_Inr:
  assumes "renew_tx stamp gw tun d = Inr (grant, d')"
  obtains g rs where "update_tickets (renewable stamp tun gw d) (renewed stamp d) d = Inr (rs, d')"
    "g \<in> set (gateway_session_tickets d)" "renewable stamp tun gw d g"
    "scanGatewayGrant stamp (renewed stamp d g) = Inr grant"
proof -
  obtain r d1 where u: "mapErr gatewayError (bindE (update_tickets (renewable stamp tun gw d) (renewed stamp d) d)
      (first_row ErrNotFound)) = Inr (r, d')" and s: "scanGatewayGrant stamp r = Inr grant"
    using assms by (auto simp: renew_tx_def bindE_eq_Inr [where m = "mapErr _ _"] bindE_eq_Inr [where m = "scanGatewayGrant _ _"])
  show thesis by (rule update_first_Inr [OF u], rule that) (use s in simp_all)
qed

text \<open>What completing a credential does to the tickets is what its last step does.\<close>

lemma complete_native_tickets:
  assumes "complete_native_tx now a finalize d = Inr ((c, x), d')"
  obtains d2 where "gateway_session_tickets d2 = gateway_session_tickets d" "finalize c d2 = Inr (x, d')"
proof -
  obtain digest q d1 d2 where c: "initiating_digest a d = Inr digest" "update_native now [] (complete_ready now a d) (complete_row now) d = Inr (q, d1)"
    "if na_operation a = OpIssue
     then (\<exists>t r. na_expires_at a = Some t \<and> c = Some r \<and> insertDesktopConnectionSession now (issued_connection a t) digest True d1 = Inr (r, d2))
     else c = None \<and> d2 = close_native_connection now a d1"
    "finalize c d2 = Inr (x, d')"
    by (rule complete_native_Inr [OF assms])
  have "gateway_session_tickets d1 = gateway_session_tickets d" by (rule update_native_Inr [OF c(2)]) auto
  moreover have "gateway_session_tickets d2 = gateway_session_tickets d1"
    using c(3)
    by (auto simp: insertDesktopConnectionSession_def bindE_eq_Inr guardE_eq_Inr close_native_connection_def Let_def split: if_splits)
  ultimately show thesis using c(4) by (intro that) simp_all
qed

section \<open>Every step keeps the table\<close>

text \<open>The steps that write the table, and any step of the rest of the store.\<close>

inductive gateway_step :: "db \<Rightarrow> db \<Rightarrow> bool" where
  create: "gateway_step d (fst (CreateNativeGatewayTicket fault entropy now stamp r d))"
| complete: "gateway_step d (fst (CompleteNativeGuestGatewayConnection fault entropy now stamp a r d))"
| redeem: "gateway_step d (fst (RedeemNativeGatewayTicket fault entropy now stamp gw token d))"
| renew: "gateway_step d (fst (RenewNativeGatewayGrant fault stamp gw tun d))"
| close_tunnel: "gateway_step d (fst (CloseNativeGatewayGrant fault now stamp gw tun d))"
| other: "gateway_session_tickets d' = gateway_session_tickets d \<Longrightarrow> gateway_step d d'"

lemma run_tx_tickets:
  assumes "tickets_inv d" "\<And>x d'. body d = Inr (x, d') \<Longrightarrow> tickets_inv d' \<and> tickets_advance d d'"
  shows "tickets_inv (fst (run_tx fault body d)) \<and> tickets_advance d (fst (run_tx fault body d))"
  by (rule run_tx_preserves) (use assms gt.advance_refl in auto)

lemma redeem_kept: "redeem_tx now stamp gw digest tun d = Inr (grant, d') \<Longrightarrow> tickets_inv d \<Longrightarrow> tickets_inv d' \<and> tickets_advance d d'"
  by (erule redeem_tx_Inr) (drule (1) update_tickets_kept, simp add: tickets_inv_def)

lemma renew_kept: "renew_tx stamp gw tun d = Inr (grant, d') \<Longrightarrow> tickets_inv d \<Longrightarrow> tickets_inv d' \<and> tickets_advance d d'"
  by (erule renew_tx_Inr) (erule (1) update_tickets_kept)

lemma close_kept: "close_tx now stamp gw tun d = Inr (x, d') \<Longrightarrow> tickets_inv d \<Longrightarrow> tickets_inv d' \<and> tickets_advance d d'"
  by (auto simp: close_tx_def bindE_eq_Inr tickets_inv_def dest!: update_tickets_kept)

lemma gateway_step_kept:
  assumes "gateway_step d d'" "tickets_inv d"
  shows "tickets_inv d' \<and> tickets_advance d d'"
  using assms
proof cases
  case (create fault entropy now stamp r)
  then show ?thesis using assms(2) create_ticket_kept by (auto simp: CreateNativeGatewayTicket_def intro!: run_tx_tickets)
next
  case (complete fault entropy now stamp a r)
  have "tickets_inv d2 \<and> tickets_advance d d2"
    if "complete_native_tx now a (\<lambda>_. createNativeGatewayTicket entropy now stamp r) d = Inr (x, d2)" for x d2
  proof -
    obtain c t where "complete_native_tx now a (\<lambda>_. createNativeGatewayTicket entropy now stamp r) d = Inr ((c, t), d2)"
      using \<open>_ = Inr (x, d2)\<close> by (cases x) auto
    then obtain d1 where d1: "gateway_session_tickets d1 = gateway_session_tickets d" "createNativeGatewayTicket entropy now stamp r d1 = Inr (t, d2)"
      by (rule complete_native_tickets)
    have "tickets_inv d1" using d1(1) assms(2) by (simp add: tickets_inv_def)
    from create_ticket_kept [OF d1(2) this] show ?thesis by (simp add: d1(1))
  qed
  then show ?thesis
    using complete assms(2)
    by (auto simp: CompleteNativeGuestGatewayConnection_def completeNativeGuestAccountOperation_def gt.advance_refl intro!: run_tx_tickets)
next
  case (redeem fault entropy now stamp gw token)
  then show ?thesis
    using assms(2) redeem_kept by (auto simp: RedeemNativeGatewayTicket_def gt.advance_refl intro!: run_tx_tickets split: sum.splits)
next
  case (renew fault stamp gw tun)
  then show ?thesis using assms(2) renew_kept by (auto simp: RenewNativeGatewayGrant_def gt.advance_refl intro!: run_tx_tickets)
next
  case (close_tunnel fault now stamp gw tun)
  then show ?thesis using assms(2) close_kept by (auto simp: CloseNativeGatewayGrant_def gt.advance_refl intro!: run_tx_tickets)
next
  case other
  then show ?thesis using assms(2) by (simp add: tickets_inv_def gt.advance_refl)
qed

lemma gateway_steps_kept:
  "gateway_step\<^sup>*\<^sup>* d d' \<Longrightarrow> tickets_inv d \<Longrightarrow> tickets_inv d' \<and> tickets_advance d d'"
  by (rule gt.advance_steps [of gateway_step _ _ tickets_inv gateway_session_tickets]) (auto dest: gateway_step_kept)

section \<open>Tickets are redeemed once\<close>

lemma ticket_digest_unique:
  assumes "tickets_inv d" "g \<in> set (gateway_session_tickets d)" "g' \<in> set (gateway_session_tickets d)" "t_token_digest g = t_token_digest g'"
  shows "g = g'"
  by (rule unique_by_same [of t_token_digest]) (use assms in \<open>simp_all add: tickets_inv_def tickets_unique_def\<close>)

lemma ticket_tunnel_unique:
  assumes "tickets_inv d" "g \<in> set (gateway_session_tickets d)" "g' \<in> set (gateway_session_tickets d)"
    "t_tunnel_id g = Some tun" "t_tunnel_id g' = Some tun"
  shows "g = g'"
  by (rule unique_by_same [of t_tunnel_id "filter (\<lambda>g. t_tunnel_id g \<noteq> None) (gateway_session_tickets d)"])
    (use assms in \<open>simp_all add: tickets_inv_def tickets_unique_def\<close>)

lemma update_none:
  assumes "\<And>g. g \<in> set (gateway_session_tickets d) \<Longrightarrow> \<not> p g"
  shows "\<exists>e. mapErr h (bindE (update_tickets p f d) (first_row ErrNotFound)) = Inl e"
proof (cases "update_tickets p f d")
  case (Inr x)
  obtain rs d1 where x: "x = (rs, d1)" by (cases x)
  have "rs = []" using Inr assms by (simp add: x update_tickets_Inr)
  then show ?thesis by (simp add: Inr x first_row_def)
qed simp

lemma run_tx_Inl: "body s = Inl e \<Longrightarrow> \<exists>e'. run_tx fault body s = (s, Inl e')"
  by (simp add: run_tx_def)

lemma redeem_spent:
  assumes "tickets_inv d" "g \<in> set (gateway_session_tickets d)" "t_token_digest g = digest" "t_consumed_at g \<noteq> None"
  shows "\<exists>e. redeem_tx now stamp gw digest tun d = Inl e"
proof -
  have "\<not> redeemable stamp digest gw d q" if "q \<in> set (gateway_session_tickets d)" for q
  proof
    assume q: "redeemable stamp digest gw d q"
    then have "q = g" by (intro ticket_digest_unique [OF assms(1) that assms(2)]) (simp add: redeemable_def assms(3))
    then show False using q assms(4) by (simp add: redeemable_def)
  qed
  then obtain e where "mapErr gatewayError (bindE (update_tickets (redeemable stamp digest gw d) (redeemed stamp tun d) d)
      (first_row ErrNotFound)) = Inl e"
    using update_none [of d "redeemable stamp digest gw d" gatewayError "redeemed stamp tun d"] by meson
  then show ?thesis unfolding redeem_tx_def by simp
qed

lemma Redeem_changed:
  assumes "fst (RedeemNativeGatewayTicket fault entropy now stamp gw token d) \<noteq> d"
  obtains tun grant where "gatewayTokenDigest token = Inr (TokenDigest token)"
    "redeem_tx now stamp gw (TokenDigest token) tun d = Inr (grant, fst (RedeemNativeGatewayTicket fault entropy now stamp gw token d))"
proof -
  obtain digest where dg: "gatewayTokenDigest token = Inr digest"
    using assms by (auto simp: RedeemNativeGatewayTicket_def split: sum.splits)
  then have "digest = TokenDigest token" by (auto simp: gatewayTokenDigest_def split: if_splits option.splits)
  then obtain tun where r: "RedeemNativeGatewayTicket fault entropy now stamp gw token d = run_tx fault (redeem_tx now stamp gw (TokenDigest token) tun) d"
    using assms dg by (auto simp: RedeemNativeGatewayTicket_def split: sum.splits if_splits)
  from assms show thesis
    unfolding r using run_tx_state [of fault "redeem_tx now stamp gw (TokenDigest token) tun" d] that dg \<open>digest = _\<close> r by auto
qed

lemma redeem_tx_spent:
  assumes "redeem_tx now stamp gw digest tun d = Inr (grant, d')"
  obtains g where "g \<in> set (gateway_session_tickets d')" "t_token_digest g = digest" "t_consumed_at g = Some stamp" "t_tunnel_id g = Some tun"
proof -
  obtain g rs d1 where u: "update_tickets (redeemable stamp digest gw d) (redeemed stamp tun d) d = Inr (rs, d1)"
    "gateway_session_tickets d' = gateway_session_tickets d1"
    "g \<in> set (gateway_session_tickets d)" "redeemable stamp digest gw d g"
    by (rule redeem_tx_Inr [OF assms])
  have "redeemed stamp tun d g \<in> set (gateway_session_tickets d')"
    using u by (force simp: update_tickets_Inr set_upd_where)
  then show thesis by (rule that) (use u(4) in \<open>simp_all add: redeemed_def redeemable_def\<close>)
qed

text \<open>
  C24. A ticket is good for one redemption: once a redemption has taken effect, even when its answer was
  lost, no redemption of that token succeeds or changes anything, for any Gateway, at any later time and
  after whatever the store has done in between.
\<close>

theorem gateway_ticket_single_use:
  assumes "tickets_inv d"
    and "fst (RedeemNativeGatewayTicket fault entropy now stamp gw token d) \<noteq> d"
    and "gateway_step\<^sup>*\<^sup>* (fst (RedeemNativeGatewayTicket fault entropy now stamp gw token d)) d2"
  shows "\<exists>e. RedeemNativeGatewayTicket fault2 entropy2 now2 stamp2 gw2 token d2 = (d2, Inl e)"
proof -
  let ?d1 = "fst (RedeemNativeGatewayTicket fault entropy now stamp gw token d)"
  obtain tun grant where t: "gatewayTokenDigest token = Inr (TokenDigest token)"
    "redeem_tx now stamp gw (TokenDigest token) tun d = Inr (grant, ?d1)" by (rule Redeem_changed [OF assms(2)])
  obtain g where g: "g \<in> set (gateway_session_tickets ?d1)" "t_token_digest g = TokenDigest token" "t_consumed_at g = Some stamp"
    by (rule redeem_tx_spent [OF t(2)])
  have "tickets_inv ?d1" using redeem_kept [OF t(2) assms(1)] by simp
  then have d2: "tickets_inv d2" "tickets_advance ?d1 d2" using gateway_steps_kept [OF assms(3)] by simp_all
  obtain g2 where "g2 \<in> set (gateway_session_tickets d2)" "protect_gateway_ticket g g2"
    using rows_advance_member [OF d2(2) g(1)] by blast
  then have "\<exists>e. redeem_tx now2 stamp2 gw2 (TokenDigest token) x d2 = Inl e" for x
    using g by (intro redeem_spent [OF d2(1), of g2]) (auto simp: protect_gateway_ticket_def ticket_authority_def)
  then have "\<exists>e. run_tx fault2 (redeem_tx now2 stamp2 gw2 (TokenDigest token) x) d2 = (d2, Inl e)" for x
    using run_tx_Inl by metis
  then show ?thesis
    by (simp add: RedeemNativeGatewayTicket_def t(1) split: sum.splits)
qed

section \<open>Grants\<close>

lemma gatewayAccess_Some:
  assumes "gatewayAccess stamp d c = Some (revision, deadline)"
  obtains n where "n \<in> set (native_sessions d)" "c_native_session_digest c = Some (ns_token_digest n)" "ns_user_id n = c_user_id c"
    "deadline = min (c_expires_at c) (ns_expires_at n)" "effective_user_desktop_access d (c_user_id c) (c_desktop_vmid c)"
    "c_state c = ConnActive" "\<not> identity_revocation_pending d (c_desktop_vmid c)"
  using assms that
  by (auto simp: gatewayAccess_def split: option.splits if_splits dest!: find_SomeD)

lemma ticket_access_Some:
  assumes "ticket_access stamp d g = Some a"
  obtains c where "c \<in> set (desktop_connection_sessions d)" "c_id c = t_connection_id g" "gatewayAccess stamp d c = Some a"
  using assms that by (auto simp: ticket_access_def bind_eq_Some_conv dest!: find_SomeD)

text \<open>The connection of a ticket is authorized now, and the end of its lease respects every deadline.\<close>

definition grant_backed :: "time \<Rightarrow> db \<Rightarrow> NativeGatewayGrant \<Rightarrow> bool" where
  "grant_backed stamp d grant \<longleftrightarrow>
     (\<exists>c\<in>set (desktop_connection_sessions d). \<exists>n\<in>set (native_sessions d).
        c_id c = gg_ConnectionID grant \<and> c_state c = ConnActive \<and>
        c_native_session_digest c = Some (ns_token_digest n) \<and> ns_user_id n = c_user_id c \<and>
        effective_user_desktop_access d (c_user_id c) (c_desktop_vmid c) \<and>
        \<not> identity_revocation_pending d (c_desktop_vmid c) \<and>
        stamp + gg_ValidFor grant \<le> c_expires_at c \<and> stamp + gg_ValidFor grant \<le> ns_expires_at n)"

lemma scan_grant_Inr:
  assumes "scanGatewayGrant stamp g = Inr grant"
  shows "\<exists>tunnel lease. t_tunnel_id g = Some tunnel \<and> t_lease_until g = Some lease \<and> grant = grant_of stamp g tunnel lease \<and>
    0 < gg_ValidFor grant \<and> gg_ValidFor grant \<le> GatewayAuthorizationWindow \<and> IsPrivate (gg_Target grant)"
  using assms by (auto simp: scanGatewayGrant_def Let_def split: option.splits if_splits)

lemma granted_backed:
  assumes "current_policy stamp d g" "scanGatewayGrant stamp g' = Inr grant" "t_lease_until g' = Some (lease_end stamp d g)"
    "t_connection_id g' = t_connection_id g"
  shows "grant_backed stamp d grant \<and> 0 < gg_ValidFor grant \<and> gg_ValidFor grant \<le> GatewayAuthorizationWindow \<and> IsPrivate (gg_Target grant)"
proof -
  obtain revision deadline where a: "ticket_access stamp d g = Some (revision, deadline)"
    using assms(1) by (auto simp: current_policy_def split: option.splits)
  obtain c where c: "c \<in> set (desktop_connection_sessions d)" "c_id c = t_connection_id g" "gatewayAccess stamp d c = Some (revision, deadline)"
    by (rule ticket_access_Some [OF a])
  obtain n where n: "n \<in> set (native_sessions d)" "c_native_session_digest c = Some (ns_token_digest n)" "ns_user_id n = c_user_id c"
    "deadline = min (c_expires_at c) (ns_expires_at n)" "effective_user_desktop_access d (c_user_id c) (c_desktop_vmid c)"
    "c_state c = ConnActive" "\<not> identity_revocation_pending d (c_desktop_vmid c)" by (rule gatewayAccess_Some [OF c(3)])
  have "lease_end stamp d g \<le> deadline" by (simp add: lease_end_def a)
  moreover obtain tunnel where "grant = grant_of stamp g' tunnel (lease_end stamp d g)"
    using scan_grant_Inr [OF assms(2)] assms(3) by auto
  ultimately have "gg_ConnectionID grant = c_id c" "stamp + gg_ValidFor grant \<le> c_expires_at c" "stamp + gg_ValidFor grant \<le> ns_expires_at n"
    using c(2) n(4) assms(4) by (auto simp: grant_of_def)
  then have "grant_backed stamp d grant" unfolding grant_backed_def using c(1) n by metis
  then show ?thesis using scan_grant_Inr [OF assms(2)] by blast
qed

lemma redeem_backed:
  assumes "RedeemNativeGatewayTicket fault entropy now stamp gw token d = (d', Inr grant)"
  shows "grant_backed stamp d grant \<and> 0 < gg_ValidFor grant \<and> gg_ValidFor grant \<le> GatewayAuthorizationWindow \<and> IsPrivate (gg_Target grant)"
proof -
  obtain digest x where "redeem_tx now stamp gw digest x d = Inr (grant, d')"
    using assms by (auto simp: RedeemNativeGatewayTicket_def run_tx_eq_Inr split: sum.splits if_splits)
  then obtain g rs d1 where "redeemable stamp digest gw d g" "scanGatewayGrant stamp (redeemed stamp x d g) = Inr grant"
    by (rule redeem_tx_Inr)
  then show ?thesis by (intro granted_backed [of stamp d g "redeemed stamp x d g"]) (auto simp: redeemable_def redeemed_def)
qed

lemma renew_backed:
  assumes "RenewNativeGatewayGrant fault stamp gw tun d = (d', Inr grant)"
  shows "grant_backed stamp d grant \<and> 0 < gg_ValidFor grant \<and> gg_ValidFor grant \<le> GatewayAuthorizationWindow \<and> IsPrivate (gg_Target grant)"
proof -
  have "renew_tx stamp gw tun d = Inr (grant, d')"
    using assms by (auto simp: RenewNativeGatewayGrant_def run_tx_eq_Inr split: if_splits)
  then obtain g rs where "renewable stamp tun gw d g" "scanGatewayGrant stamp (renewed stamp d g) = Inr grant"
    by (rule renew_tx_Inr)
  then show ?thesis by (intro granted_backed [of stamp d g "renewed stamp d g"]) (auto simp: renewable_def renewed_def)
qed

text \<open>
  C25. A Gateway gets authority for at most five seconds at a time, by redemption or by renewal, and only
  while it is backed: the connection is active, its user has effective access to the desktop and no Guest
  revocation waits there, and the authority ends no later than the connection and the Native session that
  opened it.
\<close>

theorem gateway_grant_window:
  assumes "RedeemNativeGatewayTicket fault entropy now stamp gw token d = (d', Inr grant) \<or>
    RenewNativeGatewayGrant fault stamp gw tun d = (d', Inr grant)"
  shows "grant_backed stamp d grant \<and> 0 < gg_ValidFor grant \<and> gg_ValidFor grant \<le> GatewayAuthorizationWindow \<and>
    IsPrivate (gg_Target grant)"
  using assms redeem_backed renew_backed by blast

section \<open>Closed tunnels\<close>

lemma close_tx_closed:
  assumes "close_tx now stamp gw tun d = Inr (x, d')" "tickets_inv d" "g \<in> set (gateway_session_tickets d)"
    "t_tunnel_id g = Some tun" "t_gateway_id g = gw"
  obtains g' where "g' \<in> set (gateway_session_tickets d')" "t_tunnel_id g' = Some tun" "t_consumed_at g' \<noteq> None" "t_closed_at g' \<noteq> None"
proof -
  let ?f = "\<lambda>g. g\<lparr>t_closed_at := Some stamp\<rparr>"
  have rows: "gateway_session_tickets d' = upd_where (closable gw tun) ?f (gateway_session_tickets d)"
    using assms(1) by (auto simp: close_tx_def bindE_eq_Inr update_tickets_Inr)
  have "ticket_check g" using assms(2,3) by (simp add: tickets_inv_def list_all_iff)
  then have c: "t_consumed_at g \<noteq> None" using assms(4) by (auto simp: ticket_check_def ticket_spent_ok_def split: option.splits)
  have "(if closable gw tun g then ?f g else g) \<in> set (gateway_session_tickets d')"
    unfolding rows set_upd_where using assms(3) by blast
  then show thesis by (rule that) (use c assms(4,5) in \<open>auto simp: closable_def\<close>)
qed

lemma renew_closed:
  assumes "tickets_inv d" "g \<in> set (gateway_session_tickets d)" "t_tunnel_id g = Some tun" "t_closed_at g \<noteq> None"
  shows "\<exists>e. renew_tx stamp gw tun d = Inl e"
proof -
  have "\<not> renewable stamp tun gw d q" if "q \<in> set (gateway_session_tickets d)" for q
  proof
    assume q: "renewable stamp tun gw d q"
    then have "q = g" by (intro ticket_tunnel_unique [OF assms(1) that assms(2)]) (simp_all add: renewable_def assms(3))
    then show False using q assms(4) by (simp add: renewable_def)
  qed
  then obtain e where "mapErr gatewayError (bindE (update_tickets (renewable stamp tun gw d) (renewed stamp d) d)
      (first_row ErrNotFound)) = Inl e"
    using update_none [of d "renewable stamp tun gw d" gatewayError "renewed stamp d"] by meson
  then show ?thesis unfolding renew_tx_def by simp
qed

text \<open>
  C26. A closed tunnel stays closed: after CloseNativeGatewayGrant of a tunnel of the Gateway has answered,
  no renewal of that tunnel succeeds or changes anything, at any later time and after whatever the store
  has done in between.
\<close>

theorem closed_tunnel_not_renewed:
  assumes "tickets_inv d" "g \<in> set (gateway_session_tickets d)" "t_tunnel_id g = Some tun" "t_gateway_id g = gw"
    and "CloseNativeGatewayGrant fault now stamp gw tun d = (d1, Inr ())"
    and "gateway_step\<^sup>*\<^sup>* d1 d2"
  shows "\<exists>e. RenewNativeGatewayGrant fault2 stamp2 gw2 tun d2 = (d2, Inl e)"
proof -
  have tx: "close_tx now stamp gw tun d = Inr ((), d1)"
    using assms(5) by (auto simp: CloseNativeGatewayGrant_def run_tx_eq_Inr split: if_splits)
  obtain g1 where g1: "g1 \<in> set (gateway_session_tickets d1)" "t_tunnel_id g1 = Some tun" "t_consumed_at g1 \<noteq> None" "t_closed_at g1 \<noteq> None"
    by (rule close_tx_closed [OF tx assms(1-4)])
  have "tickets_inv d1" using close_kept [OF tx assms(1)] by simp
  then have d2: "tickets_inv d2" "tickets_advance d1 d2" using gateway_steps_kept [OF assms(6)] by simp_all
  obtain g2 where "g2 \<in> set (gateway_session_tickets d2)" "protect_gateway_ticket g1 g2"
    using rows_advance_member [OF d2(2) g1(1)] by blast
  then have "\<exists>e. renew_tx stamp2 gw2 tun d2 = Inl e"
    using g1 by (intro renew_closed [OF d2(1), of g2]) (auto simp: protect_gateway_ticket_def)
  then have "\<exists>e. run_tx fault2 (renew_tx stamp2 gw2 tun) d2 = (d2, Inl e)" using run_tx_Inl by metis
  then show ?thesis by (simp add: RenewNativeGatewayGrant_def)
qed

section \<open>The whole history\<close>

text \<open>
  Over any run of the store the table of tickets stays well formed (single tickets per connection, token
  and tunnel, private targets on the RDP port, thirty seconds to redeem, leases within the session) and no
  ticket changes its authority, is consumed a second time or is revived after it was closed.
\<close>

theorem gateway_history:
  assumes "tickets_inv d" "gateway_step\<^sup>*\<^sup>* d d'"
  shows "tickets_inv d' \<and>
    (\<forall>g\<in>set (gateway_session_tickets d). \<exists>g'\<in>set (gateway_session_tickets d').
       ticket_authority g' = ticket_authority g \<and>
       (t_consumed_at g \<noteq> None \<longrightarrow> t_consumed_at g' = t_consumed_at g \<and> t_tunnel_id g' = t_tunnel_id g) \<and>
       (t_closed_at g \<noteq> None \<longrightarrow> t_closed_at g' = t_closed_at g \<and> t_lease_until g' = t_lease_until g))"
proof -
  have k: "tickets_inv d'" "tickets_advance d d'" using gateway_steps_kept [OF assms(2,1)] by simp_all
  then show ?thesis using rows_advance_member [OF k(2)] by (fastforce simp: protect_gateway_ticket_def)
qed

section \<open>Tokens\<close>

lemma length_token: "length secret = 32 \<Longrightarrow> length (''gwt_'' @ EncodeToString url_alphabet secret) = 47"
  by (simp add: length_EncodeToString)

lemma gatewayTokenDigest_minted:
  assumes "length secret = 32"
  shows "gatewayTokenDigest (''gwt_'' @ EncodeToString url_alphabet secret) = Inr (TokenDigest (''gwt_'' @ EncodeToString url_alphabet secret))"
proof -
  let ?t = "''gwt_'' @ EncodeToString url_alphabet secret"
  have "length ?t = 47" by (rule length_token [OF assms])
  moreover have "HasPrefix ?t ''gwt_''" "drop 4 ?t = EncodeToString url_alphabet secret" by (simp_all add: HasPrefix_def)
  ultimately show ?thesis by (simp add: gatewayTokenDigest_def url_alphabet_ok assms)
qed

text \<open>
  The tokens gatewayTokenDigest accepts are exactly those createNativeGatewayTicket can mint: the prefix
  and the canonical unpadded URL encoding of 32 bytes.
\<close>

theorem gatewayTokenDigest_iff:
  "gatewayTokenDigest token = Inr digest \<longleftrightarrow>
     digest = TokenDigest token \<and> (\<exists>secret. length secret = 32 \<and> token = ''gwt_'' @ EncodeToString url_alphabet secret)"
proof
  assume t: "gatewayTokenDigest token = Inr digest"
  then obtain secret where s: "HasPrefix token ''gwt_''" "length token = 47" "digest = TokenDigest token" "length secret = 32"
    "DecodeString url_alphabet True (drop 4 token) = Some secret"
    by (auto simp: gatewayTokenDigest_def split: if_splits option.splits)
  let ?f = "filter (\<lambda>c. c \<noteq> CHR 10 \<and> c \<noteq> CHR 13) (drop 4 token)"
  have f: "?f = EncodeToString url_alphabet secret" by (rule DecodeString_strict [OF url_alphabet_ok s(5)])
  then have "length ?f = length (drop 4 token)" using s(2,4) by (simp add: length_EncodeToString)
  then have "?f = drop 4 token" by (metis filter_id_conv length_filter_less less_irrefl)
  moreover obtain r where "token = ''gwt_'' @ r" using HasPrefixD [OF s(1)] by blast
  ultimately show "digest = TokenDigest token \<and> (\<exists>secret. length secret = 32 \<and> token = ''gwt_'' @ EncodeToString url_alphabet secret)"
    using s(3,4) f by auto
next
  assume "digest = TokenDigest token \<and> (\<exists>secret. length secret = 32 \<and> token = ''gwt_'' @ EncodeToString url_alphabet secret)"
  then obtain secret where s: "length secret = 32" "token = ''gwt_'' @ EncodeToString url_alphabet secret" and dg: "digest = TokenDigest token" by blast
  show "gatewayTokenDigest token = Inr digest" unfolding dg s(2) by (rule gatewayTokenDigest_minted [OF s(1)])
qed

section \<open>A connection and its ticket\<close>

lemma request_access_Some:
  assumes "request_access stamp r d = Some (revision, deadline)"
  obtains c where "find (\<lambda>c. c_id c = gr_ConnectionID r) (desktop_connection_sessions d) = Some c"
    "gatewayAccess stamp d c = Some (revision, deadline)" "c_native_session_digest c = Some (gr_NativeDigest r)"
  using assms that by (auto simp: request_access_def split: option.splits if_splits)

text \<open>
  A Gateway connection comes into being at once or not at all, whatever the driver does: either the
  database is as before, or the credential is applied, its connection is open with the Native session the
  ticket names, and the connection has an unspent ticket that ends before the connection does.
\<close>

theorem CompleteNativeGuestGatewayConnection_atomic:
  "fst (CompleteNativeGuestGatewayConnection fault entropy now stamp a r d) = d \<or>
   (\<exists>q c g. q \<in> set (native_guest_accounts (fst (CompleteNativeGuestGatewayConnection fault entropy now stamp a r d))) \<and>
      na_state q = NativeApplied \<and> na_operation q = OpIssue \<and> na_connection_id q = na_connection_id a \<and>
      c \<in> set (desktop_connection_sessions (fst (CompleteNativeGuestGatewayConnection fault entropy now stamp a r d))) \<and>
      c_id c = na_connection_id a \<and> c_user_id c = na_user_id a \<and> c_desktop_vmid c = na_desktop_vmid a \<and> c_state c = ConnActive \<and>
      c_native_session_digest c = Some (gr_NativeDigest r) \<and>
      g \<in> set (gateway_session_tickets (fst (CompleteNativeGuestGatewayConnection fault entropy now stamp a r d))) \<and>
      t_connection_id g = c_id c \<and> t_consumed_at g = None \<and> t_gateway_id g = gr_GatewayID r \<and> t_expires_at g \<le> c_expires_at c)"
    (is "?d' = d \<or> _")
proof (cases "?d' = d")
  case False
  let ?body = "complete_native_tx now a (\<lambda>_. createNativeGatewayTicket entropy now stamp r)"
  have op: "na_operation a = OpIssue" "gr_ConnectionID r = na_connection_id a" and run: "?d' = fst (run_tx fault ?body d)"
    using False by (auto simp: CompleteNativeGuestGatewayConnection_def completeNativeGuestAccountOperation_def split: if_splits)
  then obtain x where "?body d = Inr (x, ?d')" using run_tx_state [of fault ?body d] False by auto
  then obtain co t where tx: "?body d = Inr ((co, t), ?d')" by (cases x) auto
  obtain digest q d1 d2 where k: "update_native now [] (complete_ready now a d) (complete_row now) d = Inr (q, d1)"
    "if na_operation a = OpIssue
     then (\<exists>t r. na_expires_at a = Some t \<and> co = Some r \<and> insertDesktopConnectionSession now (issued_connection a t) digest True d1 = Inr (r, d2))
     else co = None \<and> d2 = close_native_connection now a d1"
    "createNativeGatewayTicket entropy now stamp r d2 = Inr (t, ?d')"
    by (rule complete_native_Inr [OF tx])
  obtain e c where c: "insertDesktopConnectionSession now (issued_connection a e) digest True d1 = Inr (c, d2)" using k(2) op(1) by auto
  then have c': "desktop_connection_sessions d2 = desktop_connection_sessions d1 @ [c]" "c = new_connection now (issued_connection a e) digest"
    "native_guest_accounts d2 = native_guest_accounts d1" "\<forall>y\<in>set (desktop_connection_sessions d1). c_id y \<noteq> na_connection_id a"
    by (auto simp: insertDesktopConnectionSession_def bindE_eq_Inr guardE_eq_Inr list_ex_iff issued_connection_def)
  have cid: "c_id c = na_connection_id a" "c_user_id c = na_user_id a" "c_desktop_vmid c = na_desktop_vmid a" "c_state c = ConnActive"
    by (simp_all add: c'(2) new_connection_def issued_connection_def)
  have found: "find (\<lambda>c. c_id c = na_connection_id a) (desktop_connection_sessions d2) = Some c"
    unfolding c'(1) using c'(4) cid(1) by (auto simp: find_snoc split: option.splits dest: find_SomeD)
  obtain revision deadline where g: "request_access stamp r d2 = Some (revision, deadline)"
    "gateway_session_tickets ?d' = gateway_session_tickets d2 @ [ticket_row stamp r (gt_Token t) revision deadline]"
    "desktop_connection_sessions ?d' = desktop_connection_sessions d2" "native_guest_accounts ?d' = native_guest_accounts d2"
    by (rule create_ticket_Inr [OF k(3)])
  obtain old where old: "find (complete_ready now a d) (native_guest_accounts d) = Some old" "q = complete_row now old"
      "native_guest_accounts d1 = upd_where (same_account_row old) (complete_row now) (native_guest_accounts d)"
    by (rule update_native_Inr [OF k(1)]) auto
  then have q: "q \<in> set (native_guest_accounts ?d')" "na_state q = NativeApplied" "na_operation q = OpIssue" "na_connection_id q = na_connection_id a"
    using find_SomeD [OF old(1)] op(1) g(4) c'(3)
    by (auto simp: complete_row_def complete_ready_def set_upd_where same_account_row_def intro: rev_image_eqI)
  obtain c2 where "find (\<lambda>c. c_id c = gr_ConnectionID r) (desktop_connection_sessions d2) = Some c2"
    "gatewayAccess stamp d2 c2 = Some (revision, deadline)" "c_native_session_digest c2 = Some (gr_NativeDigest r)"
    by (rule request_access_Some [OF g(1)])
  then have acc: "gatewayAccess stamp d2 c = Some (revision, deadline)" "c_native_session_digest c = Some (gr_NativeDigest r)"
    using found op(2) by simp_all
  have "deadline \<le> c_expires_at c" by (rule gatewayAccess_Some [OF acc(1)]) simp
  then have "ticket_row stamp r (gt_Token t) revision deadline \<in> set (gateway_session_tickets ?d')"
    "t_expires_at (ticket_row stamp r (gt_Token t) revision deadline) \<le> c_expires_at c" "c \<in> set (desktop_connection_sessions ?d')"
    by (auto simp: g(2,3) c'(1) ticket_row_def)
  then show ?thesis using q cid acc(2) op(2)
    by (intro disjI2 exI [of _ q] exI [of _ c] exI [of _ "ticket_row stamp r (gt_Token t) revision deadline"]) (simp add: ticket_row_def)
qed simp

section \<open>Witnesses\<close>

definition ex_open_connection :: DesktopConnectionSession where
  "ex_open_connection = \<lparr>c_id = ex_cid, c_user_id = ''u1'', c_desktop_vmid = 100, c_guest_username = b_guest_username ex_binding,
     c_state = ConnActive, c_expires_at = seconds 90, c_created_at = 0, c_updated_at = 0, c_closed_at = None,
     c_termination_required = False, c_native_session_digest = Some ''n1''\<rparr>"

definition ex_gateway :: string where "ex_gateway = ''gw_gateway01''"
definition ex_token :: string where "ex_token = ''gwt_'' @ EncodeToString url_alphabet (replicate 32 (CHR 0x00))"
definition ex_tunnel :: string where "ex_tunnel = ''tun_AAAAAAAAAAAAAAAAAAAAAAAAAAAAAAAA''"

definition ex_ticket :: GatewayTicketRow where
  "ex_ticket = \<lparr>t_token_digest = TokenDigest ex_token, t_connection_id = ex_cid, t_gateway_id = ex_gateway,
     t_target_host = 0x0A000001, t_target_port = 3389, t_certificate_sha256 = replicate 32 (CHR 0x00), t_policy_revision = 1,
     t_created_at = 0, t_expires_at = seconds 30, t_session_deadline = seconds 90, t_tunnel_id = None, t_consumed_at = None,
     t_lease_until = None, t_closed_at = None\<rparr>"

definition ex_spent :: "time \<Rightarrow> GatewayTicketRow" where
  "ex_spent lease = ex_ticket\<lparr>t_tunnel_id := Some ex_tunnel, t_consumed_at := Some 60, t_lease_until := Some lease\<rparr>"

definition ex_policy :: DesktopAccessPolicy where
  "ex_policy = \<lparr>p_vmid = 100, p_privilege_mode = PrivStandard, p_clipboard_redirection = False, p_drive_redirection = False,
     p_managed_background = False, p_desired_revision = 1, p_applied_revision = 1, p_state = PolicyApplied, p_os_family = OsLinux,
     p_last_error = [], p_updated_by = None, p_created_at = 0, p_updated_at = 0\<rparr>"

definition ex_gateway_db :: "GatewayTicketRow list \<Rightarrow> db" where
  "ex_gateway_db ts = (ex_native_db ex_account [])\<lparr>native_guest_accounts := [], guest_identity_bindings := [ex_binding],
     desktop_connection_sessions := [ex_open_connection], desktop_access_policies := [ex_policy], gateway_session_tickets := ts\<rparr>"

lemma ex_gateway_access:
  assumes "0 \<le> stamp" "stamp < seconds 90"
  shows "gatewayAccess stamp (ex_gateway_db ts) ex_open_connection = Some (1, seconds 90)"
proof -
  have "effective_user_desktop_access (ex_gateway_db ts) ''u1'' 100"
    by (simp add: effective_user_desktop_access_def desktop_grants_def desktop_clone_ready_def ex_gateway_db_def ex_native_db_def ex_user_def
      ex_desktop_def empty_db_def)
  moreover have "gateway_profile_ok (ex_gateway_db ts) ex_open_connection ex_desktop"
    by (simp add: gateway_profile_ok_def profile_or_default_def managed_local_profile_def ex_open_connection_def ex_gateway_db_def ex_native_defs)
  moreover have "\<not> identity_revocation_pending (ex_gateway_db ts) 100" "gateway_native_clear (ex_gateway_db ts) ex_open_connection"
    by (simp_all add: identity_revocation_pending_def gateway_native_clear_def ex_gateway_db_def ex_native_defs)
  moreover have "md_vmid ex_desktop = 100" "md_os_family ex_desktop = OsLinux" by (simp_all add: ex_desktop_def)
  moreover have "managed_desktops (ex_gateway_db ts) = [ex_desktop]" "desktop_access_policies (ex_gateway_db ts) = [ex_policy]"
    "native_sessions (ex_gateway_db ts) = [\<lparr>ns_token_digest = ''n1'', ns_user_id = ''u1'', ns_expires_at = seconds 90, ns_created_at = 0, ns_last_seen_at = 0\<rparr>]"
    by (simp_all add: ex_gateway_db_def ex_native_db_def)
  ultimately show ?thesis using assms
    by (simp add: gatewayAccess_def ex_policy_def) (simp add: ex_open_connection_def)
qed

lemma ex_ticket_access:
  assumes "0 \<le> stamp" "stamp < seconds 90" "t_connection_id g = ex_cid"
  shows "ticket_access stamp (ex_gateway_db ts) g = Some (1, seconds 90)"
proof -
  have "desktop_connection_sessions (ex_gateway_db ts) = [ex_open_connection]" by (simp add: ex_gateway_db_def)
  moreover have "c_id ex_open_connection = ex_cid" by (simp add: ex_open_connection_def)
  ultimately show ?thesis using ex_gateway_access [OF assms(1,2)] by (simp add: ticket_access_def assms(3))
qed

lemma ex_gateway_valid: "gatewayIDPattern ex_gateway" "tunnelIDPattern ex_tunnel" "private4 0x0A000001"
  "EncodeToString url_alphabet (replicate 24 (CHR 0x00)) = ''AAAAAAAAAAAAAAAAAAAAAAAAAAAAAAAA''"
  by code_simp+

lemma ex_ticket_rows: "ticket_check ex_ticket" "60 \<le> lease \<Longrightarrow> lease \<le> seconds 90 \<Longrightarrow> ticket_check (ex_spent lease)"
  "tickets_unique [ex_ticket]" "tickets_unique [ex_spent lease]"
  using ex_gateway_valid(1-3)
  by (simp_all add: ticket_check_def ticket_spent_ok_def tickets_unique_def ex_ticket_def ex_spent_def TokenDigest_def)

lemma ex_tickets_inv: "tickets_inv (ex_gateway_db [ex_ticket])" "60 \<le> lease \<Longrightarrow> lease \<le> seconds 90 \<Longrightarrow> tickets_inv (ex_gateway_db [ex_spent lease])"
  using ex_ticket_rows by (simp_all add: tickets_inv_def ex_gateway_db_def)

lemma ex_update:
  assumes "p g" "protect_gateway_ticket g (f g)" "ticket_check (f g)" "tickets_unique [f g]"
  shows "update_tickets p f (ex_gateway_db [g]) = Inr ([f g], ex_gateway_db [f g])"
  using assms by (simp add: update_tickets_Inr) (simp add: ex_gateway_db_def)

lemma ex_redeem:
  "\<exists>d1 grant. RedeemNativeGatewayTicket NoFault (\<lambda>n. Some (replicate n (CHR 0x00))) 60 60 ex_gateway ex_token (ex_gateway_db [ex_ticket]) = (d1, Inr grant) \<and>
     gateway_session_tickets d1 = [ex_spent 5000060] \<and> gg_ValidFor grant = seconds 5 \<and> gg_TunnelID grant = ex_tunnel \<and>
     grant = grant_of 60 (ex_spent 5000060) ex_tunnel 5000060"
proof -
  let ?d = "ex_gateway_db [ex_ticket]"
  have acc: "ticket_access 60 ?d ex_ticket = Some (1, seconds 90)" by (rule ex_ticket_access) (simp_all add: ex_ticket_def)
  have r: "redeemed 60 ex_tunnel ?d ex_ticket = ex_spent 5000060"
    using acc by (simp add: redeemed_def lease_end_def ex_spent_def) (simp add: ex_ticket_def)
  have "redeemable 60 (TokenDigest ex_token) ex_gateway ?d ex_ticket"
    using acc by (simp add: redeemable_def current_policy_def) (simp add: ex_ticket_def)
  moreover have "protect_gateway_ticket ex_ticket (ex_spent 5000060)"
    by (simp add: protect_gateway_ticket_def ticket_authority_def ex_spent_def) (simp add: ex_ticket_def)
  ultimately have u: "update_tickets (redeemable 60 (TokenDigest ex_token) ex_gateway ?d) (redeemed 60 ex_tunnel ?d) ?d =
      Inr ([ex_spent 5000060], ex_gateway_db [ex_spent 5000060])"
    using ex_ticket_rows(2,4) [of 5000060] ex_update [of _ ex_ticket "redeemed 60 ex_tunnel ?d"] by (simp add: r)
  have "scanGatewayGrant 60 (ex_spent 5000060) = Inr (grant_of 60 (ex_spent 5000060) ex_tunnel 5000060)"
    using ex_gateway_valid(3) by (simp add: scanGatewayGrant_def grant_of_def ex_spent_def ex_ticket_def)
  then have "redeem_tx 60 60 ex_gateway (TokenDigest ex_token) ex_tunnel ?d =
      Inr (grant_of 60 (ex_spent 5000060) ex_tunnel 5000060, auditGatewayTicket 60 ex_cid ex_gateway ex_tunnel ''gateway.tunnel_authorized'' (ex_gateway_db [ex_spent 5000060]))"
    using u by (simp add: redeem_tx_def first_row_def) (simp add: grant_of_def ex_spent_def ex_ticket_def)
  moreover have "gatewayTokenDigest ex_token = Inr (TokenDigest ex_token)" unfolding ex_token_def by (rule gatewayTokenDigest_minted) simp
  moreover have "OpaqueToken (\<lambda>n. Some (replicate n (CHR 0x00))) 24 = Inr ''AAAAAAAAAAAAAAAAAAAAAAAAAAAAAAAA''"
    using ex_gateway_valid(4) by (simp add: OpaqueToken_def)
  moreover have "''tun_'' @ ''AAAAAAAAAAAAAAAAAAAAAAAAAAAAAAAA'' = ex_tunnel" by (simp add: ex_tunnel_def)
  ultimately show ?thesis using ex_gateway_valid(1)
    by (simp add: RedeemNativeGatewayTicket_def) (simp add: grant_of_def ex_gateway_db_def)
qed

theorem gateway_ticket_single_use_witness:
  "\<exists>e. snd (RedeemNativeGatewayTicket NoFault (\<lambda>n. Some (replicate n (CHR 0x00))) 70 70 ex_gateway ex_token
     (fst (RedeemNativeGatewayTicket NoFault (\<lambda>n. Some (replicate n (CHR 0x00))) 60 60 ex_gateway ex_token (ex_gateway_db [ex_ticket])))) = Inl e"
proof -
  let ?r = "RedeemNativeGatewayTicket NoFault (\<lambda>n. Some (replicate n (CHR 0x00))) 60 60 ex_gateway ex_token (ex_gateway_db [ex_ticket])"
  have "gateway_session_tickets (fst ?r) = [ex_spent 5000060]" using ex_redeem by auto
  moreover have "gateway_session_tickets (ex_gateway_db [ex_ticket]) = [ex_ticket]" by (simp add: ex_gateway_db_def)
  moreover have "t_consumed_at (ex_spent 5000060) \<noteq> t_consumed_at ex_ticket" by (simp add: ex_spent_def ex_ticket_def)
  ultimately have "fst ?r \<noteq> ex_gateway_db [ex_ticket]" by force
  from gateway_ticket_single_use [OF ex_tickets_inv(1) this rtranclp.rtrancl_refl] show ?thesis by (metis snd_conv)
qed

theorem gateway_grant_window_witness:
  "\<exists>d1 grant. RedeemNativeGatewayTicket NoFault (\<lambda>n. Some (replicate n (CHR 0x00))) 60 60 ex_gateway ex_token (ex_gateway_db [ex_ticket]) = (d1, Inr grant) \<and>
     grant_backed 60 (ex_gateway_db [ex_ticket]) grant \<and> gg_ValidFor grant = seconds 5"
  using ex_redeem gateway_grant_window by metis

theorem closed_tunnel_not_renewed_witness:
  "\<exists>d1 e. CloseNativeGatewayGrant NoFault 70 70 ex_gateway ex_tunnel (ex_gateway_db [ex_spent 5000060]) = (d1, Inr ()) \<and>
     RenewNativeGatewayGrant NoFault 80 ex_gateway ex_tunnel d1 = (d1, Inl e)"
proof -
  let ?d = "ex_gateway_db [ex_spent 5000060]" and ?f = "\<lambda>g. g\<lparr>t_closed_at := Some (70 :: time)\<rparr>"
  let ?g = "ex_spent 5000060"
  have "closable ex_gateway ex_tunnel ?g" by (simp add: closable_def ex_spent_def ex_ticket_def)
  moreover have "protect_gateway_ticket ?g (?f ?g)" by (simp add: protect_gateway_ticket_def ticket_authority_def ex_spent_def ex_ticket_def)
  moreover have "ticket_check (?f ?g)" using ex_ticket_rows(2) [of 5000060] by (auto simp: ticket_check_def ticket_spent_ok_def ex_spent_def ex_ticket_def)
  moreover have "tickets_unique [?f ?g]" by (simp add: tickets_unique_def ex_spent_def)
  ultimately have "update_tickets (closable ex_gateway ex_tunnel) ?f ?d = Inr ([?f ?g], ex_gateway_db [?f ?g])"
    by (rule ex_update)
  then obtain d1 where d1: "CloseNativeGatewayGrant NoFault 70 70 ex_gateway ex_tunnel ?d = (d1, Inr ())"
    using ex_gateway_valid(1,2) by (simp add: CloseNativeGatewayGrant_def close_tx_def)
  have "?g \<in> set (gateway_session_tickets ?d)" "t_tunnel_id ?g = Some ex_tunnel" "t_gateway_id ?g = ex_gateway" "tickets_inv ?d"
    using ex_tickets_inv(2) [of 5000060] by (simp_all add: ex_gateway_db_def) (simp_all add: ex_spent_def ex_ticket_def)
  from closed_tunnel_not_renewed [OF this(4,1-3) d1 rtranclp.rtrancl_refl] d1 show ?thesis by metis
qed

theorem gateway_history_witness:
  "\<exists>d'. gateway_step\<^sup>*\<^sup>* (ex_gateway_db [ex_ticket]) d' \<and> tickets_inv d' \<and>
     (\<exists>g'\<in>set (gateway_session_tickets d'). t_consumed_at g' = Some 60 \<and> ticket_authority g' = ticket_authority ex_ticket)"
proof -
  let ?d = "ex_gateway_db [ex_ticket]"
  obtain d1 grant where r: "RedeemNativeGatewayTicket NoFault (\<lambda>n. Some (replicate n (CHR 0x00))) 60 60 ex_gateway ex_token ?d = (d1, Inr grant)"
    "gateway_session_tickets d1 = [ex_spent 5000060]" using ex_redeem by auto
  have "gateway_step ?d (fst (RedeemNativeGatewayTicket NoFault (\<lambda>n. Some (replicate n (CHR 0x00))) 60 60 ex_gateway ex_token ?d))"
    by (rule gateway_step.redeem)
  then have st: "gateway_step\<^sup>*\<^sup>* ?d d1" by (simp add: r(1) r_into_rtranclp)
  have "ex_ticket \<in> set (gateway_session_tickets ?d)" by (simp add: ex_gateway_db_def)
  with gateway_history [OF ex_tickets_inv(1) st] r(2) have "tickets_inv d1" "ticket_authority (ex_spent 5000060) = ticket_authority ex_ticket" by auto
  moreover have "t_consumed_at (ex_spent 5000060) = Some 60" by (simp add: ex_spent_def)
  ultimately show ?thesis using st r(2) by (intro exI [of _ d1]) simp
qed

end
