(* ===== verification/Relay_Laws.thy ===== *)
theory Relay_Laws
  imports Relay Gateway_Laws
begin

text \<open>
  The relay against the authority it calls.  The interface \<open>Authority\<close> of relay.go is a locale; the store
  provides it.  A tunnel is followed together with the calls it makes: each call is evaluated by the authority
  at a time of its own clock, which runs \<open>skew\<close> ahead of the clock of the Gateway, not before the Gateway sent
  it.  Between the calls the authority may be in any state.
\<close>

section \<open>Targets\<close>

lemma xor_zero: "(a :: 'a::len word) XOR b = 0 \<longleftrightarrow> a = b"
  by (auto simp: bit_eq_iff bit_xor_iff)

lemma Contains4 [simp]: "prefix_Contains (Prefix (Addr4 p) n) (Addr4 a) \<longleftrightarrow> drop_bit (32 - n) p = drop_bit (32 - n) a"
  by (simp add: drop_bit_xor xor_zero)

declare prefix_Contains.simps(1) [simp del]

lemma drop_bit_more: "drop_bit n (a :: 'a::len word) = drop_bit n b \<Longrightarrow> n \<le> m \<Longrightarrow> drop_bit m a = drop_bit m b"
  using drop_bit_drop_bit [of "m - n" n a] drop_bit_drop_bit [of "m - n" n b] by simp

lemma scope_private:
  assumes "scope \<in> set private_scopes" "prefix_Contains scope (Addr4 a)"
  shows "private4 a"
proof -
  have "(drop_bit 24 (0x0A000000 :: 32 word) :: 32 word) = 10" "(drop_bit 20 (0xAC100000 :: 32 word) :: 32 word) = 0xAC1"
    "(drop_bit 16 (0xC0A80000 :: 32 word) :: 32 word) = 0xC0A8" by simp_all
  then show ?thesis using assms by (auto simp: private_scopes_def private4_def)
qed

lemma allowed_private:
  assumes "validTargetPrefixes ps" "p \<in> set ps" "prefix_Contains p a"
  shows "Is4 a \<and> IsPrivate a"
proof -
  obtain scope where s: "scope \<in> set private_scopes" "Is4 (prefix_Addr p)" "prefix_IsValid p"
      "prefix_Bits p \<ge> prefix_Bits scope" "prefix_Contains scope (prefix_Addr p)"
    using assms(1,2) by (auto simp: validTargetPrefixes_def list_all_iff list_ex_iff)
  then obtain b n where p: "p = Prefix (Addr4 b) n" by (cases p; cases "prefix_Addr p") auto
  obtain q m where q: "scope = Prefix (Addr4 q) m" using s(1) by (auto simp: private_scopes_def)
  obtain c where a: "a = Addr4 c" using assms(3) by (cases a) (simp_all add: p)
  have "drop_bit (32 - m) b = drop_bit (32 - m) c"
  proof (rule drop_bit_more)
    show "drop_bit (32 - n) b = drop_bit (32 - n) c" using assms(3) by (simp add: p a)
    show "32 - n \<le> 32 - m" using s(4) by (simp add: p q)
  qed
  then have "prefix_Contains scope (Addr4 c)" using s(5) by (simp add: p q)
  then show ?thesis using scope_private [OF s(1)] a by simp
qed

lemma validGrantD:
  "validGrant r grant \<Longrightarrow> \<exists>p \<in> set (rl_allowed r). prefix_Contains p (gg_Target grant)"
  "validGrant r grant \<Longrightarrow> 0 < gg_ValidFor grant \<and> gg_ValidFor grant \<le> GatewayAuthorizationWindow"
  by (auto simp: validGrant_def list_ex_iff split: if_splits)

section \<open>The loop\<close>

lemma serve_open_Inr:
  assumes "serve_open r e = Inr l"
  shows "validGrant r (lp_grant l) \<and> oe_redeem e = (lp_grant l, False) \<and> lp_deadline l = oe_started e + gg_ValidFor (lp_grant l)"
  using assms by (cases "oe_redeem e") (auto simp: serve_open_def Let_def split: if_splits)

lemma renewal_okD:
  "renewal_ok r grant next \<Longrightarrow> validGrant r next \<and> gg_ConnectionID next = gg_ConnectionID grant \<and> gg_Target next = gg_Target grant"
  by (simp add: renewal_ok_def)

lemma loop_step_reply:
  assumes "loop_step r l (Reply g failed now unset) = Some (Inr l')" "lp_pending l = Some started"
  shows "\<not> failed \<and> renewal_ok r (lp_grant l) g \<and> lp_grant l' = lp_grant l \<and> lp_deadline l' = started + gg_ValidFor g"
  using assms by (auto simp: Let_def split: if_splits)

lemma loop_step_other:
  assumes "loop_step r l ev = Some (Inr l')" "\<And>g failed now unset. ev \<noteq> Reply g failed now unset"
  shows "lp_grant l' = lp_grant l \<and> lp_deadline l' = lp_deadline l"
  using assms by (cases ev) (auto split: if_splits option.splits)

section \<open>A tunnel and its calls\<close>

definition no_grant :: NativeGatewayGrant where
  "no_grant = \<lparr>gg_ConnectionID = [], gg_GatewayID = [], gg_TunnelID = [], gg_Target = NoAddr, gg_CertificateSHA256 = [],
     gg_PolicyRevision = 0, gg_ValidFor = 0\<rparr>"

text \<open>The two results of a call in Go.\<close>

definition go_answer :: "err + NativeGatewayGrant \<Rightarrow> NativeGatewayGrant \<times> bool" where
  "go_answer a = (case a of Inl _ \<Rightarrow> (no_grant, True) | Inr g \<Rightarrow> (g, False))"

inductive tunnel ::
  "('e \<Rightarrow> string \<Rightarrow> string \<Rightarrow> 's \<Rightarrow> 's \<times> (err + NativeGatewayGrant)) \<Rightarrow> ('e \<Rightarrow> string \<Rightarrow> string \<Rightarrow> 's \<Rightarrow> 's \<times> (err + NativeGatewayGrant)) \<Rightarrow>
   ('e \<Rightarrow> time) \<Rightarrow> time \<Rightarrow> Relay \<Rightarrow> ('e \<times> 's) list \<Rightarrow> relay_loop \<Rightarrow> bool"
  for redeem renew decided_at skew r where
  opened: "serve_open r env = Inr l \<Longrightarrow> oe_redeem env = go_answer (snd (redeem e (rl_id r) ticket s)) \<Longrightarrow>
    oe_started env + skew \<le> decided_at e \<Longrightarrow> tunnel redeem renew decided_at skew r [(e, s)] l"
| moved: "tunnel redeem renew decided_at skew r h l \<Longrightarrow> (\<And>g failed now unset. ev \<noteq> Reply g failed now unset) \<Longrightarrow>
    loop_step r l ev = Some (Inr l') \<Longrightarrow> tunnel redeem renew decided_at skew r h l'"
| answered: "tunnel redeem renew decided_at skew r h l \<Longrightarrow> lp_pending l = Some started \<Longrightarrow>
    go_answer (snd (renew e (rl_id r) (gg_TunnelID (lp_grant l)) s)) = (g, failed) \<Longrightarrow> started + skew \<le> decided_at e \<Longrightarrow>
    loop_step r l (Reply g (failed \<or> late) now unset) = Some (Inr l') \<Longrightarrow> tunnel redeem renew decided_at skew r ((e, s) # h) l'"

lemma go_answer_ok: "go_answer a = (g, False) \<Longrightarrow> a = Inr g"
  by (auto simp: go_answer_def split: sum.splits)

locale gateway_authority =
  fixes redeem renew :: "'e \<Rightarrow> string \<Rightarrow> string \<Rightarrow> 's \<Rightarrow> 's \<times> (err + NativeGatewayGrant)"
    and decided_at :: "'e \<Rightarrow> time"
    and backed :: "time \<Rightarrow> 's \<Rightarrow> NativeGatewayGrant \<Rightarrow> bool"
  assumes redeem_law: "redeem e gw ticket s = (s', Inr g) \<Longrightarrow> backed (decided_at e) s g"
    and renew_law: "renew e gw tun s = (s', Inr g) \<Longrightarrow> backed (decided_at e) s g"
begin

lemma tunnel_backed:
  assumes "tunnel redeem renew decided_at skew r h l"
  shows "\<exists>(e, s) \<in> set h. \<exists>g. backed (decided_at e) s g \<and> validGrant r g \<and> lp_deadline l + skew \<le> decided_at e + gg_ValidFor g \<and>
    gg_ConnectionID g = gg_ConnectionID (lp_grant l) \<and> gg_Target g = gg_Target (lp_grant l)"
  using assms
proof (induction rule: tunnel.induct)
  case (opened env l e ticket s)
  have "snd (redeem e (rl_id r) ticket s) = Inr (lp_grant l)"
    using opened(2) serve_open_Inr [OF opened(1)] by (intro go_answer_ok) simp
  then have "backed (decided_at e) s (lp_grant l)" using redeem_law [of e "rl_id r" ticket s "fst (redeem e (rl_id r) ticket s)"] by (metis prod.collapse)
  then show ?case using serve_open_Inr [OF opened(1)] opened(3)
    by (intro bexI [of _ "(e, s)"]) (simp_all add: exI [of _ "lp_grant l"])
next
  case (moved h l ev l')
  then show ?case using loop_step_other [OF moved(3) moved(2)] by simp
next
  case (answered h l started e s g failed late now unset l')
  note new = loop_step_reply [OF answered(5,2)]
  then have "snd (renew e (rl_id r) (gg_TunnelID (lp_grant l)) s) = Inr g" using answered(3) by (intro go_answer_ok) simp
  then have "backed (decided_at e) s g"
    using renew_law [of e "rl_id r" "gg_TunnelID (lp_grant l)" s "fst (renew e (rl_id r) (gg_TunnelID (lp_grant l)) s)"] by (metis prod.collapse)
  then have "backed (decided_at e) s g \<and> validGrant r g \<and> lp_deadline l' + skew \<le> decided_at e + gg_ValidFor g \<and>
      gg_ConnectionID g = gg_ConnectionID (lp_grant l') \<and> gg_Target g = gg_Target (lp_grant l')"
    using new renewal_okD [of r "lp_grant l" g] answered(4) by simp
  then show ?case by (intro bexI [of _ "(e, s)"]) (simp, blast, simp)
qed

end

section \<open>The store as the authority\<close>

text \<open>The driver's fault, the random bytes, the transaction time and the statement time of a call.\<close>

type_synonym store_call = "tx_fault \<times> (nat \<Rightarrow> string option) \<times> time \<times> time"

fun store_redeem :: "store_call \<Rightarrow> string \<Rightarrow> string \<Rightarrow> db \<Rightarrow> db \<times> (err + NativeGatewayGrant)" where
  "store_redeem (fault, entropy, now, stamp) gw ticket d = RedeemNativeGatewayTicket fault entropy now stamp gw ticket d"

fun store_renew :: "store_call \<Rightarrow> string \<Rightarrow> string \<Rightarrow> db \<Rightarrow> db \<times> (err + NativeGatewayGrant)" where
  "store_renew (fault, entropy, now, stamp) gw tun d = RenewNativeGatewayGrant fault stamp gw tun d"

definition store_stamp :: "store_call \<Rightarrow> time" where
  "store_stamp e = snd (snd (snd e))"

interpretation sa: gateway_authority store_redeem store_renew store_stamp grant_backed
proof
  fix e :: store_call and gw ticket s s' g
  assume redeem: "store_redeem e gw ticket s = (s', Inr g)"
  obtain fault entropy now stamp where "e = (fault, entropy, now, stamp)" by (cases e)
  then show "grant_backed (store_stamp e) s g"
    using redeem redeem_backed [of fault entropy now stamp gw ticket s s' g] by (simp add: store_stamp_def)
next
  fix e :: store_call and gw tun s s' g
  assume renew: "store_renew e gw tun s = (s', Inr g)"
  obtain fault entropy now stamp where "e = (fault, entropy, now, stamp)" by (cases e)
  then show "grant_backed (store_stamp e) s g"
    using renew renew_backed [of fault stamp gw tun s s' g] by (simp add: store_stamp_def)
qed

section \<open>Properties\<close>

text \<open>In a database, a connection that its user may use at a time of the database clock.\<close>

definition live_connection :: "time \<Rightarrow> db \<Rightarrow> string \<Rightarrow> bool" where
  "live_connection t d cid \<longleftrightarrow>
     (\<exists>c \<in> set (desktop_connection_sessions d). \<exists>n \<in> set (native_sessions d).
        c_id c = cid \<and> c_state c = ConnActive \<and> effective_user_desktop_access d (c_user_id c) (c_desktop_vmid c) \<and>
        c_native_session_digest c = Some (ns_token_digest n) \<and> ns_user_id n = c_user_id c \<and>
        t < c_expires_at c \<and> t < ns_expires_at n)"

lemma backed_live: "grant_backed stamp d g \<Longrightarrow> t < stamp + gg_ValidFor g \<Longrightarrow> live_connection t d (gg_ConnectionID g)"
  unfolding grant_backed_def live_connection_def by (meson less_le_trans)

lemma forwarded_backed:
  assumes "tunnel store_redeem store_renew store_stamp skew r h l" "loop_step r l (Forward t) = Some (Inr l')"
  shows "\<exists>e d g. (e, d) \<in> set h \<and> live_connection (t + skew) d (gg_ConnectionID (lp_grant l)) \<and>
    t + skew < store_stamp e + seconds 5 \<and> validGrant r g \<and> gg_Target g = gg_Target (lp_grant l)"
proof -
  obtain e d g where g: "(e, d) \<in> set h" "grant_backed (store_stamp e) d g" "validGrant r g"
      "lp_deadline l + skew \<le> store_stamp e + gg_ValidFor g"
      "gg_ConnectionID g = gg_ConnectionID (lp_grant l)" "gg_Target g = gg_Target (lp_grant l)"
    using sa.tunnel_backed [OF assms(1)] by fast
  have "t < lp_deadline l" using assms(2) by (simp split: if_splits)
  then have t: "t + skew < store_stamp e + gg_ValidFor g" using g(4) by linarith
  then have "live_connection (t + skew) d (gg_ConnectionID (lp_grant l))" using backed_live [OF g(2)] g(5) by simp
  then show ?thesis using g(1,3,6) t validGrantD(2) [OF g(3)] by (intro exI [of _ e] exI [of _ d] exI [of _ g]) simp
qed

text \<open>
  C2. Every byte a Gateway forwards is backed by the store.  Take any tunnel of a Gateway whose authority is
  the store, through any number of renewals, with a database that changes between the calls in any way.  When
  it forwards at time t, one of its calls found the connection active and its user with effective access to
  the desktop less than five seconds before, neither the connection nor the Native session that opened it has
  expired, and the bytes go to a private IPv4 address within the configured prefixes.
\<close>

theorem relay_traffic_authorized:
  assumes "tunnel store_redeem store_renew store_stamp skew r h l" "loop_step r l (Forward t) = Some (Inr l')"
  shows "\<exists>e d. (e, d) \<in> set h \<and> t + skew < store_stamp e + seconds 5 \<and>
    live_connection (t + skew) d (gg_ConnectionID (lp_grant l)) \<and>
    Is4 (gg_Target (lp_grant l)) \<and> IsPrivate (gg_Target (lp_grant l)) \<and>
    list_ex (\<lambda>p. prefix_Contains p (gg_Target (lp_grant l))) (rl_allowed r)"
proof -
  obtain e d g where g: "(e, d) \<in> set h" "live_connection (t + skew) d (gg_ConnectionID (lp_grant l))"
      "t + skew < store_stamp e + seconds 5" "validGrant r g" "gg_Target g = gg_Target (lp_grant l)"
    using forwarded_backed [OF assms] by blast
  have "Is4 (gg_Target g) \<and> IsPrivate (gg_Target g) \<and> list_ex (\<lambda>p. prefix_Contains p (gg_Target g)) (rl_allowed r)"
    using g(4) by (simp add: validGrant_def split: if_splits)
  then show ?thesis using g by (intro exI [of _ e] exI [of _ d]) simp
qed

text \<open>
  Revocation reaches the wire within five seconds.  If from time T on the store shows the user of the
  connection without effective access to its desktop whenever this tunnel asks, the tunnel forwards nothing
  at T plus five seconds or later, whatever the network and the timers do.
\<close>

lemma relay_revocation_bound:
  assumes "tunnel store_redeem store_renew store_stamp skew r h l" "loop_step r l (Forward t) = Some (Inr l')"
    and "\<And>e d c. (e, d) \<in> set h \<Longrightarrow> T \<le> store_stamp e \<Longrightarrow> c \<in> set (desktop_connection_sessions d) \<Longrightarrow>
      c_id c = gg_ConnectionID (lp_grant l) \<Longrightarrow> \<not> effective_user_desktop_access d (c_user_id c) (c_desktop_vmid c)"
  shows "t + skew < T + seconds 5"
proof -
  obtain e d where e: "(e, d) \<in> set h" "live_connection (t + skew) d (gg_ConnectionID (lp_grant l))" "t + skew < store_stamp e + seconds 5"
    using forwarded_backed [OF assms(1,2)] by blast
  then obtain c where "c \<in> set (desktop_connection_sessions d)" "c_id c = gg_ConnectionID (lp_grant l)"
      "effective_user_desktop_access d (c_user_id c) (c_desktop_vmid c)" unfolding live_connection_def by blast
  then have "store_stamp e < T" using assms(3) [OF e(1)] by force
  then show ?thesis using e(3) by simp
qed

section \<open>The end of a tunnel\<close>

fun event_time :: "time \<Rightarrow> loop_event \<Rightarrow> bool" where
  "event_time t (Forward now) = (t \<le> now)"
| "event_time t (ExpiryFires now) = (t \<le> now)"
| "event_time t (RenewFires now) = (t \<le> now)"
| "event_time t (Reply _ _ now _) = (t \<le> now)"
| "event_time t _ = True"

lemma expired_step:
  assumes "loop_step r l ev = Some (Inr l')" "event_time (lp_deadline l) ev"
  shows "\<exists>now. ev = RenewFires now \<and> lp_renew_at l \<noteq> None \<and> lp_renew_at l' = None \<and> lp_deadline l' = lp_deadline l"
  using assms by (cases ev) (auto simp: Let_def split: if_splits option.splits)

lemma expired_idle:
  assumes "loop_run r l evs = Some (Inr l')" "list_all (event_time (lp_deadline l)) evs" "lp_renew_at l = None"
  shows "evs = []"
proof (cases evs)
  case (Cons ev rest)
  then obtain m where "loop_step r l ev = Some (Inr m)" using assms(1) by (auto split: option.splits sum.splits if_splits)
  then show ?thesis using expired_step [of r l ev m] assms(2,3) Cons by auto
qed

text \<open>
  C35. A tunnel ends.  When its deadline has passed without a renewal, it forwards nothing more, and the only
  thing it can do before it returns is to send one renewal request, whose answer, good or bad, ends it; the
  expiry timer can end it at any moment.
\<close>

theorem expired_tunnel_ends:
  assumes "list_all (event_time (lp_deadline l)) evs" "loop_run r l evs = Some (Inr l')"
  shows "length evs \<le> 1 \<and> lp_deadline l' = lp_deadline l \<and> list_all (\<lambda>ev. \<exists>now. ev = RenewFires now) evs \<and>
    loop_run r l (evs @ [ExpiryFires (lp_deadline l)]) = Some (Inl [ErrLeaseExpired])"
proof (cases evs)
  case Nil
  then show ?thesis using assms(2) by simp
next
  case (Cons ev rest)
  then obtain m where m: "loop_step r l ev = Some (Inr m)" "loop_run r m rest = Some (Inr l')"
    using assms(2) by (auto split: option.splits sum.splits if_splits)
  obtain now where ev: "ev = RenewFires now" "lp_renew_at m = None" "lp_deadline m = lp_deadline l"
    using expired_step [OF m(1)] assms(1) Cons by auto
  have "rest = []" using expired_idle [OF m(2) _ ev(2)] assms(1) Cons ev(3) by simp
  then show ?thesis using m ev Cons by simp
qed

section \<open>Witnesses\<close>

definition ex_relay :: Relay where
  "ex_relay = \<lparr>rl_id = ex_gateway, rl_allowed = [Prefix (Addr4 0x0A000000) 8], rl_slots = 1\<rparr>"

definition ex_call :: store_call where
  "ex_call = (NoFault, (\<lambda>n. Some (replicate n (CHR 0x00))), 60, 60)"

abbreviation ex_grant :: NativeGatewayGrant where
  "ex_grant \<equiv> grant_of 60 (ex_spent 5000060) ex_tunnel 5000060"

definition ex_open :: open_env where
  "ex_open = \<lparr>oe_client = True, oe_used = 0, oe_ctx_err = False, oe_started = 0, oe_redeem = (ex_grant, False), oe_rpc_err = False,
     oe_now_granted = 1, oe_dial_err = False, oe_guest = True, oe_dial_ctx_err = False, oe_now_dialed = 2,
     oe_client_deadline_err = False, oe_guest_deadline_err = False, oe_ready = Some (False, 3), oe_now_timers = 4\<rparr>"

definition ex_loop :: relay_loop where
  "ex_loop = \<lparr>lp_grant = ex_grant, lp_deadline = 5000000, lp_renew_at = Some 2500002, lp_pending = None\<rparr>"

lemma ex_grant_fields:
  "gg_ConnectionID ex_grant = ex_cid" "gg_GatewayID ex_grant = ex_gateway" "gg_TunnelID ex_grant = ex_tunnel"
  "gg_Target ex_grant = Addr4 0x0A000001" "gg_PolicyRevision ex_grant = 1" "gg_ValidFor ex_grant = 5000000"
  "length (gg_CertificateSHA256 ex_grant) = 32"
  by (simp_all add: grant_of_def ex_spent_def ex_ticket_def)

lemma ex_valid: "validGrant ex_relay ex_grant"
  using ex_gateway_valid unfolding validGrant_def ex_grant_fields ex_relay_def by (simp add: ex_cid_def)

lemma ex_opened: "serve_open ex_relay ex_open = Inr ex_loop"
  using ex_valid by (simp add: serve_open_def Let_def ex_open_def ex_loop_def half_way_def ex_grant_fields(6) ex_relay_def)

lemma ex_tunnel_run: "tunnel store_redeem store_renew store_stamp 60 ex_relay [(ex_call, ex_gateway_db [ex_ticket])] ex_loop"
proof (rule tunnel.opened [OF ex_opened])
  show "oe_redeem ex_open = go_answer (snd (store_redeem ex_call (rl_id ex_relay) ex_token (ex_gateway_db [ex_ticket])))"
    using ex_redeem by (auto simp: ex_call_def ex_relay_def ex_open_def go_answer_def)
  show "oe_started ex_open + 60 \<le> store_stamp ex_call" by (simp add: ex_open_def ex_call_def store_stamp_def)
qed

lemma ex_forward: "loop_step ex_relay ex_loop (Forward 10) = Some (Inr ex_loop)"
  by (simp add: ex_loop_def)

theorem relay_traffic_authorized_witness:
  "tunnel store_redeem store_renew store_stamp 60 ex_relay [(ex_call, ex_gateway_db [ex_ticket])] ex_loop \<and>
   loop_step ex_relay ex_loop (Forward 10) = Some (Inr ex_loop) \<and> IsPrivate (gg_Target (lp_grant ex_loop)) \<and>
   live_connection 70 (ex_gateway_db [ex_ticket]) (gg_ConnectionID (lp_grant ex_loop))"
  using ex_tunnel_run ex_forward relay_traffic_authorized [OF ex_tunnel_run ex_forward] by simp

theorem expired_tunnel_ends_witness:
  "loop_run ex_relay ex_loop [RenewFires 5000001] = Some (Inr (ex_loop\<lparr>lp_renew_at := None, lp_pending := Some 5000001\<rparr>)) \<and>
   loop_run ex_relay ex_loop [RenewFires 5000001, ExpiryFires 5000000] = Some (Inl [ErrLeaseExpired])"
proof -
  have run: "loop_run ex_relay ex_loop [RenewFires 5000001] = Some (Inr (ex_loop\<lparr>lp_renew_at := None, lp_pending := Some 5000001\<rparr>))"
    by (simp add: ex_loop_def)
  have "list_all (event_time (lp_deadline ex_loop)) [RenewFires 5000001]" by (simp add: ex_loop_def)
  from expired_tunnel_ends [OF this run] show ?thesis using run by (simp add: ex_loop_def)
qed

end
