(* ===== verification/Go_Json.thy ===== *)
theory Go_Json
  imports Go_Text
begin

text \<open>
  \<open>json.Valid\<close>: the scanner of \<open>encoding/json\<close>, one step per byte.  Its state is what it expects next and the
  stack of open objects and arrays.
\<close>

datatype scan_at =
    BeginValue | BeginValueOrEmpty | BeginStringOrEmpty | BeginString | EndValue | EndTop
  | InString | InStringEsc | InStringEscU nat
  | Neg | Digits | Zero | Dot | Frac | Exp | ExpSign | ExpDigits | Literal string

datatype scan_open = ObjectKey | ObjectValue | ArrayValue

type_synonym scan_state = "scan_at \<times> scan_open list"

definition json_space :: "char \<Rightarrow> bool" where
  "json_space c \<longleftrightarrow> c = CHR '' '' \<or> c = CHR 0x09 \<or> c = CHR 0x0D \<or> c = CHR 0x0A"

definition json_hex :: "char \<Rightarrow> bool" where
  "json_hex c \<longleftrightarrow> is_digit c \<or> in_range 97 102 c \<or> in_range 65 70 c"

definition maxNestingDepth :: nat where "maxNestingDepth = 10000"

definition pushed :: "scan_at \<Rightarrow> scan_open \<Rightarrow> scan_open list \<Rightarrow> scan_state option" where
  "pushed at x stack = (if length (x # stack) \<le> maxNestingDepth then Some (at, x # stack) else None)"

definition popped :: "scan_open list \<Rightarrow> scan_state option" where
  "popped stack = Some (if tl stack = [] then EndTop else EndValue, tl stack)"

text \<open>The steps that other steps fall back to.\<close>

definition stateEndValue :: "char \<Rightarrow> scan_open list \<Rightarrow> scan_state option" where
  "stateEndValue c stack =
     (case stack of
        [] \<Rightarrow> if json_space c then Some (EndTop, []) else None
      | inner # rest \<Rightarrow>
          if json_space c then Some (EndValue, stack)
          else case inner of
                 ObjectKey \<Rightarrow> if c = CHR '':'' then Some (BeginValue, ObjectValue # rest) else None
               | ObjectValue \<Rightarrow> if c = CHR '','' then Some (BeginString, ObjectKey # rest)
                                 else if c = CHR ''}'' then popped stack else None
               | ArrayValue \<Rightarrow> if c = CHR '','' then Some (BeginValue, stack)
                                else if c = CHR '']'' then popped stack else None)"

definition stateBeginValue :: "char \<Rightarrow> scan_open list \<Rightarrow> scan_state option" where
  "stateBeginValue c stack =
     (if json_space c then Some (BeginValue, stack)
      else if c = CHR ''{'' then pushed BeginStringOrEmpty ObjectKey stack
      else if c = CHR ''['' then pushed BeginValueOrEmpty ArrayValue stack
      else if c = CHR 0x22 then Some (InString, stack)
      else if c = CHR ''-'' then Some (Neg, stack)
      else if c = CHR ''0'' then Some (Zero, stack)
      else if c = CHR ''t'' then Some (Literal ''rue'', stack)
      else if c = CHR ''f'' then Some (Literal ''alse'', stack)
      else if c = CHR ''n'' then Some (Literal ''ull'', stack)
      else if in_range 49 57 c then Some (Digits, stack)
      else None)"

definition stateBeginString :: "char \<Rightarrow> scan_open list \<Rightarrow> scan_state option" where
  "stateBeginString c stack =
     (if json_space c then Some (BeginString, stack)
      else if c = CHR 0x22 then Some (InString, stack) else None)"

definition state0 :: "char \<Rightarrow> scan_open list \<Rightarrow> scan_state option" where
  "state0 c stack =
     (if c = CHR ''.'' then Some (Dot, stack)
      else if c = CHR ''e'' \<or> c = CHR ''E'' then Some (Exp, stack) else stateEndValue c stack)"

definition stateESign :: "char \<Rightarrow> scan_open list \<Rightarrow> scan_state option" where
  "stateESign c stack = (if is_digit c then Some (ExpDigits, stack) else None)"

fun json_step :: "char \<Rightarrow> scan_state \<Rightarrow> scan_state option" where
  "json_step c (BeginValue, stack) = stateBeginValue c stack"
| "json_step c (BeginValueOrEmpty, stack) =
     (if json_space c then Some (BeginValueOrEmpty, stack)
      else if c = CHR '']'' then stateEndValue c stack else stateBeginValue c stack)"
| "json_step c (BeginStringOrEmpty, stack) =
     (if json_space c then Some (BeginStringOrEmpty, stack)
      else if c = CHR ''}'' then stateEndValue c (ObjectValue # tl stack) else stateBeginString c stack)"
| "json_step c (BeginString, stack) = stateBeginString c stack"
| "json_step c (EndValue, stack) = stateEndValue c stack"
| "json_step c (EndTop, stack) = (if json_space c then Some (EndTop, stack) else None)"
| "json_step c (InString, stack) =
     (if c = CHR 0x22 then Some (EndValue, stack)
      else if c = CHR 0x5C then Some (InStringEsc, stack)
      else if byte_of c < 32 then None else Some (InString, stack))"
| "json_step c (InStringEsc, stack) =
     (if c \<in> set [CHR ''b'', CHR ''f'', CHR ''n'', CHR ''r'', CHR ''t'', CHR 0x5C, CHR ''/'', CHR 0x22] then Some (InString, stack)
      else if c = CHR ''u'' then Some (InStringEscU 3, stack) else None)"
| "json_step c (InStringEscU n, stack) =
     (if json_hex c then Some (if n = 0 then InString else InStringEscU (n - 1), stack) else None)"
| "json_step c (Neg, stack) =
     (if c = CHR ''0'' then Some (Zero, stack) else if in_range 49 57 c then Some (Digits, stack) else None)"
| "json_step c (Digits, stack) = (if is_digit c then Some (Digits, stack) else state0 c stack)"
| "json_step c (Zero, stack) = state0 c stack"
| "json_step c (Dot, stack) = (if is_digit c then Some (Frac, stack) else None)"
| "json_step c (Frac, stack) =
     (if is_digit c then Some (Frac, stack)
      else if c = CHR ''e'' \<or> c = CHR ''E'' then Some (Exp, stack) else stateEndValue c stack)"
| "json_step c (Exp, stack) =
     (if c = CHR ''+'' \<or> c = CHR ''-'' then Some (ExpSign, stack) else stateESign c stack)"
| "json_step c (ExpSign, stack) = stateESign c stack"
| "json_step c (ExpDigits, stack) = (if is_digit c then Some (ExpDigits, stack) else stateEndValue c stack)"
| "json_step c (Literal s, stack) =
     (case s of
        [] \<Rightarrow> stateEndValue c stack
      | x # rest \<Rightarrow> if c \<noteq> x then None else Some (if rest = [] then EndValue else Literal rest, stack))"

fun json_run :: "string \<Rightarrow> scan_state \<Rightarrow> scan_state option" where
  "json_run [] st = Some st"
| "json_run (c # s) st = (case json_step c st of None \<Rightarrow> None | Some st' \<Rightarrow> json_run s st')"

text \<open>At the end of the input the scanner takes one more space and must then stand behind a whole value.\<close>

definition json_Valid :: "string \<Rightarrow> bool" where
  "json_Valid s =
     (case json_run s (BeginValue, []) of
        None \<Rightarrow> False
      | Some st \<Rightarrow> fst st = EndTop \<or>
          (case json_step (CHR '' '') st of None \<Rightarrow> False | Some st' \<Rightarrow> fst st' = EndTop))"

section \<open>Quoted texts are valid\<close>

lemma json_run_append: "json_run (s @ t) st = Option.bind (json_run s st) (json_run t)"
  by (induction s arbitrary: st) (auto split: option.splits)

definition json_plain :: "char \<Rightarrow> bool" where
  "json_plain c \<longleftrightarrow> 32 \<le> byte_of c \<and> c \<noteq> CHR 0x22 \<and> c \<noteq> CHR 0x5C"

lemma json_run_plain: "list_all json_plain s \<Longrightarrow> json_run s (InString, stack) = Some (InString, stack)"
  by (induction s) (auto simp: json_plain_def)

lemma json_Valid_quoted: "list_all json_plain s \<Longrightarrow> json_Valid (CHR 0x22 # s @ [CHR 0x22])"
  by (simp add: json_Valid_def json_run_append json_run_plain stateBeginValue_def json_space_def stateEndValue_def)

section \<open>Strings\<close>

text \<open>The UTF-8 encoding of a code point, and the value of four hexadecimal digits.\<close>

definition utf8_encode :: "nat \<Rightarrow> string" where
  "utf8_encode n =
     (if n < 0x80 then [char_of n]
      else if n < 0x800 then [char_of (0xC0 + n div 64), char_of (0x80 + n mod 64)]
      else if n < 0x10000 then [char_of (0xE0 + n div 4096), char_of (0x80 + n div 64 mod 64), char_of (0x80 + n mod 64)]
      else [char_of (0xF0 + n div 262144), char_of (0x80 + n div 4096 mod 64), char_of (0x80 + n div 64 mod 64), char_of (0x80 + n mod 64)])"

definition rune_error :: string where
  "rune_error = [CHR 0xEF, CHR 0xBF, CHR 0xBD]"

definition hex4 :: "string \<Rightarrow> nat option" where
  "hex4 s = (if length s = 4 \<and> list_all json_hex s then parse_from 16 0 s else None)"

text \<open>The code unit of an escape \<open>\\uXXXX\<close> at the start of a string (\<open>getu4\<close>).\<close>

definition getu4 :: "string \<Rightarrow> nat option" where
  "getu4 s = (if take 2 s = [CHR 0x5C, CHR ''u''] then hex4 (take 4 (drop 2 s)) else None)"

definition is_surrogate :: "nat \<Rightarrow> bool" where
  "is_surrogate n \<longleftrightarrow> 0xD800 \<le> n \<and> n < 0xE000"

definition surrogate_pair :: "nat \<Rightarrow> nat option \<Rightarrow> nat option" where
  "surrogate_pair hi lo =
     (case lo of
        None \<Rightarrow> None
      | Some lo \<Rightarrow> if 0xD800 \<le> hi \<and> hi < 0xDC00 \<and> 0xDC00 \<le> lo \<and> lo < 0xE000
                   then Some ((hi - 0xD800) * 1024 + (lo - 0xDC00) + 0x10000) else None)"

definition escape_char :: "char \<Rightarrow> char option" where
  "escape_char c =
     map_of [(CHR 0x22, CHR 0x22), (CHR 0x5C, CHR 0x5C), (CHR ''/'', CHR ''/''), (CHR ''b'', CHR 0x08), (CHR ''f'', CHR 0x0C),
             (CHR ''n'', CHR 0x0A), (CHR ''r'', CHR 0x0D), (CHR ''t'', CHR 0x09)] c"

text \<open>
  The text of a string after its opening quote, up to the closing one, and what follows it.  A byte that is no
  UTF-8 and a surrogate without its partner become the replacement character.
\<close>

function read_string :: "string \<Rightarrow> (string \<times> string) option" where
  "read_string s =
     (case s of
        [] \<Rightarrow> None
      | c # s1 \<Rightarrow>
          if c = CHR 0x22 then Some ([], s1)
          else if c = CHR 0x5C then
            (case getu4 s of
               Some u \<Rightarrow>
                 if is_surrogate u then
                   (case surrogate_pair u (getu4 (drop 6 s)) of
                      Some r \<Rightarrow> map_option (apfst (append (utf8_encode r))) (read_string (drop 12 s))
                    | None \<Rightarrow> map_option (apfst (append rune_error)) (read_string (drop 6 s)))
                 else map_option (apfst (append (utf8_encode u))) (read_string (drop 6 s))
             | None \<Rightarrow>
                 (case s1 of
                    [] \<Rightarrow> None
                  | e # s2 \<Rightarrow>
                      (case escape_char e of
                         None \<Rightarrow> None
                       | Some x \<Rightarrow> map_option (apfst (Cons x)) (read_string s2))))
          else if byte_of c < 32 then None
          else let n = rune_len s; r = (if utf8_prefix s = None then rune_error else take n s)
               in map_option (apfst (append r)) (read_string (drop n s)))"
  by pat_completeness auto
termination
  by (relation "measure length") (use rune_len_pos in auto)

declare read_string.simps [simp del]

fun skip_space :: "string \<Rightarrow> string" where
  "skip_space [] = []"
| "skip_space (c # s) = (if json_space c then skip_space s else c # s)"

text \<open>
  A decoder that is asked for an object with one string: the tokens \<open>{\<close> and the name, \<open>Decode\<close> into a string
  (\<open>null\<close> leaves it empty), no further member, \<open>}\<close> and the end of the input.
\<close>

definition expect :: "char \<Rightarrow> string \<Rightarrow> string option" where
  "expect c s = (case skip_space s of [] \<Rightarrow> None | x # r \<Rightarrow> if x = c then Some r else None)"

definition decode_string :: "string \<Rightarrow> (string \<times> string) option" where
  "decode_string s =
     (let r = skip_space s
      in if HasPrefix r ''null'' then Some ([], drop 4 r)
         else Option.bind (expect (CHR 0x22) r) read_string)"

definition single_string_object :: "string \<Rightarrow> string \<Rightarrow> string option" where
  "single_string_object name s =
     Option.bind (expect (CHR ''{'') s) (\<lambda>s1.
     Option.bind (Option.bind (expect (CHR 0x22) s1) read_string) (\<lambda>(key, s2).
       if key \<noteq> name then None
       else Option.bind (expect (CHR '':'') s2) (\<lambda>s3.
            Option.bind (decode_string s3) (\<lambda>(value, s4).
            Option.bind (expect (CHR ''}'') s4) (\<lambda>s5.
              if skip_space s5 = [] then Some value else None)))))"

text \<open>A string of printable ASCII bytes without escapes reads as itself.\<close>

lemma read_plain:
  assumes "list_all (\<lambda>c. json_plain c \<and> byte_of c < 128) s"
  shows "read_string (s @ CHR 0x22 # rest) = Some (s, rest)"
  using assms
proof (induction s)
  case Nil
  show ?case by (simp add: read_string.simps)
next
  case (Cons c s)
  then have c: "c \<noteq> CHR 0x22" "c \<noteq> CHR 0x5C" "\<not> byte_of c < 32" "byte_of c < 128" by (auto simp: json_plain_def)
  then have "utf8_prefix (c # s @ CHR 0x22 # rest) = Some 1" by (simp add: utf8_prefix_def)
  then show ?case using c Cons by (subst read_string.simps) (simp add: rune_len_def)
qed

lemma single_string_plain:
  assumes "list_all (\<lambda>c. json_plain c \<and> byte_of c < 128) name" "list_all (\<lambda>c. json_plain c \<and> byte_of c < 128) value"
  shows "single_string_object name (''{'' @ [CHR 0x22] @ name @ [CHR 0x22, CHR '':'', CHR 0x22] @ value @ [CHR 0x22, CHR ''}'']) = Some value"
  by (simp add: single_string_object_def expect_def json_space_def decode_string_def HasPrefix_def
      read_plain [OF assms(1)] read_plain [OF assms(2)])

end
