(* ===== verification/Gateway_Http.thy ===== *)
theory Gateway_Http
  imports Relay_Laws Go_Json
begin

text \<open>
  The HTTP side of a Gateway: the control service through which Gateways reach the store
  (src/internal/gateway/control.go, \<open>peerIdentity\<close> of tls.go), the public transport that admits native clients
  to the relay (transport.go), and the routes of the broker (broker.go).  Requests are what package
  \<open>net/http\<close> hands to a handler; the WebSocket library is an argument.
\<close>

section \<open>Requests\<close>

record certificate =
  cert_Raw :: string
  cert_NotBefore :: time
  cert_NotAfter :: time

record tls_state =
  tls_HandshakeComplete :: bool
  tls_Version :: nat
  tls_VerifiedChains :: nat
  tls_PeerCertificates :: "certificate list"

definition VersionTLS13 :: nat where "VersionTLS13 = 0x0304"

record http_request =
  rq_TLS :: "tls_state option"
  rq_Host :: string
  rq_Method :: string
  rq_Path :: string
  rq_RawPath :: string
  rq_RawQuery :: string
  rq_ForceQuery :: bool
  rq_ContentLength :: int
  rq_TransferEncoding :: "string list"
  rq_Header :: "(string \<times> string) list"
  rq_Body :: string

text \<open>\<open>Header.Values\<close> and \<open>Header.Get\<close>, for canonical names.\<close>

definition header_Values :: "string \<Rightarrow> http_request \<Rightarrow> string list" where
  "header_Values name r = map snd (filter (\<lambda>f. fst f = name) (rq_Header r))"

definition header_Get :: "string \<Rightarrow> http_request \<Rightarrow> string" where
  "header_Get name r = (case header_Values name r of [] \<Rightarrow> [] | v # _ \<Rightarrow> v)"

section \<open>The control service\<close>

text \<open>Pins map the SHA-256 of a certificate to a Gateway.\<close>

type_synonym PeerPins = "(string \<times> string) list"

definition peerIdentity :: "time \<Rightarrow> tls_state option \<Rightarrow> PeerPins \<Rightarrow> string" where
  "peerIdentity now state pins =
     (case state of
        None \<Rightarrow> []
      | Some st \<Rightarrow>
          if \<not> tls_HandshakeComplete st \<or> tls_Version st < VersionTLS13 \<or> tls_VerifiedChains st = 0 then []
          else case tls_PeerCertificates st of
                 [] \<Rightarrow> []
               | leaf # _ \<Rightarrow>
                   if now < cert_NotBefore leaf \<or> \<not> now < cert_NotAfter leaf then []
                   else case map_of pins (Sum256 (cert_Raw leaf)) of None \<Rightarrow> [] | Some gw \<Rightarrow> gw)"

record controlHandler =
  ch_pins :: PeerPins
  ch_slots :: nat

definition NewControlHandler :: "bool \<Rightarrow> PeerPins \<Rightarrow> relay_err + controlHandler" where
  "NewControlHandler backend pins =
     (if \<not> backend \<or> length pins = 0 \<or> length pins > 256 then Inl ErrConfiguration
      else if list_all (\<lambda>p. gatewayIDPattern (snd p)) pins then Inr \<lparr>ch_pins = pins, ch_slots = 64\<rparr>
      else Inl ErrConfiguration)"

record wireGrant =
  wg_ConnectionID :: string
  wg_GatewayID :: string
  wg_TunnelID :: string
  wg_Target :: string
  wg_CertificateSHA256 :: string
  wg_PolicyRevision :: int
  wg_ValidForMS :: int

definition StatusOK :: nat where "StatusOK = 200"
definition StatusNoContent :: nat where "StatusNoContent = 204"
definition StatusBadRequest :: nat where "StatusBadRequest = 400"
definition StatusForbidden :: nat where "StatusForbidden = 403"
definition StatusNotFound :: nat where "StatusNotFound = 404"
definition StatusServiceUnavailable :: nat where "StatusServiceUnavailable = 503"

text \<open>A status with the grant of the body, if it has one; the texts of errors are left out.\<close>

type_synonym response = "nat \<times> wireGrant option"

definition ControlRedeemPath :: string where "ControlRedeemPath = ''/internal/gateway/v1/redeem''"
definition ControlRenewPath :: string where "ControlRenewPath = ''/internal/gateway/v1/renew''"
definition ControlClosePath :: string where "ControlClosePath = ''/internal/gateway/v1/close''"
definition ControlReadyPath :: string where "ControlReadyPath = ''/internal/gateway/v1/ready''"

definition validTicket :: "string \<Rightarrow> bool" where
  "validTicket ticket =
     (if length ticket \<noteq> 47 \<or> \<not> HasPrefix ticket ''gwt_'' then False
      else case DecodeString url_alphabet True (drop 4 ticket) of None \<Rightarrow> False | Some decoded \<Rightarrow> length decoded = 32)"

text \<open>A body longer than the limit of \<open>MaxBytesReader\<close> never reaches its end.\<close>

definition singleStringBody :: "http_request \<Rightarrow> string \<Rightarrow> string option" where
  "singleStringBody r field =
     (if header_Get ''Content-Type'' r \<noteq> ''application/json'' \<or> rq_ContentLength r > 1024 then None
      else if length (rq_Body r) > 1024 then None
      else single_string_object field (rq_Body r))"

text \<open>\<open>Addr.String\<close> of an IPv4 address, and \<open>Duration.Milliseconds\<close>.\<close>

definition addr4_String :: "32 word \<Rightarrow> string" where
  "addr4_String a =
     Join (CHR ''.'') (map (\<lambda>k. FormatUint (unat (drop_bit k a AND 0xFF))) [24, 16, 8, 0])"

definition Milliseconds :: "time \<Rightarrow> int" where
  "Milliseconds t = (if t < 0 then - (- t div 1000) else t div 1000)"

definition wire_of :: "NativeGatewayGrant \<Rightarrow> wireGrant" where
  "wire_of grant =
     \<lparr>wg_ConnectionID = gg_ConnectionID grant, wg_GatewayID = gg_GatewayID grant, wg_TunnelID = gg_TunnelID grant,
      wg_Target = addr4_String (addr4 (gg_Target grant)), wg_CertificateSHA256 = hex_encode (gg_CertificateSHA256 grant),
      wg_PolicyRevision = gg_PolicyRevision grant, wg_ValidForMS = Milliseconds (gg_ValidFor grant)\<rparr>"

text \<open>The status for a backend call that failed.\<close>

definition refused_status :: "err \<Rightarrow> nat" where
  "refused_status e = (if e = ErrNotFound \<or> e = ErrConflict then StatusForbidden else StatusServiceUnavailable)"

definition grant_response :: "string \<Rightarrow> bool \<Rightarrow> err + NativeGatewayGrant \<Rightarrow> response" where
  "grant_response gw expired answer =
     (case answer of
        Inl e \<Rightarrow> (refused_status e, None)
      | Inr grant \<Rightarrow>
          if expired then (StatusServiceUnavailable, None)
          else if gg_GatewayID grant \<noteq> gw \<or> Milliseconds (gg_ValidFor grant) < 1 \<or> gg_ValidFor grant > GatewayAuthorizationWindow
          then (StatusServiceUnavailable, None)
          else (StatusOK, Some (wire_of grant)))"

definition close_response :: "bool \<Rightarrow> err + unit \<Rightarrow> response" where
  "close_response expired answer =
     (case answer of
        Inl e \<Rightarrow> (refused_status e, None)
      | Inr _ \<Rightarrow> if expired then (StatusServiceUnavailable, None) else (StatusNoContent, None))"

text \<open>
  \<open>ServeHTTP\<close> with the store as its backend.  \<open>now\<close> is the clock of the service, \<open>reloaded\<close> the identity
  function that replaces the pins when the TLS files are watched, \<open>used\<close> the slots in use, \<open>expired\<close> whether
  the context ended during the call, \<open>ping\<close> whether the store answered.
\<close>

definition control_id :: "time \<Rightarrow> (tls_state option \<Rightarrow> string) option \<Rightarrow> controlHandler \<Rightarrow> http_request \<Rightarrow> string" where
  "control_id now reloaded h r =
     (case reloaded of None \<Rightarrow> peerIdentity now (rq_TLS r) (ch_pins h) | Some identity \<Rightarrow> identity (rq_TLS r))"

definition control_call ::
  "store_call \<Rightarrow> bool \<Rightarrow> string \<Rightarrow> string \<Rightarrow> string \<Rightarrow> db \<Rightarrow> db \<times> response" where
  "control_call e expired gw path value d =
     (if path = ControlRedeemPath then apsnd (grant_response gw expired) (store_redeem e gw value d)
      else if path = ControlRenewPath then apsnd (grant_response gw expired) (store_renew e gw value d)
      else apsnd (close_response expired)
             (case e of (fault, entropy, now, stamp) \<Rightarrow> CloseNativeGatewayGrant fault now stamp gw value d))"

definition control_ServeHTTP ::
  "time \<Rightarrow> (tls_state option \<Rightarrow> string) option \<Rightarrow> nat \<Rightarrow> bool \<Rightarrow> bool \<Rightarrow> store_call \<Rightarrow> controlHandler \<Rightarrow> http_request \<Rightarrow> db \<Rightarrow> db \<times> response" where
  "control_ServeHTTP now reloaded used expired ping e h r d =
     (let gw = control_id now reloaded h r; path = rq_Path r;
          field = (if path = ControlRedeemPath then ''ticket'' else ''tunnel_id'') in
      if gw = [] then (d, (StatusForbidden, None))
      else if rq_RawQuery r \<noteq> [] \<or> rq_ForceQuery r \<or> rq_RawPath r \<noteq> [] then (d, (StatusNotFound, None))
      else if used \<ge> ch_slots h then (d, (StatusServiceUnavailable, None))
      else if path = ControlReadyPath \<and> rq_Method r = ''GET'' \<and> rq_ContentLength r = 0
      then (d, (if ping then StatusNoContent else StatusServiceUnavailable, None))
      else if rq_Method r \<noteq> ''POST'' \<or> (path \<noteq> ControlRedeemPath \<and> path \<noteq> ControlRenewPath \<and> path \<noteq> ControlClosePath)
      then (d, (StatusNotFound, None))
      else case singleStringBody r field of
             None \<Rightarrow> (d, (StatusBadRequest, None))
           | Some value \<Rightarrow>
               if (field = ''ticket'' \<and> \<not> validTicket value) \<or> (field = ''tunnel_id'' \<and> \<not> tunnelIDPattern value)
               then (d, (StatusBadRequest, None))
               else control_call e expired gw path value d)"

section \<open>The public transport\<close>

record Transport =
  tr_relay :: Relay
  tr_host :: string
  tr_slots :: nat

definition contains_any :: "string \<Rightarrow> string \<Rightarrow> bool" where
  "contains_any s chars = list_ex (\<lambda>c. c \<in> set chars) s"

definition NewTransport :: "Relay option \<Rightarrow> string \<Rightarrow> bool \<Rightarrow> relay_err + Transport" where
  "NewTransport relay host ready =
     (case relay of
        None \<Rightarrow> Inl ErrConfiguration
      | Some rl \<Rightarrow>
          if host = [] \<or> length host > 255 \<or> contains_any host (''/'' @ [CHR 0x5C] @ ''@?# '' @ [CHR 0x0D, CHR 0x0A, CHR 0x09]) \<or> \<not> ready
          then Inl ErrConfiguration
          else Inr \<lparr>tr_relay = rl, tr_host = host, tr_slots = rl_slots rl\<rparr>)"

definition TunnelPath :: string where "TunnelPath = ''/gateway/v1/rdp''"
definition TunnelSubprotocol :: string where "TunnelSubprotocol = ''vc-workspace-rdp.v1''"

text \<open>
  What a request comes to: a status, a WebSocket dropped before its ticket was accepted, or a call of the relay
  with a ticket.  \<open>accept\<close> is the upgrade, \<open>first\<close> the first message read within its limits, with
  whether it is a text.
\<close>

datatype admission = Status nat | Dropped | Relayed string

definition transport_ok :: "Transport \<Rightarrow> http_request \<Rightarrow> bool" where
  "transport_ok t r =
     (case rq_TLS r of
        None \<Rightarrow> False
      | Some st \<Rightarrow>
          \<not> (\<not> tls_HandshakeComplete st \<or> tls_Version st < VersionTLS13 \<or> rq_Host r \<noteq> tr_host t \<or>
             rq_RawQuery r \<noteq> [] \<or> rq_ForceQuery r \<or> rq_RawPath r \<noteq> [] \<or> rq_Method r \<noteq> ''GET'' \<or>
             rq_ContentLength r \<noteq> 0 \<or> length (rq_TransferEncoding r) \<noteq> 0))"

definition tunnel_protocol_ok :: "http_request \<Rightarrow> bool" where
  "tunnel_protocol_ok r \<longleftrightarrow>
     \<not> (rq_Path r \<noteq> TunnelPath \<or> length (header_Values ''Origin'' r) \<noteq> 0 \<or> length (header_Values ''Cookie'' r) \<noteq> 0 \<or>
        length (header_Values ''Authorization'' r) \<noteq> 0 \<or> length (header_Values ''Sec-WebSocket-Protocol'' r) \<noteq> 1 \<or>
        header_Get ''Sec-WebSocket-Protocol'' r \<noteq> TunnelSubprotocol)"

definition transport_ServeHTTP ::
  "bool \<Rightarrow> bool \<Rightarrow> bool \<Rightarrow> nat \<Rightarrow> bool \<Rightarrow> (bool \<times> string) option \<Rightarrow> Transport \<Rightarrow> http_request \<Rightarrow> admission" where
  "transport_ServeHTTP ended ready closing used accept first t r =
     (if \<not> transport_ok t r then Status StatusBadRequest
      else if rq_Path r = ''/health'' then Status StatusNoContent
      else if rq_Path r = ''/ready''
      then Status (if ended \<or> \<not> ready then StatusServiceUnavailable else StatusNoContent)
      else if \<not> tunnel_protocol_ok r then Status StatusBadRequest
      else if closing \<or> ended then Status StatusServiceUnavailable
      else if used \<ge> tr_slots t then Status StatusServiceUnavailable
      else if \<not> accept then Dropped
      else case first of
             None \<Rightarrow> Dropped
           | Some (text, bytes) \<Rightarrow> if \<not> text \<or> \<not> validTicket bytes then Dropped else Relayed bytes)"

definition transportCloseReason :: "relay_err list \<Rightarrow> string" where
  "transportCloseReason errs =
     (if errs = [] then ''eof''
      else if ErrAuthorization \<in> set errs then ''authorization''
      else if ErrLeaseExpired \<in> set errs then ''lease_expired''
      else if ErrTransport \<in> set errs then ''transport''
      else if ErrCapacity \<in> set errs then ''capacity''
      else if CtxErr \<in> set errs then ''shutdown''
      else ''internal'')"

section \<open>Routes of the broker\<close>

record BrokerRoute =
  br_id :: string
  br_url :: string
  br_allowed :: "netip_prefix list"

definition Allows :: "BrokerRoute option \<Rightarrow> netip_addr \<Rightarrow> bool" where
  "Allows r target =
     (case r of
        None \<Rightarrow> False
      | Some r \<Rightarrow>
          if \<not> Is4 target \<or> \<not> IsPrivate target then False
          else list_ex (\<lambda>p. prefix_Contains p target) (br_allowed r))"

section \<open>Who the control service obeys\<close>

text \<open>A peer whose leaf certificate is pinned to a Gateway, verified and within its validity.\<close>

definition pinned_peer :: "time \<Rightarrow> PeerPins \<Rightarrow> http_request \<Rightarrow> string \<Rightarrow> bool" where
  "pinned_peer now pins r gw \<longleftrightarrow>
     (\<exists>st leaf rest. rq_TLS r = Some st \<and> tls_HandshakeComplete st \<and> VersionTLS13 \<le> tls_Version st \<and>
        0 < tls_VerifiedChains st \<and> tls_PeerCertificates st = leaf # rest \<and>
        cert_NotBefore leaf \<le> now \<and> now < cert_NotAfter leaf \<and> map_of pins (Sum256 (cert_Raw leaf)) = Some gw)"

lemma peerIdentity_pinned:
  assumes "peerIdentity now (rq_TLS r) pins = gw" "gw \<noteq> []"
  shows "pinned_peer now pins r gw"
  using assms by (auto simp: peerIdentity_def pinned_peer_def not_less split: option.splits if_splits list.splits)

lemma Milliseconds_bounds: "1 \<le> Milliseconds t \<Longrightarrow> t \<le> seconds 5 \<Longrightarrow> Milliseconds t * 1000 \<le> t \<and> Milliseconds t \<le> 5000"
  by (auto simp: Milliseconds_def split: if_splits)

text \<open>A call made for a Gateway, and a grant that answers it.\<close>

definition one_call :: "store_call \<Rightarrow> string \<Rightarrow> db \<Rightarrow> db \<Rightarrow> bool" where
  "one_call e gw d d' \<longleftrightarrow>
     (\<exists>value. d' = fst (store_redeem e gw value d) \<or> d' = fst (store_renew e gw value d) \<or>
        d' = fst (CloseNativeGatewayGrant (fst e) (fst (snd (snd e))) (store_stamp e) gw value d))"

definition sound_wire :: "store_call \<Rightarrow> string \<Rightarrow> db \<Rightarrow> wireGrant \<Rightarrow> bool" where
  "sound_wire e gw d w \<longleftrightarrow>
     wg_GatewayID w = gw \<and> 1 \<le> wg_ValidForMS w \<and> wg_ValidForMS w \<le> 5000 \<and>
     (\<exists>g. grant_backed (store_stamp e) d g \<and> w = wire_of g \<and> wg_ValidForMS w * 1000 \<le> gg_ValidFor g)"

lemma grant_response_sound:
  assumes "grant_response gw expired answer = (status, Some w)" "\<And>g. answer = Inr g \<Longrightarrow> grant_backed (store_stamp e) d g"
  shows "sound_wire e gw d w"
proof -
  obtain g where g: "answer = Inr g" "gg_GatewayID g = gw" "1 \<le> Milliseconds (gg_ValidFor g)" "gg_ValidFor g \<le> seconds 5" "w = wire_of g"
    using assms(1) by (auto simp: grant_response_def split: sum.splits if_splits)
  then show ?thesis using assms(2) [OF g(1)] Milliseconds_bounds [OF g(3,4)] by (auto simp: sound_wire_def wire_of_def)
qed

lemma store_answers_backed:
  "snd (store_redeem e gw value d) = Inr g \<Longrightarrow> grant_backed (store_stamp e) d g"
  "snd (store_renew e gw value d) = Inr g \<Longrightarrow> grant_backed (store_stamp e) d g"
  using sa.redeem_law sa.renew_law by (metis prod.collapse)+

lemma apsnd_eq: "apsnd f p = (a, b) \<longleftrightarrow> a = fst p \<and> b = f (snd p)"
  by (cases p) auto

lemma control_call_sound:
  assumes "control_call e expired gw path value d = (d', (status, w))"
  shows "one_call e gw d d' \<and> (case w of None \<Rightarrow> True | Some w \<Rightarrow> sound_wire e gw d w)"
proof -
  consider (redeem) "d' = fst (store_redeem e gw value d)" "(status, w) = grant_response gw expired (snd (store_redeem e gw value d))"
    | (renew) "d' = fst (store_renew e gw value d)" "(status, w) = grant_response gw expired (snd (store_renew e gw value d))"
    | (close) answer where "d' = fst (CloseNativeGatewayGrant (fst e) (fst (snd (snd e))) (store_stamp e) gw value d)"
        "(status, w) = close_response expired answer"
    using assms unfolding control_call_def by (cases e) (simp add: apsnd_eq store_stamp_def split: if_splits)
  then show ?thesis
  proof cases
    case redeem
    have "sound_wire e gw d v" if "w = Some v" for v
      using redeem(2) store_answers_backed(1) unfolding that by (intro grant_response_sound [OF sym]) assumption+
    then show ?thesis using redeem(1) by (auto simp: one_call_def split: option.splits)
  next
    case renew
    have "sound_wire e gw d v" if "w = Some v" for v
      using renew(2) store_answers_backed(2) unfolding that by (intro grant_response_sound [OF sym]) assumption+
    then show ?thesis using renew(1) by (auto simp: one_call_def split: option.splits)
  next
    case close
    then have "w = None" by (simp add: close_response_def split: sum.splits if_splits)
    then show ?thesis using close(1) by (auto simp: one_call_def)
  qed
qed


text \<open>The Gateway and the store accept the same tickets.\<close>

lemma validTicket_iff: "validTicket ticket \<longleftrightarrow> (\<exists>digest. gatewayTokenDigest ticket = Inr digest)"
  by (auto simp: validTicket_def gatewayTokenDigest_def split: option.splits)

definition ex_control_request :: http_request where
  "ex_control_request = \<lparr>rq_TLS = Some \<lparr>tls_HandshakeComplete = True, tls_Version = 0x0304, tls_VerifiedChains = 1,
       tls_PeerCertificates = [\<lparr>cert_Raw = ''leaf'', cert_NotBefore = 0, cert_NotAfter = 100\<rparr>]\<rparr>,
     rq_Host = ''control'', rq_Method = ''POST'', rq_Path = ControlRedeemPath, rq_RawPath = [], rq_RawQuery = [],
     rq_ForceQuery = False, rq_ContentLength = 60, rq_TransferEncoding = [],
     rq_Header = [(''Content-Type'', ''application/json'')],
     rq_Body = ''{'' @ [CHR 0x22] @ ''ticket'' @ [CHR 0x22, CHR '':'', CHR 0x22] @ ex_token @ [CHR 0x22, CHR ''}'']\<rparr>"

abbreviation ex_pins :: PeerPins where
  "ex_pins \<equiv> [(Sum256 ''leaf'', ex_gateway)]"

lemma ex_body: "singleStringBody ex_control_request ''ticket'' = Some ex_token"
proof -
  have len: "length ex_token = 47" unfolding ex_token_def by (rule length_token) simp
  have "list_all (\<lambda>c. json_plain c \<and> byte_of c < 128) ''ticket''" by code_simp
  moreover have "list_all (\<lambda>c. json_plain c \<and> byte_of c < 128) ex_token" unfolding ex_token_def by code_simp
  ultimately show ?thesis using len single_string_plain [of "''ticket''" ex_token]
    by (simp add: singleStringBody_def header_Get_def header_Values_def ex_control_request_def)
qed


end
