(* ===== verification/Ticket_Spec.thy ===== *)
theory Ticket_Spec
  imports Gateway_Laws
begin

text \<open>
  What the store promises about tickets, as a machine on its own: each ticket, known by the digest of its
  token, is issued once, then admitted to a tunnel, then closed.  The operations on the table implement it.
\<close>

section \<open>The specification\<close>

datatype ticket_phase = Issued | Tunnelled | Closed

type_synonym ticket_spec = "string \<Rightarrow> ticket_phase option"

inductive spec_step :: "ticket_spec \<Rightarrow> ticket_spec \<Rightarrow> bool" where
  idle: "spec_step m m"
| issue: "m x = None \<Longrightarrow> spec_step m (m(x \<mapsto> Issued))"
| admit: "m x = Some Issued \<Longrightarrow> spec_step m (m(x \<mapsto> Tunnelled))"
| shut: "m x = Some Tunnelled \<Longrightarrow> spec_step m (m(x \<mapsto> Closed))"

inductive_simps spec_step_iff: "spec_step m m'"

section \<open>The abstraction\<close>

definition phase_of :: "GatewayTicketRow \<Rightarrow> ticket_phase" where
  "phase_of g = (if t_consumed_at g = None then Issued else if t_closed_at g = None then Tunnelled else Closed)"

definition ticket_table :: "GatewayTicketRow list \<Rightarrow> ticket_spec" where
  "ticket_table t = map_of (map (\<lambda>g. (t_token_digest g, phase_of g)) t)"

definition ticket_abs :: "db \<Rightarrow> ticket_spec" where
  "ticket_abs d = ticket_table (gateway_session_tickets d)"

lemma table_member:
  assumes "unique_by t_token_digest t" "g \<in> set t"
  shows "ticket_table t (t_token_digest g) = Some (phase_of g)"
  unfolding ticket_table_def using assms by (intro map_of_is_SomeI) (auto simp: comp_def)

lemma table_absent: "t_token_digest g \<notin> t_token_digest ` set t \<Longrightarrow> ticket_table t (t_token_digest g) = None"
  unfolding ticket_table_def by (simp add: map_of_eq_None_iff image_image)

lemma table_append:
  assumes "t_token_digest g \<notin> t_token_digest ` set t"
  shows "ticket_table (t @ [g]) = (ticket_table t)(t_token_digest g \<mapsto> phase_of g)"
  using table_absent [OF assms] by (auto simp: ticket_table_def map_add_def split: option.splits)

lemma table_same_phase:
  assumes "\<And>g. g \<in> set t \<Longrightarrow> p g \<Longrightarrow> t_token_digest (f g) = t_token_digest g \<and> phase_of (f g) = phase_of g"
  shows "ticket_table (upd_where p f t) = ticket_table t"
  unfolding ticket_table_def upd_where_def map_map using assms by (intro arg_cong [of _ _ map_of] map_cong) auto

lemma table_Cons: "ticket_table (a # t) = (ticket_table t)(t_token_digest a \<mapsto> phase_of a)"
  by (simp add: ticket_table_def)

lemma table_update:
  assumes "unique_by t_token_digest t" "g \<in> set t" "p g" "\<And>q. q \<in> set t \<Longrightarrow> p q \<Longrightarrow> q = g"
    "t_token_digest (f g) = t_token_digest g"
  shows "ticket_table (upd_where p f t) = (ticket_table t)(t_token_digest g \<mapsto> phase_of (f g))"
  using assms
proof (induction t)
  case (Cons a t)
  have k: "t_token_digest a \<notin> t_token_digest ` set t" "unique_by t_token_digest t" using Cons.prems(1) by simp_all
  show ?case
  proof (cases "a = g")
    case True
    have "\<not> p q" if "q \<in> set t" for q
    proof
      assume "p q"
      then have "q = a" using Cons.prems(4) [of q] that True by simp
      then show False using k(1) that by blast
    qed
    then have "ticket_table (upd_where p f t) = ticket_table t" by (intro table_same_phase) blast
    then show ?thesis using True Cons.prems(3,5) by (intro ext) (simp add: upd_where_Cons table_Cons)
  next
    case False
    then have g: "g \<in> set t" using Cons.prems(2) by simp
    then have "t_token_digest a \<noteq> t_token_digest g" using k(1) by (metis image_eqI)
    moreover have "\<not> p a" using Cons.prems(4) [of a] False by auto
    moreover have "ticket_table (upd_where p f t) = (ticket_table t)(t_token_digest g \<mapsto> phase_of (f g))"
      by (rule Cons.IH [OF k(2) g Cons.prems(3) _ Cons.prems(5)]) (rule Cons.prems(4), simp_all)
    ultimately show ?thesis by (intro ext) (simp add: upd_where_Cons table_Cons)
  qed
qed simp

section \<open>The operations implement it\<close>

lemma inv_unique: "tickets_inv d \<Longrightarrow> unique_by t_token_digest (gateway_session_tickets d)"
  by (simp add: tickets_inv_def tickets_unique_def)

lemma unspent_not_closed: "ticket_check g \<Longrightarrow> t_consumed_at g = None \<Longrightarrow> t_closed_at g = None"
  by (auto simp: ticket_check_def ticket_spent_ok_def split: option.splits)

lemma create_refines:
  assumes "createNativeGatewayTicket entropy now stamp r d = Inr (t, d')" "tickets_inv d"
  shows "spec_step (ticket_abs d) (ticket_abs d')"
proof (rule create_ticket_Inr [OF assms(1)])
  fix revision deadline
  let ?g = "ticket_row stamp r (gt_Token t) revision deadline"
  assume rows: "gateway_session_tickets d' = gateway_session_tickets d @ [?g]" "tickets_unique (gateway_session_tickets d')"
  then have new: "t_token_digest ?g \<notin> t_token_digest ` set (gateway_session_tickets d)" by (auto simp: tickets_unique_def)
  have "phase_of ?g = Issued" by (simp add: phase_of_def ticket_row_def)
  then have "ticket_abs d' = (ticket_abs d)(t_token_digest ?g \<mapsto> Issued)" using table_append [OF new] rows(1) by (simp add: ticket_abs_def)
  then show ?thesis using table_absent [OF new] by (simp add: ticket_abs_def spec_step.issue)
qed

lemma redeem_refines:
  assumes "redeem_tx now stamp gw digest tun d = Inr (grant, d')" "tickets_inv d"
  shows "spec_step (ticket_abs d) (ticket_abs d')"
proof (rule redeem_tx_Inr [OF assms(1)])
  fix g rs d1
  let ?p = "redeemable stamp digest gw d" and ?f = "redeemed stamp tun d"
  assume u: "update_tickets ?p ?f d = Inr (rs, d1)" "gateway_session_tickets d' = gateway_session_tickets d1"
    "g \<in> set (gateway_session_tickets d)" "?p g"
  have rows: "gateway_session_tickets d' = upd_where ?p ?f (gateway_session_tickets d)" using u(1,2) by (simp add: update_tickets_Inr)
  have fresh: "t_consumed_at g = None" using u(4) by (simp add: redeemable_def)
  have "ticket_check g" using assms(2) u(3) by (simp add: tickets_inv_def list_all_iff)
  then have "phase_of (?f g) = Tunnelled" using unspent_not_closed fresh by (simp add: phase_of_def redeemed_def)
  moreover have "q = g" if "q \<in> set (gateway_session_tickets d)" "?p q" for q
    using that u(4) by (intro ticket_digest_unique [OF assms(2) that(1) u(3)]) (simp add: redeemable_def)
  ultimately have "ticket_abs d' = (ticket_abs d)(t_token_digest g \<mapsto> Tunnelled)"
    using table_update [OF inv_unique [OF assms(2)] u(3), of ?p ?f] u(4) by (simp add: ticket_abs_def rows redeemed_def)
  moreover have "ticket_abs d (t_token_digest g) = Some Issued"
    using table_member [OF inv_unique [OF assms(2)] u(3)] fresh by (simp add: ticket_abs_def phase_of_def)
  ultimately show ?thesis by (simp add: spec_step.admit)
qed

lemma renew_refines:
  assumes "renew_tx stamp gw tun d = Inr (grant, d')"
  shows "spec_step (ticket_abs d) (ticket_abs d')"
proof (rule renew_tx_Inr [OF assms])
  fix rs
  assume "update_tickets (renewable stamp tun gw d) (renewed stamp d) d = Inr (rs, d')"
  then have "gateway_session_tickets d' = upd_where (renewable stamp tun gw d) (renewed stamp d) (gateway_session_tickets d)"
    by (simp add: update_tickets_Inr)
  then have "ticket_abs d' = ticket_abs d" by (simp add: ticket_abs_def) (rule table_same_phase, simp add: renewed_def phase_of_def)
  then show ?thesis by (simp add: spec_step.idle)
qed

lemma close_refines:
  assumes "close_tx now stamp gw tun d = Inr (x, d')" "tickets_inv d"
  shows "spec_step (ticket_abs d) (ticket_abs d')"
proof -
  let ?p = "closable gw tun" and ?f = "\<lambda>g. g\<lparr>t_closed_at := Some stamp\<rparr>"
  have rows: "gateway_session_tickets d' = upd_where ?p ?f (gateway_session_tickets d)"
    using assms(1) by (auto simp: close_tx_def bindE_eq_Inr update_tickets_Inr)
  show ?thesis
  proof (cases "\<exists>g \<in> set (gateway_session_tickets d). ?p g")
    case True
    then obtain g where g: "g \<in> set (gateway_session_tickets d)" "?p g" by blast
    have "q = g" if "q \<in> set (gateway_session_tickets d)" "?p q" for q
      using that g(2) by (intro ticket_tunnel_unique [OF assms(2) that(1) g(1)]) (simp_all add: closable_def)
    moreover have "phase_of (?f g) = Closed" using g(2) by (auto simp: phase_of_def closable_def)
    ultimately have "ticket_abs d' = (ticket_abs d)(t_token_digest g \<mapsto> Closed)"
      using table_update [OF inv_unique [OF assms(2)] g(1), of ?p ?f] g(2) by (simp add: ticket_abs_def rows)
    moreover have "ticket_abs d (t_token_digest g) = Some Tunnelled"
      using table_member [OF inv_unique [OF assms(2)] g(1)] g(2) by (auto simp: ticket_abs_def phase_of_def closable_def)
    ultimately show ?thesis by (simp add: spec_step.shut)
  next
    case False
    then have "ticket_abs d' = ticket_abs d" by (simp add: ticket_abs_def rows) (rule table_same_phase, blast)
    then show ?thesis by (simp add: spec_step.idle)
  qed
qed

lemma run_tx_refines:
  assumes "\<And>x d'. body d = Inr (x, d') \<Longrightarrow> spec_step (ticket_abs d) (ticket_abs d')"
  shows "spec_step (ticket_abs d) (ticket_abs (fst (run_tx fault body d)))"
  by (rule run_tx_preserves) (use assms spec_step.idle in auto)

lemma gateway_step_refines:
  assumes "gateway_step d d'" "tickets_inv d"
  shows "spec_step (ticket_abs d) (ticket_abs d')"
  using assms
proof cases
  case (create fault entropy now stamp r)
  then show ?thesis using create_refines [OF _ assms(2)] by (auto simp: CreateNativeGatewayTicket_def intro!: run_tx_refines)
next
  case (complete fault entropy now stamp a r)
  have "spec_step (ticket_abs d) (ticket_abs d2)"
    if tx: "complete_native_tx now a (\<lambda>_. createNativeGatewayTicket entropy now stamp r) d = Inr (x, d2)" for x d2
  proof -
    obtain d1 where d1: "gateway_session_tickets d1 = gateway_session_tickets d"
        "createNativeGatewayTicket entropy now stamp r d1 = Inr (snd x, d2)"
      by (rule complete_native_tickets [of now a _ d "fst x" "snd x" d2]) (use tx in simp_all)
    have "tickets_inv d1" using d1(1) assms(2) by (simp add: tickets_inv_def)
    from create_refines [OF d1(2) this] show ?thesis by (simp add: ticket_abs_def d1(1))
  qed
  then show ?thesis
    using complete by (auto simp: CompleteNativeGuestGatewayConnection_def completeNativeGuestAccountOperation_def spec_step.idle intro!: run_tx_refines)
next
  case (redeem fault entropy now stamp gw token)
  then show ?thesis using redeem_refines [OF _ assms(2)]
    by (auto simp: RedeemNativeGatewayTicket_def spec_step.idle intro!: run_tx_refines split: sum.splits)
next
  case (renew fault stamp gw tun)
  then show ?thesis using renew_refines by (auto simp: RenewNativeGatewayGrant_def spec_step.idle intro!: run_tx_refines)
next
  case (close_tunnel fault now stamp gw tun)
  then show ?thesis using close_refines [OF _ assms(2)] by (auto simp: CloseNativeGatewayGrant_def spec_step.idle intro!: run_tx_refines)
next
  case other
  then show ?thesis by (simp add: ticket_abs_def spec_step.idle)
qed

text \<open>
  C3. The store implements the ticket machine.  Whatever sequence of operations it performs, with whatever
  faults of the driver, what happens to the tickets is a run of the specification: tickets are issued under
  fresh digests, admitted only when issued and not admitted before, closed only when admitted, and nothing
  else ever happens to one.
\<close>

theorem gateway_refines_spec:
  assumes "gateway_step\<^sup>*\<^sup>* d d'" "tickets_inv d"
  shows "spec_step\<^sup>*\<^sup>* (ticket_abs d) (ticket_abs d')"
  using assms(1)
proof (induction rule: rtranclp_induct)
  case (step d1 d2)
  have "tickets_inv d1" using gateway_steps_kept [OF step(1) assms(2)] by simp
  from gateway_step_refines [OF step(2) this] step(3) show ?case by (rule rtranclp.rtrancl_into_rtrancl [rotated])
qed simp

theorem gateway_refines_spec_witness:
  "spec_step\<^sup>*\<^sup>* (ticket_abs (ex_gateway_db [ex_ticket]))
     (ticket_abs (fst (RedeemNativeGatewayTicket NoFault (\<lambda>n. Some (replicate n (CHR 0x00))) 60 60 ex_gateway ex_token (ex_gateway_db [ex_ticket])))) \<and>
   ticket_abs (ex_gateway_db [ex_ticket]) (TokenDigest ex_token) = Some Issued \<and>
   ticket_abs (fst (RedeemNativeGatewayTicket NoFault (\<lambda>n. Some (replicate n (CHR 0x00))) 60 60 ex_gateway ex_token (ex_gateway_db [ex_ticket]))) (TokenDigest ex_token) =
     Some Tunnelled"
proof -
  let ?r = "RedeemNativeGatewayTicket NoFault (\<lambda>n. Some (replicate n (CHR 0x00))) 60 60 ex_gateway ex_token (ex_gateway_db [ex_ticket])"
  have "gateway_step\<^sup>*\<^sup>* (ex_gateway_db [ex_ticket]) (fst ?r)" by (rule r_into_rtranclp) (rule gateway_step.redeem)
  from gateway_refines_spec [OF this ex_tickets_inv(1)] have "spec_step\<^sup>*\<^sup>* (ticket_abs (ex_gateway_db [ex_ticket])) (ticket_abs (fst ?r))" .
  moreover have "gateway_session_tickets (fst ?r) = [ex_spent 5000060]" using ex_redeem by auto
  moreover have "gateway_session_tickets (ex_gateway_db [ex_ticket]) = [ex_ticket]" by (simp add: ex_gateway_db_def)
  ultimately show ?thesis by (simp add: ticket_abs_def ticket_table_def phase_of_def ex_spent_def ex_ticket_def)
qed

end
