(* ===== verification/Audit_Trail.thy ===== *)
theory Audit_Trail
  imports Connections
begin

text \<open>
  The audit trail (store.go): writing an event with its detail redacted and bounded, and reading pages.
  \<open>ulower\<close> is \<open>strings.ToLower\<close> beyond ASCII, \<open>sql_lower\<close> the database's \<open>lower\<close>.  A Go map is visited in no
  fixed order: \<open>visit\<close> arranges the fields of an object in the order of a \<open>range\<close> loop.
\<close>

section \<open>Sanitizing a detail\<close>

definition audit_fragments :: "string list" where
  "audit_fragments =
     [''password'', ''secret'', ''token'', ''authorization'', ''cookie'', ''credential'', ''product_key'', ''private_key'']"

definition auditKeyIsSensitive :: "(string \<Rightarrow> string) \<Rightarrow> string \<Rightarrow> bool" where
  "auditKeyIsSensitive ulower key =
     (let normalized = ToLower ulower (map (\<lambda>c. if c = CHR ''-'' then CHR ''_'' else c) key)
      in list_ex (\<lambda>fragment. Contains normalized fragment) audit_fragments)"

text \<open>Assignment to a key of a map.\<close>

fun put_field :: "string \<Rightarrow> 'v \<Rightarrow> (string \<times> 'v) list \<Rightarrow> (string \<times> 'v) list" where
  "put_field k v [] = [(k, v)]"
| "put_field k v ((q, w) # fs) = (if q = k then (k, v) # fs else (q, w) # put_field k v fs)"

function sanitizeAuditValue ::
  "(string \<Rightarrow> string) \<Rightarrow> ((string \<times> audit_value) list \<Rightarrow> (string \<times> audit_value) list) \<Rightarrow> audit_value \<Rightarrow> nat \<Rightarrow> audit_value" where
  "sanitizeAuditValue ulower visit value depth =
     (if depth \<ge> 5 then AText ''[TRUNCATED]''
      else case value of
             AObj fs \<Rightarrow>
               let seen = visit fs;
                   clean = map (\<lambda>(key, child). (key, if auditKeyIsSensitive ulower key then AText ''[REDACTED]''
                                                     else sanitizeAuditValue ulower visit child (depth + 1))) (take 64 seen)
               in AObj (if length seen > 64 then put_field ''truncated'' (ABool True) clean else clean)
           | AList xs \<Rightarrow> AList (map (\<lambda>child. sanitizeAuditValue ulower visit child (depth + 1)) (take 64 xs))
           | AText s \<Rightarrow> AText (if length s > 1024 then take 1024 s @ [CHR 0xE2, CHR 0x80, CHR 0xA6] else s)
           | v \<Rightarrow> v)"
  by pat_completeness auto
termination
  by (relation "measure (\<lambda>(_, _, _, depth). 5 - depth)") auto

declare sanitizeAuditValue.simps [simp del]

section \<open>JSON round trips\<close>

text \<open>\<open>json.Marshal\<close> replaces every byte that is not valid UTF-8.\<close>

definition json_coerce :: "string \<Rightarrow> string" where
  "json_coerce s =
     concat (map (\<lambda>r. if utf8_prefix r = Some (length r) then r else [CHR 0xEF, CHR 0xBF, CHR 0xBD]) (runes s))"

fun json_normal :: "audit_value \<Rightarrow> audit_value" where
  "json_normal (AText s) = AText (json_coerce s)"
| "json_normal (AList xs) = AList (map json_normal xs)"
| "json_normal (AObj fs) = AObj (fold (\<lambda>(k, v). put_field k v) (map (\<lambda>f. (json_coerce (fst f), json_normal (snd f))) fs) [])"
| "json_normal v = v"

fun json_nul_free :: "audit_value \<Rightarrow> bool" where
  "json_nul_free (AText s) = (CHR 0x00 \<notin> set s)"
| "json_nul_free (AList xs) = list_all json_nul_free xs"
| "json_nul_free (AObj fs) = list_all (\<lambda>f. CHR 0x00 \<notin> set (fst f) \<and> json_nul_free (snd f)) fs"
| "json_nul_free v = True"

section \<open>Writing\<close>

definition auditOutcome :: "string \<Rightarrow> string" where
  "auditOutcome eventType =
     (if HasSuffix eventType ''failed'' \<or> HasSuffix eventType ''rejected'' \<or> HasSuffix eventType ''denied''
      then ''failure'' else ''success'')"

definition audit_tx :: "time \<Rightarrow> string \<Rightarrow> string \<Rightarrow> string \<Rightarrow> string \<Rightarrow> audit_value \<Rightarrow> db \<Rightarrow> err + (unit \<times> db)" where
  "audit_tx now actorID eventType targetType targetID encoded d =
     bindE (guardE (SqlErr UntranslatableCharacter) (json_nul_free encoded)) (\<lambda>_.
       Inr ((), insert_audit now (nullif actorID) eventType (auditOutcome eventType) (nullif targetType) (nullif targetID) encoded d))"

definition Audit ::
  "(string \<Rightarrow> string) \<Rightarrow> ((string \<times> audit_value) list \<Rightarrow> (string \<times> audit_value) list) \<Rightarrow> tx_fault \<Rightarrow> time \<Rightarrow>
   string \<Rightarrow> string \<Rightarrow> string \<Rightarrow> string \<Rightarrow> audit_value \<Rightarrow> db \<Rightarrow> db \<times> (err + unit)" where
  "Audit ulower visit fault now actorID eventType targetType targetID detail d =
     (let encoded = json_normal (sanitizeAuditValue ulower visit (json_normal detail) 0)
      in run_tx fault (audit_tx now actorID eventType targetType targetID encoded) d)"

section \<open>Reading\<close>

record AuditEventQuery =
  aq_Limit :: int
  aq_Before :: int
  aq_Outcome :: string
  aq_Search :: string

record AuditEventView =
  av_ID :: int
  av_ActorID :: string
  av_ActorUsername :: string
  av_ActorDisplayName :: string
  av_EventType :: string
  av_Outcome :: string
  av_TargetType :: string
  av_TargetID :: string
  av_Detail :: audit_value
  av_OccurredAt :: time

record AuditEventPage =
  pg_Events :: "AuditEventView list"
  pg_NextCursor :: string

text \<open>The two outer joins, \<open>concat_ws\<close>, and the row as it is scanned.\<close>

definition actor_user :: "db \<Rightarrow> AuditEvent \<Rightarrow> User option" where
  "actor_user d e = (case ae_actor_id e of None \<Rightarrow> None | Some i \<Rightarrow> find (\<lambda>u. u_id u = i) (users d))"

definition actor_agent :: "db \<Rightarrow> AuditEvent \<Rightarrow> AgentPrincipal option" where
  "actor_agent d e = (case ae_actor_id e of None \<Rightarrow> None | Some i \<Rightarrow> find (\<lambda>a. ap_id a = i) (agent_principals d))"

fun concat_ws :: "char \<Rightarrow> string option list \<Rightarrow> string" where
  "concat_ws sep xs = Join sep (List.map_filter id xs)"

definition audit_text :: "db \<Rightarrow> AuditEvent \<Rightarrow> string" where
  "audit_text d e =
     concat_ws (CHR '' '')
       [Some (ae_event_type e), map_option u_username (actor_user d e), map_option u_display_name (actor_user d e),
        map_option ap_id (actor_agent d e), map_option ap_display_name (actor_agent d e), ae_target_type e, ae_target_id e]"

definition audit_view :: "db \<Rightarrow> AuditEvent \<Rightarrow> AuditEventView" where
  "audit_view d e =
     \<lparr>av_ID = ae_id e, av_ActorID = coalesce (ae_actor_id e),
      av_ActorUsername = (case actor_user d e of Some u \<Rightarrow> u_username u | None \<Rightarrow> coalesce (map_option ap_id (actor_agent d e))),
      av_ActorDisplayName = (case actor_user d e of Some u \<Rightarrow> u_display_name u | None \<Rightarrow> coalesce (map_option ap_display_name (actor_agent d e))),
      av_EventType = ae_event_type e, av_Outcome = ae_outcome e, av_TargetType = coalesce (ae_target_type e),
      av_TargetID = coalesce (ae_target_id e), av_Detail = ae_detail e, av_OccurredAt = ae_occurred_at e\<rparr>"

definition audit_match :: "(string \<Rightarrow> string) \<Rightarrow> AuditEventQuery \<Rightarrow> db \<Rightarrow> AuditEvent \<Rightarrow> bool" where
  "audit_match sql_lower q d e \<longleftrightarrow>
     (aq_Outcome q = [] \<or> ae_outcome e = aq_Outcome q) \<and>
     (aq_Search q = [] \<or> Contains (sql_lower (audit_text d e)) (sql_lower (aq_Search q))) \<and>
     (aq_Before q = 0 \<or> ae_id e < aq_Before q)"

definition audit_matches :: "(string \<Rightarrow> string) \<Rightarrow> AuditEventQuery \<Rightarrow> db \<Rightarrow> AuditEvent list" where
  "audit_matches sql_lower q d = order_by (desc_key ae_id) (filter (audit_match sql_lower q d) (audit_events d))"

definition audit_query_ok :: "AuditEventQuery \<Rightarrow> bool" where
  "audit_query_ok q \<longleftrightarrow>
     \<not> (aq_Limit q < 1 \<or> aq_Limit q > 100 \<or> aq_Before q < 0 \<or>
        (aq_Outcome q \<noteq> [] \<and> aq_Outcome q \<noteq> ''success'' \<and> aq_Outcome q \<noteq> ''failure''))"

definition AuditEvents :: "(string \<Rightarrow> string) \<Rightarrow> tx_fault \<Rightarrow> AuditEventQuery \<Rightarrow> db \<Rightarrow> err + AuditEventPage" where
  "AuditEvents sql_lower fault q d =
     (if \<not> audit_query_ok q then Inl (ErrMsg ''audit event query is invalid'')
      else run_query fault (\<lambda>d.
        let limit = nat (aq_Limit q);
            events = map (audit_view d) (take (limit + 1) (audit_matches sql_lower q d))
        in if length events > limit
           then Inr \<lparr>pg_Events = take limit events, pg_NextCursor = Itoa (av_ID (last (take limit events)))\<rparr>
           else Inr \<lparr>pg_Events = events, pg_NextCursor = []\<rparr>) d)"

section \<open>Nothing sensitive, nothing unbounded\<close>

text \<open>
  What a sanitized value looks like: at most \<open>n\<close> levels, at most 64 elements and 65 fields each (the mark of
  a cut object counts), short texts, and no value under a sensitive key.
\<close>

fun audit_safe :: "(string \<Rightarrow> string) \<Rightarrow> nat \<Rightarrow> audit_value \<Rightarrow> bool" where
  "audit_safe ulower n (AText s) = (length s \<le> 1027)"
| "audit_safe ulower (Suc n) (AList xs) = (length xs \<le> 64 \<and> list_all (audit_safe ulower n) xs)"
| "audit_safe ulower (Suc n) (AObj fs) =
     (length fs \<le> 65 \<and>
      list_all (\<lambda>f. (auditKeyIsSensitive ulower (fst f) \<longrightarrow> snd f = AText ''[REDACTED]'') \<and> audit_safe ulower n (snd f)) fs)"
| "audit_safe ulower 0 (AList xs) = False"
| "audit_safe ulower 0 (AObj fs) = False"
| "audit_safe ulower n v = True"

lemma put_field_length: "length (put_field k v fs) \<le> Suc (length fs)"
  by (induction k v fs rule: put_field.induct) auto

lemma put_field_set: "set (put_field k v fs) \<subseteq> insert (k, v) (set fs)"
  by (induction k v fs rule: put_field.induct) auto

lemma truncated_not_sensitive: "\<not> auditKeyIsSensitive ulower ''truncated''"
  by (simp add: auditKeyIsSensitive_def ToLower_def is_ascii_def ascii_lower_def is_upper_def in_range_def audit_fragments_def
      HasPrefix_def)

lemma sanitize_safe: "audit_safe ulower (5 - depth) (sanitizeAuditValue ulower visit v depth)"
proof (induction ulower visit v depth rule: sanitizeAuditValue.induct)
  case (1 ulower visit v depth)
  let ?r = "sanitizeAuditValue ulower visit v depth"
  show ?case
  proof (cases "depth \<ge> 5")
    case True
    then show ?thesis by (subst sanitizeAuditValue.simps) simp
  next
    case False
    then obtain n where n: "5 - depth = Suc n" "5 - (depth + 1) = n" by (cases "5 - depth") auto
    show ?thesis
    proof (cases v)
      case (AObj fs)
      let ?f = "\<lambda>(key, child). (key, if auditKeyIsSensitive ulower key then AText ''[REDACTED]'' else sanitizeAuditValue ulower visit child (depth + 1))"
      let ?clean = "map ?f (take 64 (visit fs))"
      let ?fs = "if length (visit fs) > 64 then put_field ''truncated'' (ABool True) ?clean else ?clean"
      let ?ok = "\<lambda>f. (auditKeyIsSensitive ulower (fst f) \<longrightarrow> snd f = AText ''[REDACTED]'') \<and> audit_safe ulower n (snd f)"
      have r: "?r = AObj ?fs" using False AObj by (subst sanitizeAuditValue.simps) (simp add: Let_def)
      have "?ok (?f (key, child))" if "(key, child) \<in> set (take 64 (visit fs))" for key child
        using 1(2) [OF False AObj refl that refl] n(2) by (cases n) auto
      then have "\<forall>f\<in>set ?clean. ?ok f" by auto
      moreover have "?ok (''truncated'', ABool True)" using truncated_not_sensitive by (cases n) auto
      ultimately have "\<forall>f\<in>set ?fs. ?ok f" using put_field_set [of "''truncated''" "ABool True" ?clean] by auto
      moreover have "length ?fs \<le> 65" using put_field_length [of "''truncated''" "ABool True" ?clean] by auto
      ultimately show ?thesis unfolding r n(1) by (simp only: audit_safe.simps list_all_iff simp_thms)
    next
      case (AList xs)
      have "?r = AList (map (\<lambda>child. sanitizeAuditValue ulower visit child (depth + 1)) (take 64 xs))"
        using False AList by (subst sanitizeAuditValue.simps) simp
      then show ?thesis using 1(1) [OF False AList] n by (auto simp: list_all_iff)
    next
      case (AText s)
      then show ?thesis using False by (subst sanitizeAuditValue.simps) simp
    qed (use False n in \<open>subst sanitizeAuditValue.simps, simp\<close>)+
  qed
qed

text \<open>
  C31. Whatever detail an event is given and in whatever order its maps are visited, the value that is kept has
  at most five levels, bounded lists, objects and texts, and under a key that names a password, secret,
  token, cookie, credential or key it holds nothing but the mark of redaction.
\<close>

theorem sanitizeAuditValue_safe: "audit_safe ulower 5 (sanitizeAuditValue ulower visit v 0)"
  using sanitize_safe [of ulower 0 visit v] by simp

section \<open>Pages\<close>

text \<open>Event identifiers come from a sequence.\<close>

definition audit_wf :: "db \<Rightarrow> bool" where
  "audit_wf d \<longleftrightarrow> unique_by ae_id (audit_events d) \<and> list_all (\<lambda>e. 0 < ae_id e \<and> ae_id e \<le> max_int64) (audit_events d)"

lemma strict_desc:
  assumes "sorted_wrt (desc_key k) xs" "unique_by k xs"
  shows "sorted_wrt (\<lambda>a b. k b < k a) xs"
  using assms
proof (induction xs)
  case (Cons x xs)
  have "k y < k x" if "y \<in> set xs" for y
  proof -
    have "k y \<le> k x" using Cons.prems(1) that by (simp add: desc_key_def)
    moreover have "k y \<noteq> k x" using Cons.prems(2) imageI [OF that, of k] by auto
    ultimately show ?thesis by simp
  qed
  then show ?case using Cons by simp
qed simp

text \<open>A strictly descending list is determined by its set.\<close>

lemma desc_unique:
  assumes "sorted_wrt (\<lambda>a b. k b < (k a :: int)) xs" "sorted_wrt (\<lambda>a b. k b < k a) ys" "set xs = set ys"
  shows "xs = ys"
  using assms
proof (induction xs arbitrary: ys)
  case (Cons x xs)
  then obtain y ys' where ys: "ys = y # ys'" by (cases ys) auto
  have "x = y"
  proof (rule ccontr)
    assume "x \<noteq> y"
    then have "x \<in> set ys'" "y \<in> set xs" using Cons.prems(3) ys by auto
    then have "k x < k y" "k y < k x" using Cons.prems(1,2) ys by auto
    then show False by simp
  qed
  moreover have "x \<notin> set xs" "y \<notin> set ys'" using Cons.prems(1,2) ys by auto
  ultimately have "set xs = set ys'" using Cons.prems(3) ys by auto
  with Cons ys \<open>x = y\<close> show ?case by simp
qed simp

lemma audit_matches_desc:
  assumes "audit_wf d"
  shows "sorted_wrt (\<lambda>a b. ae_id b < ae_id a) (audit_matches sql_lower q d)"
proof (rule strict_desc)
  show "sorted_wrt (desc_key ae_id) (audit_matches sql_lower q d)"
    unfolding audit_matches_def by (rule sorted_order_by) (rule total_preorder_desc_key)
  show "unique_by ae_id (audit_matches sql_lower q d)"
    unfolding audit_matches_def using assms by (intro unique_by_order_by) (simp add: audit_wf_def distinct_map_filter)
qed

lemma audit_matches_after:
  assumes "audit_wf d" "0 < n" "n < length (audit_matches sql_lower q d)"
    "c = ae_id (audit_matches sql_lower q d ! (n - 1))"
  shows "audit_matches sql_lower (q\<lparr>aq_Before := c\<rparr>) d = drop n (audit_matches sql_lower q d)"
proof (rule desc_unique [of ae_id])
  let ?all = "audit_matches sql_lower q d"
  have desc: "sorted_wrt (\<lambda>a b. ae_id b < ae_id a) ?all" by (rule audit_matches_desc [OF assms(1)])
  show "sorted_wrt (\<lambda>a b. ae_id b < ae_id a) (audit_matches sql_lower (q\<lparr>aq_Before := c\<rparr>) d)" by (rule audit_matches_desc [OF assms(1)])
  show "sorted_wrt (\<lambda>a b. ae_id b < ae_id a) (drop n ?all)" using desc by (rule sorted_wrt_drop)
  have mem: "?all ! (n - 1) \<in> set ?all" using assms(2,3) by simp
  then have c: "0 < c" using assms(1,4) by (auto simp: audit_matches_def audit_wf_def list_all_iff)
  have "aq_Before q = 0 \<or> c < aq_Before q" using mem assms(4) by (auto simp: audit_matches_def audit_match_def)
  then have "set (audit_matches sql_lower (q\<lparr>aq_Before := c\<rparr>) d) = {e \<in> set ?all. ae_id e < c}"
    using c by (auto simp: audit_matches_def audit_match_def)
  also have "\<dots> = set (drop n ?all)"
  proof (intro set_eqI iffI)
    fix e assume "e \<in> {e \<in> set ?all. ae_id e < c}"
    then obtain i where i: "i < length ?all" "e = ?all ! i" "ae_id (?all ! i) < c" by (auto simp: in_set_conv_nth)
    have "\<not> i < n"
    proof
      assume "i < n"
      then have "i = n - 1 \<or> ae_id (?all ! (n - 1)) < ae_id (?all ! i)"
        using desc assms(3) unfolding sorted_wrt_iff_nth_less by (cases "i = n - 1") auto
      then show False using i(3) assms(4) by auto
    qed
    then have "e = drop n ?all ! (i - n)" "i - n < length (drop n ?all)" using i(1,2) by auto
    then show "e \<in> set (drop n ?all)" by (metis nth_mem)
  next
    fix e assume "e \<in> set (drop n ?all)"
    then obtain i where "i < length (drop n ?all)" "e = drop n ?all ! i" unfolding in_set_conv_nth by blast
    then have i: "n + i < length ?all" "e = ?all ! (n + i)" using assms(3) by auto
    then have "ae_id (?all ! (n + i)) < ae_id (?all ! (n - 1))" using desc assms(2) by (auto simp: sorted_wrt_iff_nth_less)
    then show "e \<in> {e \<in> set ?all. ae_id e < c}" using i assms(4) by auto
  qed
  finally show "set (audit_matches sql_lower (q\<lparr>aq_Before := c\<rparr>) d) = set (drop n ?all)" .
qed

text \<open>
  C32. Pages neither lose nor repeat an event: a page holds the newest matching events up to its limit, it has
  no cursor exactly when there are no more, and with the cursor as the next bound the query continues with
  exactly the events that follow.
\<close>

theorem AuditEvents_pages:
  assumes "audit_wf d" "AuditEvents sql_lower fault q d = Inr page"
  shows "pg_Events page = map (audit_view d) (take (nat (aq_Limit q)) (audit_matches sql_lower q d)) \<and>
    (pg_NextCursor page = [] \<longleftrightarrow> length (audit_matches sql_lower q d) \<le> nat (aq_Limit q)) \<and>
    (pg_NextCursor page \<noteq> [] \<longrightarrow>
       (\<exists>c. Atoi (pg_NextCursor page) = Some c \<and> 0 < c \<and>
          audit_matches sql_lower (q\<lparr>aq_Before := c\<rparr>) d = drop (nat (aq_Limit q)) (audit_matches sql_lower q d)))"
proof -
  let ?n = "nat (aq_Limit q)" and ?all = "audit_matches sql_lower q d"
  have ok: "audit_query_ok q" using assms(2) by (auto simp: AuditEvents_def split: if_splits)
  then have n: "0 < ?n" by (auto simp: audit_query_ok_def)
  show ?thesis
  proof (cases "length ?all \<le> ?n")
    case True
    then have "page = \<lparr>pg_Events = map (audit_view d) ?all, pg_NextCursor = []\<rparr>"
      using assms(2) ok by (auto simp: AuditEvents_def run_query_def Let_def split: if_splits)
    then show ?thesis using True by simp
  next
    case False
    let ?c = "ae_id (?all ! (?n - 1))"
    have last: "av_ID (last (map (audit_view d) (take ?n ?all))) = ?c"
    proof -
      have "take ?n ?all \<noteq> []" using False n by auto
      then show ?thesis using False n by (simp add: last_map last_conv_nth audit_view_def min_absorb1)
    qed
    have page: "page = \<lparr>pg_Events = map (audit_view d) (take ?n ?all), pg_NextCursor = Itoa ?c\<rparr>"
      using assms(2) ok False last by (auto simp: AuditEvents_def run_query_def Let_def take_map min_absorb1 split: if_splits)
    have "?all ! (?n - 1) \<in> set ?all" using False n by simp
    then have c: "0 < ?c" "?c \<le> max_int64" using assms(1) by (auto simp: audit_matches_def audit_wf_def list_all_iff)
    have "Itoa ?c \<noteq> []" by (simp add: Itoa_def)
    moreover have "Atoi (Itoa ?c) = Some ?c" using c by (intro Atoi_Itoa) simp_all
    moreover have "audit_matches sql_lower (q\<lparr>aq_Before := ?c\<rparr>) d = drop ?n ?all"
      using False n by (intro audit_matches_after [OF assms(1)]) simp_all
    ultimately show ?thesis using False c(1) by (simp add: page)
  qed
qed

definition ex_event :: "int \<Rightarrow> AuditEvent" where
  "ex_event i = \<lparr>ae_id = i, ae_actor_id = None, ae_event_type = ''auth.login'', ae_outcome = ''success'', ae_target_type = None,
     ae_target_id = None, ae_detail = AObj [], ae_occurred_at = i\<rparr>"

theorem AuditEvents_pages_witness:
  "\<exists>page. AuditEvents id NoFault \<lparr>aq_Limit = 2, aq_Before = 0, aq_Outcome = [], aq_Search = []\<rparr>
       (empty_db\<lparr>audit_events := [ex_event 1, ex_event 2, ex_event 3]\<rparr>) = Inr page \<and>
     map av_ID (pg_Events page) = [3, 2] \<and> pg_NextCursor page = ''2''"
proof -
  let ?d = "empty_db\<lparr>audit_events := [ex_event 1, ex_event 2, ex_event 3]\<rparr>"
    and ?q = "\<lparr>aq_Limit = 2, aq_Before = 0, aq_Outcome = [], aq_Search = []\<rparr>"
  have all: "audit_matches id ?q ?d = [ex_event 3, ex_event 2, ex_event 1]"
    by (simp add: audit_matches_def audit_match_def order_by_def desc_key_def ex_event_def)
  have "Itoa 2 = ''2''" by code_simp
  then obtain page where p: "AuditEvents id NoFault ?q ?d = Inr page" "pg_NextCursor page = ''2''"
    using all by (simp add: AuditEvents_def audit_query_ok_def run_query_def audit_view_def ex_event_def)
  have "audit_wf ?d" by (simp add: audit_wf_def ex_event_def)
  from AuditEvents_pages [OF this p(1)] p all show ?thesis
    by (simp add: audit_view_def) (simp add: ex_event_def)
qed

end
