(* ===== verification/Computer_Protocol.thy ===== *)
theory Computer_Protocol
  imports Audit_Trail "HOL-Library.Multiset"
begin

text \<open>
  Requests to the computer helper inside a Guest (src/internal/computer/protocol.go): their data, defaults,
  validation and the detail that goes into the audit trail.  A nil pointer is \<open>None\<close>; reading through one
  gives no value.
\<close>

section \<open>Data\<close>

definition SchemaVersion :: int where "SchemaVersion = 1"

text \<open>\<open>ErrInvalid\<close> with the text it is wrapped in.\<close>

datatype computer_err = ErrInvalid string

definition OperationScreenshot :: string where "OperationScreenshot = ''screenshot''"
definition OperationAccessibility :: string where "OperationAccessibility = ''accessibility_snapshot''"
definition OperationMouse :: string where "OperationMouse = ''mouse''"
definition OperationKey :: string where "OperationKey = ''key''"
definition OperationTypeText :: string where "OperationTypeText = ''type_text''"

lemmas operation_defs = OperationScreenshot_def OperationAccessibility_def OperationMouse_def OperationKey_def OperationTypeText_def

record Screenshot =
  ss_MaxWidth :: int

record Accessibility =
  ac_MaxDepth :: int
  ac_MaxNodes :: int

record Mouse =
  mo_Action :: string
  mo_X :: int
  mo_Y :: int
  mo_Button :: string
  mo_DeltaX :: int
  mo_DeltaY :: int

record Key =
  ky_Key :: string
  ky_Modifiers :: "string list"

record Text =
  tx_Value :: string
  tx_Sensitive :: bool

record Request =
  cr_SchemaVersion :: int
  cr_RequestID :: string
  cr_LeaseID :: string
  cr_ControlEpoch :: int
  cr_ExpiresUnixMS :: int
  cr_Operation :: string
  cr_Screenshot :: "Screenshot option"
  cr_Accessibility :: "Accessibility option"
  cr_Mouse :: "Mouse option"
  cr_Key :: "Key option"
  cr_Text :: "Text option"

section \<open>Defaults and validation\<close>

definition ApplyDefaults :: "Request \<Rightarrow> Request" where
  "ApplyDefaults r =
     r\<lparr>cr_SchemaVersion := (if cr_SchemaVersion r = 0 then SchemaVersion else cr_SchemaVersion r),
       cr_Screenshot := map_option (\<lambda>s. if ss_MaxWidth s = 0 then s\<lparr>ss_MaxWidth := 1600\<rparr> else s) (cr_Screenshot r),
       cr_Accessibility := map_option (\<lambda>a. a\<lparr>ac_MaxDepth := (if ac_MaxDepth a = 0 then 6 else ac_MaxDepth a),
                                              ac_MaxNodes := (if ac_MaxNodes a = 0 then 300 else ac_MaxNodes a)\<rparr>) (cr_Accessibility r)\<rparr>"

definition oneOf :: "string \<Rightarrow> string list \<Rightarrow> bool" where
  "oneOf candidate allowed = list_ex (\<lambda>a. candidate = a) allowed"

definition validateMouse :: "Mouse option \<Rightarrow> computer_err option" where
  "validateMouse input =
     (case input of
        None \<Rightarrow> Some (ErrInvalid ''mouse payload is required'')
      | Some m \<Rightarrow>
          if mo_Action m = ''move'' then
            if mo_X m < 0 \<or> mo_X m > 16384 \<or> mo_Y m < 0 \<or> mo_Y m > 16384
            then Some (ErrInvalid ''mouse coordinates are outside the allowed range'') else None
          else if mo_Action m = ''click'' then
            if mo_X m < 0 \<or> mo_X m > 16384 \<or> mo_Y m < 0 \<or> mo_Y m > 16384 \<or> \<not> oneOf (mo_Button m) [''left'', ''right'', ''middle'']
            then Some (ErrInvalid ''mouse click is invalid'') else None
          else if mo_Action m = ''scroll'' then
            if mo_DeltaX m < - 100 \<or> mo_DeltaX m > 100 \<or> mo_DeltaY m < - 100 \<or> mo_DeltaY m > 100 \<or> (mo_DeltaX m = 0 \<and> mo_DeltaY m = 0)
            then Some (ErrInvalid ''mouse scroll delta is invalid'') else None
          else Some (ErrInvalid ''unsupported mouse action''))"

definition named_keys :: "string list" where
  "named_keys =
     [''enter'', ''escape'', ''tab'', ''backspace'', ''delete'', ''space'', ''up'', ''down'', ''left'', ''right'', ''home'', ''end'',
      ''page_up'', ''page_down'', ''f1'', ''f2'', ''f3'', ''f4'', ''f5'', ''f6'', ''f7'', ''f8'', ''f9'', ''f10'', ''f11'', ''f12'']"

definition key_modifiers :: "string list" where
  "key_modifiers = [''control'', ''alt'', ''shift'', ''meta'']"

text \<open>The loop over the modifiers, with those already seen.\<close>

fun modifiers_ok :: "(string \<Rightarrow> string) \<Rightarrow> string list \<Rightarrow> string list \<Rightarrow> bool" where
  "modifiers_ok ulower seen [] = True"
| "modifiers_ok ulower seen (m # ms) =
     (let modifier = ToLower ulower m
      in if \<not> oneOf modifier key_modifiers \<or> modifier \<in> set seen then False else modifiers_ok ulower (modifier # seen) ms)"

definition shortcut_key :: "string \<Rightarrow> string list \<Rightarrow> bool" where
  "shortcut_key k ms \<longleftrightarrow> (case k of [c] \<Rightarrow> is_lower c \<or> is_digit c | _ \<Rightarrow> False) \<and> length ms > 0"

definition validateKey :: "(string \<Rightarrow> string) \<Rightarrow> Key option \<Rightarrow> computer_err option" where
  "validateKey ulower input =
     (case input of
        None \<Rightarrow> Some (ErrInvalid ''unsupported key'')
      | Some k \<Rightarrow>
          let normalizedKey = ToLower ulower (ky_Key k) in
          if \<not> oneOf normalizedKey named_keys \<and> \<not> shortcut_key normalizedKey (ky_Modifiers k)
          then Some (ErrInvalid ''unsupported key'')
          else if \<not> modifiers_ok ulower [] (ky_Modifiers k)
          then Some (ErrInvalid ''unsupported or duplicate key modifier'') else None)"

definition payloads :: "Request \<Rightarrow> nat" where
  "payloads r =
     length (filter (\<lambda>present. present)
       [cr_Screenshot r \<noteq> None, cr_Accessibility r \<noteq> None, cr_Mouse r \<noteq> None, cr_Key r \<noteq> None, cr_Text r \<noteq> None])"

definition request_header_ok :: "Request \<Rightarrow> bool" where
  "request_header_ok r \<longleftrightarrow>
     \<not> (cr_SchemaVersion r \<noteq> SchemaVersion \<or> \<not> matches_class ''action_'' is_token_char 20 80 (cr_RequestID r) \<or>
        \<not> HasPrefix (cr_LeaseID r) ''lease_'' \<or> cr_ControlEpoch r < 1)"

definition expiry_ok :: "time \<Rightarrow> Request \<Rightarrow> bool" where
  "expiry_ok now r \<longleftrightarrow>
     (let expiresAt = cr_ExpiresUnixMS r * 1000
      in \<not> (cr_ExpiresUnixMS r \<le> 0 \<or> \<not> expiresAt > now \<or> expiresAt > now + seconds 20))"

definition validateOperation :: "(string \<Rightarrow> string) \<Rightarrow> Request \<Rightarrow> computer_err option" where
  "validateOperation ulower r =
     (if cr_Operation r = OperationScreenshot then
        (case cr_Screenshot r of
           None \<Rightarrow> Some (ErrInvalid ''screenshot max_width must be 320-3840'')
         | Some s \<Rightarrow> if ss_MaxWidth s < 320 \<or> ss_MaxWidth s > 3840 then Some (ErrInvalid ''screenshot max_width must be 320-3840'') else None)
      else if cr_Operation r = OperationAccessibility then
        (case cr_Accessibility r of
           None \<Rightarrow> Some (ErrInvalid ''accessibility bounds are invalid'')
         | Some a \<Rightarrow> if ac_MaxDepth a < 1 \<or> ac_MaxDepth a > 10 \<or> ac_MaxNodes a < 1 \<or> ac_MaxNodes a > 500
                     then Some (ErrInvalid ''accessibility bounds are invalid'') else None)
      else if cr_Operation r = OperationMouse then validateMouse (cr_Mouse r)
      else if cr_Operation r = OperationKey then validateKey ulower (cr_Key r)
      else if cr_Operation r = OperationTypeText then
        (case cr_Text r of
           None \<Rightarrow> Some (ErrInvalid ''text must contain 1-4096 UTF-8 bytes and no NUL'')
         | Some t \<Rightarrow> if tx_Value t = [] \<or> length (tx_Value t) > 4096 \<or> CHR 0x00 \<in> set (tx_Value t)
                     then Some (ErrInvalid ''text must contain 1-4096 UTF-8 bytes and no NUL'') else None)
      else Some (ErrInvalid ''unsupported operation''))"

definition Validate :: "(string \<Rightarrow> string) \<Rightarrow> time \<Rightarrow> Request \<Rightarrow> computer_err option" where
  "Validate ulower now r =
     (if \<not> request_header_ok r then Some (ErrInvalid [])
      else if \<not> expiry_ok now r then Some (ErrInvalid ''expiry is outside the allowed action window'')
      else if payloads r \<noteq> 1 then Some (ErrInvalid ''exactly one operation payload is required'')
      else validateOperation ulower r)"

section \<open>The audit detail\<close>

definition mouse_detail :: "Mouse \<Rightarrow> (string \<times> audit_value) list" where
  "mouse_detail m =
     (''action'', AText (mo_Action m)) #
     (if mo_Action m = ''move'' \<or> mo_Action m = ''click'' then [(''x'', AInt (mo_X m)), (''y'', AInt (mo_Y m))] else []) @
     (if mo_Action m = ''click'' then [(''button'', AText (mo_Button m))] else []) @
     (if mo_Action m = ''scroll'' then [(''delta_x'', AInt (mo_DeltaX m)), (''delta_y'', AInt (mo_DeltaY m))] else [])"

definition operation_detail :: "(string \<Rightarrow> string) \<Rightarrow> Request \<Rightarrow> (string \<times> audit_value) list option" where
  "operation_detail ulower r =
     (if cr_Operation r = OperationScreenshot then
        map_option (\<lambda>s. [(''max_width'', AInt (ss_MaxWidth s))]) (cr_Screenshot r)
      else if cr_Operation r = OperationAccessibility then
        map_option (\<lambda>a. [(''max_depth'', AInt (ac_MaxDepth a)), (''max_nodes'', AInt (ac_MaxNodes a))]) (cr_Accessibility r)
      else if cr_Operation r = OperationMouse then map_option mouse_detail (cr_Mouse r)
      else if cr_Operation r = OperationKey then
        map_option (\<lambda>k. [(''key'', AText (ToLower ulower (ky_Key k))),
                         (''modifiers'', AList (map (\<lambda>m. AText (ToLower ulower m)) (ky_Modifiers k)))]) (cr_Key r)
      else if cr_Operation r = OperationTypeText then
        map_option (\<lambda>t. [(''text_bytes'', AInt (int (length (tx_Value t)))), (''sensitive'', ABool (tx_Sensitive t))]) (cr_Text r)
      else Some [])"

definition AuditDetail :: "(string \<Rightarrow> string) \<Rightarrow> Request \<Rightarrow> audit_value option" where
  "AuditDetail ulower r =
     map_option (\<lambda>fs. AObj ([(''operation'', AText (cr_Operation r)), (''control_epoch'', AInt (cr_ControlEpoch r))] @ fs))
       (operation_detail ulower r)"

section \<open>Validated requests\<close>

text \<open>The payload is the one of the operation and the only one.\<close>

definition well_typed :: "Request \<Rightarrow> bool" where
  "well_typed r \<longleftrightarrow>
     cr_Operation r \<in> set [OperationScreenshot, OperationAccessibility, OperationMouse, OperationKey, OperationTypeText] \<and>
     (cr_Screenshot r \<noteq> None) = (cr_Operation r = OperationScreenshot) \<and>
     (cr_Accessibility r \<noteq> None) = (cr_Operation r = OperationAccessibility) \<and>
     (cr_Mouse r \<noteq> None) = (cr_Operation r = OperationMouse) \<and>
     (cr_Key r \<noteq> None) = (cr_Operation r = OperationKey) \<and>
     (cr_Text r \<noteq> None) = (cr_Operation r = OperationTypeText)"

lemma operations_distinct [simp]:
  "distinct [OperationScreenshot, OperationAccessibility, OperationMouse, OperationKey, OperationTypeText]"
  by (simp add: operation_defs)

lemma ValidateD:
  assumes "Validate ulower now r = None"
  shows "request_header_ok r" "expiry_ok now r" "payloads r = 1" "validateOperation ulower r = None"
  using assms by (auto simp: Validate_def split: if_splits)

lemma validated_payload:
  assumes "validateOperation ulower r = None"
  shows "(cr_Operation r = OperationScreenshot \<and> cr_Screenshot r \<noteq> None) \<or>
    (cr_Operation r = OperationAccessibility \<and> cr_Accessibility r \<noteq> None) \<or> (cr_Operation r = OperationMouse \<and> cr_Mouse r \<noteq> None) \<or>
    (cr_Operation r = OperationKey \<and> cr_Key r \<noteq> None) \<or> (cr_Operation r = OperationTypeText \<and> cr_Text r \<noteq> None)"
  using assms unfolding validateOperation_def validateMouse_def validateKey_def by (auto split: if_splits option.splits)

lemma validated_typed:
  assumes "Validate ulower now r = None"
  shows "well_typed r"
  using validated_payload [OF ValidateD(4) [OF assms]] ValidateD(3) [OF assms] operations_distinct
  unfolding well_typed_def payloads_def by (auto split: if_splits)

lemma typed_detail: "well_typed r \<Longrightarrow> \<exists>fs. operation_detail ulower r = Some fs"
  unfolding well_typed_def operation_detail_def by (auto split: if_splits)

text \<open>
  C37. A request that passes validation is well typed: it carries the payload of its operation and no other,
  so the audit detail is computed without touching a missing payload; it belongs to a lease and a positive
  epoch, and it expires within the next twenty seconds.  The detail tells of a typed text only how long it is
  and whether it is sensitive: another text of the same length gives the same detail.
\<close>

theorem Validate_typed:
  assumes "Validate ulower now r = None"
  shows "well_typed r \<and> (\<exists>v. AuditDetail ulower r = Some v) \<and>
    HasPrefix (cr_LeaseID r) ''lease_'' \<and> 1 \<le> cr_ControlEpoch r \<and>
    now < cr_ExpiresUnixMS r * 1000 \<and> cr_ExpiresUnixMS r * 1000 \<le> now + seconds 20 \<and>
    (\<forall>t s. cr_Text r = Some t \<longrightarrow> length s = length (tx_Value t) \<longrightarrow>
       AuditDetail ulower (r\<lparr>cr_Text := Some (t\<lparr>tx_Value := s\<rparr>)\<rparr>) = AuditDetail ulower r)"
proof -
  have "\<exists>v. AuditDetail ulower r = Some v" using typed_detail [OF validated_typed [OF assms], of ulower] by (auto simp: AuditDetail_def)
  moreover have "AuditDetail ulower (r\<lparr>cr_Text := Some (t\<lparr>tx_Value := s\<rparr>)\<rparr>) = AuditDetail ulower r"
    if "cr_Text r = Some t" "length s = length (tx_Value t)" for t s
    using that by (simp add: AuditDetail_def operation_detail_def)
  ultimately show ?thesis using validated_typed [OF assms] ValidateD(1,2) [OF assms]
    by (simp add: request_header_ok_def expiry_ok_def Let_def)
qed

section \<open>The detail in the audit trail\<close>

text \<open>A field that sanitizing keeps as it is.\<close>

definition clean_field :: "(string \<Rightarrow> string) \<Rightarrow> ((string \<times> audit_value) list \<Rightarrow> (string \<times> audit_value) list) \<Rightarrow> string \<times> audit_value \<Rightarrow> bool" where
  "clean_field ulower visit f \<longleftrightarrow> \<not> auditKeyIsSensitive ulower (fst f) \<and> sanitizeAuditValue ulower visit (snd f) 1 = snd f"

lemma sanitize_clean:
  assumes "list_all (clean_field ulower visit) fs" "length fs \<le> 64" "mset (visit fs) = mset fs"
  shows "sanitizeAuditValue ulower visit (AObj fs) 0 = AObj (visit fs)"
proof -
  have len: "length (visit fs) = length fs" using assms(3) mset_eq_length by blast
  have "map (\<lambda>(key, child). (key, if auditKeyIsSensitive ulower key then AText ''[REDACTED]''
      else sanitizeAuditValue ulower visit child (0 + 1))) (visit fs) = visit fs"
    using assms(1) mset_eq_setD [OF assms(3)] by (intro map_idI) (auto simp: list_all_iff clean_field_def)
  then show ?thesis using len assms(2) by (subst sanitizeAuditValue.simps) (simp add: Let_def)
qed

lemma clean_int: "\<not> auditKeyIsSensitive ulower k \<Longrightarrow> clean_field ulower visit (k, AInt i)"
  by (simp add: clean_field_def sanitizeAuditValue.simps)

lemma clean_bool: "\<not> auditKeyIsSensitive ulower k \<Longrightarrow> clean_field ulower visit (k, ABool b)"
  by (simp add: clean_field_def sanitizeAuditValue.simps)

lemma clean_text: "\<not> auditKeyIsSensitive ulower k \<Longrightarrow> length s \<le> 1024 \<Longrightarrow> clean_field ulower visit (k, AText s)"
  by (simp add: clean_field_def sanitizeAuditValue.simps)

lemma clean_texts:
  assumes "\<not> auditKeyIsSensitive ulower k" "length ss \<le> 64" "list_all (\<lambda>s. length s \<le> 1024) ss"
  shows "clean_field ulower visit (k, AList (map AText ss))"
proof -
  have "sanitizeAuditValue ulower visit (AText s) 2 = AText s" if "s \<in> set ss" for s
    using assms(3) that by (simp add: sanitizeAuditValue.simps list_all_iff not_less)
  then have "map (\<lambda>child. sanitizeAuditValue ulower visit child (1 + 1)) (map AText ss) = map AText ss" by (simp add: numeral_2_eq_2)
  then show ?thesis using assms(1,2) by (simp add: clean_field_def) (subst sanitizeAuditValue.simps, simp)
qed

definition detail_keys :: "string list" where
  "detail_keys = [''operation'', ''control_epoch'', ''max_width'', ''max_depth'', ''max_nodes'', ''action'', ''x'', ''y'', ''button'',
     ''delta_x'', ''delta_y'', ''key'', ''modifiers'', ''text_bytes'', ''sensitive'']"

lemma detail_keys_plain: "list_all (\<lambda>k. \<not> auditKeyIsSensitive ulower k) detail_keys"
  by (simp add: auditKeyIsSensitive_def ToLower_def is_ascii_def ascii_lower_def is_upper_def in_range_def audit_fragments_def
      HasPrefix_def detail_keys_def)

lemma modifiers_clean:
  "modifiers_ok ulower seen ms \<Longrightarrow> distinct seen \<Longrightarrow> set seen \<subseteq> set key_modifiers \<Longrightarrow>
     distinct (rev (map (ToLower ulower) ms) @ seen) \<and> set (map (ToLower ulower) ms) \<subseteq> set key_modifiers"
proof (induction ulower seen ms rule: modifiers_ok.induct)
  case (2 ulower seen m ms)
  then have "ToLower ulower m \<in> set key_modifiers" "ToLower ulower m \<notin> set seen" "modifiers_ok ulower (ToLower ulower m # seen) ms"
    by (auto simp: Let_def oneOf_def list_ex_iff split: if_splits)
  then show ?case using 2 by (auto simp: Let_def oneOf_def list_ex_iff split: if_splits)
qed simp

lemma key_texts_short: "set key_modifiers \<subseteq> {s. length s \<le> 1024}" "set named_keys \<subseteq> {s. length s \<le> 1024}" "length key_modifiers = 4"
  by (simp_all add: key_modifiers_def named_keys_def)

lemma key_clean:
  assumes "validateKey ulower (Some k) = None"
  shows "length (ToLower ulower (ky_Key k)) \<le> 1024" "length (ky_Modifiers k) \<le> 64"
    "list_all (\<lambda>s. length s \<le> 1024) (map (ToLower ulower) (ky_Modifiers k))"
proof -
  have k: "oneOf (ToLower ulower (ky_Key k)) named_keys \<or> shortcut_key (ToLower ulower (ky_Key k)) (ky_Modifiers k)"
    "modifiers_ok ulower [] (ky_Modifiers k)"
    using assms by (auto simp: validateKey_def Let_def split: if_splits)
  from k(1) show "length (ToLower ulower (ky_Key k)) \<le> 1024"
    using key_texts_short(2) by (auto simp: oneOf_def list_ex_iff shortcut_key_def split: list.splits)
  have m: "distinct (map (ToLower ulower) (ky_Modifiers k))" "set (map (ToLower ulower) (ky_Modifiers k)) \<subseteq> set key_modifiers"
    using modifiers_clean [OF k(2)] by (auto simp: distinct_rev)
  from m(2) show "list_all (\<lambda>s. length s \<le> 1024) (map (ToLower ulower) (ky_Modifiers k))"
    using key_texts_short(1) by (auto simp: list_all_iff)
  have "length (map (ToLower ulower) (ky_Modifiers k)) = card (set (map (ToLower ulower) (ky_Modifiers k)))"
    using distinct_card [OF m(1)] by simp
  also have "\<dots> \<le> length key_modifiers" using card_mono [OF _ m(2)] card_length [of key_modifiers] by simp
  finally show "length (ky_Modifiers k) \<le> 64" using key_texts_short(3) by simp
qed

lemma detail_fields_clean:
  assumes "validateOperation ulower r = None" "operation_detail ulower r = Some fs"
  shows "list_all (clean_field ulower visit) fs \<and> length fs \<le> 62"
proof -
  note plain = detail_keys_plain [of ulower, unfolded detail_keys_def list.pred_inject]
  note intros = clean_int clean_bool clean_text
  consider (shot) s where "cr_Operation r = OperationScreenshot" "cr_Screenshot r = Some s"
    | (tree) a where "cr_Operation r = OperationAccessibility" "cr_Accessibility r = Some a"
    | (mouse) m where "cr_Operation r = OperationMouse" "cr_Mouse r = Some m"
    | (key) k where "cr_Operation r = OperationKey" "cr_Key r = Some k"
    | (typing) t where "cr_Operation r = OperationTypeText" "cr_Text r = Some t"
    using validated_payload [OF assms(1)] by blast
  then show ?thesis
  proof cases
    case mouse
    then have "validateMouse (Some m) = None" using assms(1) by (simp add: validateOperation_def operation_defs)
    then have "length (mo_Action m) \<le> 1024" "mo_Action m = ''click'' \<Longrightarrow> length (mo_Button m) \<le> 1024"
      by (auto simp: validateMouse_def oneOf_def split: if_splits)
    then show ?thesis using mouse assms(2) plain by (auto simp: operation_detail_def operation_defs mouse_detail_def intros)
  next
    case key
    then have "validateKey ulower (Some k) = None" using assms(1) by (simp add: validateOperation_def operation_defs)
    note k = key_clean [OF this]
    have "fs = [(''key'', AText (ToLower ulower (ky_Key k))), (''modifiers'', AList (map AText (map (ToLower ulower) (ky_Modifiers k))))]"
      using key assms(2) by (auto simp: operation_detail_def operation_defs)
    moreover have "clean_field ulower visit (''modifiers'', AList (map AText (map (ToLower ulower) (ky_Modifiers k))))"
      using plain k by (intro clean_texts) simp_all
    ultimately show ?thesis using plain k(1) by (simp add: clean_text)
  qed (use assms(2) plain in \<open>auto simp: operation_detail_def operation_defs intros\<close>)
qed

text \<open>
  The audit trail keeps the detail of a validated request whole.  Whatever order the map is visited in,
  sanitizing redacts no field and cuts nothing: the stored object has exactly the fields of the detail.
\<close>

theorem AuditDetail_survives:
  assumes "Validate ulower now r = None" "AuditDetail ulower r = Some (AObj fs)" "mset (visit fs) = mset fs"
  shows "sanitizeAuditValue ulower visit (AObj fs) 0 = AObj (visit fs)"
proof -
  obtain gs where gs: "operation_detail ulower r = Some gs"
    "fs = [(''operation'', AText (cr_Operation r)), (''control_epoch'', AInt (cr_ControlEpoch r))] @ gs"
    using assms(2) by (auto simp: AuditDetail_def)
  note c = detail_fields_clean [OF ValidateD(4) [OF assms(1)] gs(1), of visit]
  have "length (cr_Operation r) \<le> 1024" using validated_typed [OF assms(1)] by (auto simp: well_typed_def operation_defs)
  then have "list_all (clean_field ulower visit) fs"
    using c detail_keys_plain [of ulower, unfolded detail_keys_def list.pred_inject] gs(2) by (simp add: clean_text clean_int)
  moreover have "length fs \<le> 64" using c gs(2) by simp
  ultimately show ?thesis using assms(3) by (rule sanitize_clean)
qed

section \<open>Witnesses\<close>

definition ex_press :: Request where
  "ex_press = \<lparr>cr_SchemaVersion = 1, cr_RequestID = ''action_00000000000000000000'', cr_LeaseID = ''lease_1'', cr_ControlEpoch = 3,
     cr_ExpiresUnixMS = 10000, cr_Operation = OperationKey, cr_Screenshot = None, cr_Accessibility = None, cr_Mouse = None,
     cr_Key = Some \<lparr>ky_Key = ''C'', ky_Modifiers = [''Control'']\<rparr>, cr_Text = None\<rparr>"

lemma ex_press_valid: "Validate (\<lambda>s. s) (seconds 5) ex_press = None"
  by code_simp

lemma ex_press_detail:
  "AuditDetail (\<lambda>s. s) ex_press = Some (AObj [(''operation'', AText ''key''), (''control_epoch'', AInt 3), (''key'', AText ''c''), (''modifiers'', AList [AText ''control''])])"
  by code_simp

theorem Validate_typed_witness: "Validate (\<lambda>s. s) (seconds 5) ex_press = None \<and> well_typed ex_press"
  using ex_press_valid Validate_typed [OF ex_press_valid] by blast

theorem AuditDetail_survives_witness:
  "Validate (\<lambda>s. s) (seconds 5) ex_press = None \<and>
   sanitizeAuditValue (\<lambda>s. s) rev (AObj [(''operation'', AText ''key''), (''control_epoch'', AInt 3), (''key'', AText ''c''), (''modifiers'', AList [AText ''control''])]) 0 =
     AObj [(''modifiers'', AList [AText ''control'']), (''key'', AText ''c''), (''control_epoch'', AInt 3), (''operation'', AText ''key'')]"
  using ex_press_valid AuditDetail_survives [OF ex_press_valid ex_press_detail, of rev] by simp

end
