(* ===== verification/Policies.thy ===== *)
theory Policies
  imports Desktops Row_History
begin

text \<open>
  Desktop access policies (store.go): the desired settings of a desktop with their revision, and what the
  Guest has been seen to apply.  A message is cut to 500 bytes, possibly inside a character, and then the
  database refuses it.
\<close>

section \<open>The table\<close>

fun privilege_of_text :: "string \<Rightarrow> privilege_mode option" where
  "privilege_of_text s =
     (if s = ''standard'' then Some PrivStandard else if s = ''local_admin'' then Some PrivLocalAdmin else None)"

fun os_of_text :: "string \<Rightarrow> os_family option" where
  "os_of_text s =
     (if s = ''linux'' then Some OsLinux else if s = ''windows'' then Some OsWindows
      else if s = ''unknown'' then Some OsUnknown else None)"

definition default_policy :: "time \<Rightarrow> int \<Rightarrow> DesktopAccessPolicy" where
  "default_policy now vmid =
     \<lparr>p_vmid = vmid, p_privilege_mode = PrivStandard, p_clipboard_redirection = True, p_drive_redirection = False,
      p_managed_background = True, p_desired_revision = 1, p_applied_revision = 0, p_state = PolicyPending,
      p_os_family = OsUnknown, p_last_error = [], p_updated_by = None, p_created_at = now, p_updated_at = now\<rparr>"

definition policy_settings :: "DesktopAccessPolicy \<Rightarrow> privilege_mode \<times> bool \<times> bool \<times> bool" where
  "policy_settings p =
     (p_privilege_mode p, p_clipboard_redirection p, p_drive_redirection p, p_managed_background p)"

section \<open>Operations\<close>

definition DesktopAccessPolicyByVMID :: "tx_fault \<Rightarrow> int \<Rightarrow> db \<Rightarrow> err + DesktopAccessPolicy" where
  "DesktopAccessPolicyByVMID fault vmid d =
     run_query fault (\<lambda>d. query_row ErrNotFound (\<lambda>p. p_vmid p = vmid) (desktop_access_policies d)) d"

definition ensure_policy_tx :: "time \<Rightarrow> int \<Rightarrow> db \<Rightarrow> err + (unit \<times> db)" where
  "ensure_policy_tx now vmid d =
     (if list_ex (\<lambda>p. p_vmid p = vmid) (desktop_access_policies d) then Inr ((), d)
      else Inr ((), d\<lparr>desktop_access_policies := desktop_access_policies d @ [default_policy now vmid]\<rparr>))"

definition EnsureDesktopAccessPolicy ::
  "tx_fault \<Rightarrow> tx_fault \<Rightarrow> time \<Rightarrow> int \<Rightarrow> db \<Rightarrow> db \<times> (err + DesktopAccessPolicy)" where
  "EnsureDesktopAccessPolicy fault fault2 now vmid d =
     (if vmid \<le> 0 then (d, Inl (ErrMsg ''desktop access policy VMID is invalid''))
      else case run_tx fault (ensure_policy_tx now vmid) d of
             (d1, Inl e) \<Rightarrow> (d1, Inl e)
           | (d1, Inr _) \<Rightarrow> (d1, DesktopAccessPolicyByVMID fault2 vmid d1))"

definition put_settings ::
  "time \<Rightarrow> privilege_mode \<Rightarrow> bool \<Rightarrow> bool \<Rightarrow> bool \<Rightarrow> string option \<Rightarrow> DesktopAccessPolicy \<Rightarrow> DesktopAccessPolicy" where
  "put_settings now mode clipboard drive background actor p =
     p\<lparr>p_privilege_mode := mode, p_clipboard_redirection := clipboard, p_drive_redirection := drive,
       p_managed_background := background,
       p_desired_revision := (if policy_settings p \<noteq> (mode, clipboard, drive, background)
                              then p_desired_revision p + 1 else p_desired_revision p),
       p_state := PolicyPending, p_last_error := [], p_updated_by := actor, p_updated_at := now\<rparr>"

definition update_policy ::
  "(DesktopAccessPolicy \<Rightarrow> bool) \<Rightarrow> (DesktopAccessPolicy \<Rightarrow> DesktopAccessPolicy) \<Rightarrow> db \<Rightarrow> err + (DesktopAccessPolicy \<times> db)" where
  "update_policy q f d =
     bindE (query_row ErrNotFound q (desktop_access_policies d)) (\<lambda>p.
     bindE (guardE (SqlErr NumericOutOfRange) (p_desired_revision (f p) \<le> max_int64)) (\<lambda>_.
       Inr (f p, d\<lparr>desktop_access_policies := upd_where q f (desktop_access_policies d)\<rparr>)))"

definition put_policy_tx ::
  "time \<Rightarrow> int \<Rightarrow> privilege_mode \<Rightarrow> bool \<Rightarrow> bool \<Rightarrow> bool \<Rightarrow> string \<Rightarrow> db \<Rightarrow> err + (DesktopAccessPolicy \<times> db)" where
  "put_policy_tx now vmid mode clipboard drive background actor d =
     bindE (if list_ex (\<lambda>p. p_vmid p = vmid) (desktop_access_policies d)
            then update_policy (\<lambda>p. p_vmid p = vmid) (put_settings now mode clipboard drive background (nullif actor)) d
            else let p = (default_policy now vmid)\<lparr>p_privilege_mode := mode, p_clipboard_redirection := clipboard,
                            p_drive_redirection := drive, p_managed_background := background, p_updated_by := nullif actor\<rparr>
                 in Inr (p, d\<lparr>desktop_access_policies := desktop_access_policies d @ [p]\<rparr>)) (\<lambda>r.
     bindE (guardE (SqlErr ForeignKeyViolation) (user_ref_ok d (nullif actor))) (\<lambda>_. Inr r))"

definition PutDesktopAccessPolicy ::
  "tx_fault \<Rightarrow> time \<Rightarrow> int \<Rightarrow> string \<Rightarrow> bool \<Rightarrow> bool \<Rightarrow> bool \<Rightarrow> string \<Rightarrow> db \<Rightarrow> db \<times> (err + DesktopAccessPolicy)" where
  "PutDesktopAccessPolicy fault now vmid privilegeMode clipboard drive background actor d =
     (case privilege_of_text privilegeMode of
        None \<Rightarrow> (d, Inl (ErrMsg ''desktop access policy is invalid''))
      | Some mode \<Rightarrow>
          if vmid \<le> 0 then (d, Inl (ErrMsg ''desktop access policy is invalid''))
          else run_tx fault (put_policy_tx now vmid mode clipboard drive background actor) d)"

definition policy_report ::
  "int \<Rightarrow> int \<Rightarrow> string \<Rightarrow> (os_family \<Rightarrow> DesktopAccessPolicy \<Rightarrow> DesktopAccessPolicy) \<Rightarrow> db \<Rightarrow> err + (DesktopAccessPolicy \<times> db)" where
  "policy_report vmid revision osFamily f d =
     bindE (query_row ErrNotFound (\<lambda>p. p_vmid p = vmid \<and> p_desired_revision p = revision) (desktop_access_policies d)) (\<lambda>_.
       case os_of_text osFamily of
         None \<Rightarrow> Inl (SqlErr CheckViolation)
       | Some os \<Rightarrow> update_policy (\<lambda>p. p_vmid p = vmid \<and> p_desired_revision p = revision) (f os) d)"

definition applied_policy :: "time \<Rightarrow> int \<Rightarrow> os_family \<Rightarrow> DesktopAccessPolicy \<Rightarrow> DesktopAccessPolicy" where
  "applied_policy now revision os p =
     p\<lparr>p_applied_revision := revision, p_state := PolicyApplied, p_os_family := os, p_last_error := [], p_updated_at := now\<rparr>"

definition failed_policy :: "time \<Rightarrow> string \<Rightarrow> os_family \<Rightarrow> DesktopAccessPolicy \<Rightarrow> DesktopAccessPolicy" where
  "failed_policy now message os p =
     p\<lparr>p_state := PolicyFailed, p_os_family := os, p_last_error := message, p_updated_at := now\<rparr>"

definition MarkDesktopAccessPolicyApplied ::
  "tx_fault \<Rightarrow> time \<Rightarrow> int \<Rightarrow> int \<Rightarrow> string \<Rightarrow> db \<Rightarrow> db \<times> (err + DesktopAccessPolicy)" where
  "MarkDesktopAccessPolicyApplied fault now vmid revision osFamily d =
     run_tx fault (policy_report vmid revision osFamily (applied_policy now revision)) d"

definition MarkDesktopAccessPolicyFailed ::
  "tx_fault \<Rightarrow> time \<Rightarrow> int \<Rightarrow> int \<Rightarrow> string \<Rightarrow> string \<Rightarrow> db \<Rightarrow> db \<times> (err + DesktopAccessPolicy)" where
  "MarkDesktopAccessPolicyFailed fault now vmid revision osFamily message d =
     (let message = take 500 message
      in run_tx fault (\<lambda>d. bindE (guardE (SqlErr CharacterNotInRepertoire) (utf8_valid message)) (\<lambda>_.
           policy_report vmid revision osFamily (failed_policy now message) d)) d)"

section \<open>Histories\<close>

text \<open>Revisions never go back, and new settings always come with a new revision.\<close>

definition policy_step :: "DesktopAccessPolicy \<Rightarrow> DesktopAccessPolicy \<Rightarrow> bool" where
  "policy_step p q \<longleftrightarrow>
     p_vmid q = p_vmid p \<and> p_desired_revision p \<le> p_desired_revision q \<and>
     (policy_settings q \<noteq> policy_settings p \<longrightarrow> p_desired_revision p < p_desired_revision q) \<and>
     p_applied_revision p \<le> p_applied_revision q"

definition policy_ok :: "DesktopAccessPolicy \<Rightarrow> bool" where
  "policy_ok p \<longleftrightarrow>
     0 < p_vmid p \<and> 0 < p_desired_revision p \<and> p_desired_revision p \<le> max_int64 \<and> 0 \<le> p_applied_revision p \<and>
     p_applied_revision p \<le> p_desired_revision p \<and>
     (p_state p = PolicyApplied \<longrightarrow> p_applied_revision p = p_desired_revision p)"

definition policies_inv :: "db \<Rightarrow> bool" where
  "policies_inv d \<longleftrightarrow> list_all policy_ok (desktop_access_policies d) \<and> unique_by p_vmid (desktop_access_policies d)"

interpretation ph: row_history policy_step
  by unfold_locales (auto simp: policy_step_def)

abbreviation policies_advance :: "db \<Rightarrow> db \<Rightarrow> bool" where
  "policies_advance d d' \<equiv> rows_advance policy_step (desktop_access_policies d) (desktop_access_policies d')"

lemma update_policy_kept:
  assumes "update_policy q f d = Inr (r, d')" "policies_inv d"
    "\<And>p. p \<in> set (desktop_access_policies d) \<Longrightarrow> q p \<Longrightarrow> p_desired_revision (f p) \<le> max_int64 \<Longrightarrow> policy_ok p \<Longrightarrow> policy_step p (f p) \<and> policy_ok (f p)"
    "\<And>p p'. q p \<Longrightarrow> q p' \<Longrightarrow> p_vmid p = p_vmid p'"
  shows "policies_inv d' \<and> policies_advance d d'"
proof -
  obtain p where p: "find q (desktop_access_policies d) = Some p" "p_desired_revision (f p) \<le> max_int64"
    and d': "d' = d\<lparr>desktop_access_policies := upd_where q f (desktop_access_policies d)\<rparr>"
    using assms(1) by (auto simp: update_policy_def bindE_eq_Inr query_row_eq_Inr guardE_eq_Inr)
  have only: "x = p" if "x \<in> set (desktop_access_policies d)" "q x" for x
  proof -
    have "p \<in> set (desktop_access_policies d)" "q p" using find_SomeD [OF p(1)] by simp_all
    moreover have "unique_by p_vmid (desktop_access_policies d)" using assms(2) by (simp add: policies_inv_def)
    ultimately show ?thesis using that assms(4) [OF that(2)] by (intro unique_by_same [of p_vmid]) blast+
  qed
  have st: "policy_step x (f x) \<and> policy_ok (f x)" if "x \<in> set (desktop_access_policies d)" "q x" for x
  proof -
    have "policy_ok x" using assms(2) that(1) by (simp add: policies_inv_def list_all_iff)
    then show ?thesis using assms(3) [OF that] p(2) unfolding only [OF that] by blast
  qed
  have "policies_advance d d'" using st by (auto simp: d' intro!: ph.advance_upd_where)
  moreover have "unique_by p_vmid (upd_where q f (desktop_access_policies d))"
  proof -
    have "map p_vmid (upd_where q f (desktop_access_policies d)) = map p_vmid (desktop_access_policies d)"
      using st by (auto simp: upd_where_def policy_step_def)
    then show ?thesis using assms(2) by (simp add: policies_inv_def)
  qed
  moreover have "list_all policy_ok (upd_where q f (desktop_access_policies d))"
    using st assms(2) by (auto simp: policies_inv_def list_all_iff set_upd_where)
  ultimately show ?thesis by (simp add: d' policies_inv_def)
qed

lemma policies_append:
  assumes "policies_inv d" "policy_ok p" "\<not> list_ex (\<lambda>q. p_vmid q = p_vmid p) (desktop_access_policies d)"
    "d' = d\<lparr>desktop_access_policies := desktop_access_policies d @ [p]\<rparr>"
  shows "policies_inv d' \<and> policies_advance d d'"
  using assms by (auto simp: policies_inv_def list_ex_iff ph.advance_append)

lemma put_policy_kept:
  assumes "put_policy_tx now vmid mode clipboard drive background actor d = Inr (r, d')" "policies_inv d" "0 < vmid"
  shows "policies_inv d' \<and> policies_advance d d'"
proof (cases "list_ex (\<lambda>p. p_vmid p = vmid) (desktop_access_policies d)")
  case True
  then have "update_policy (\<lambda>p. p_vmid p = vmid) (put_settings now mode clipboard drive background (nullif actor)) d = Inr (r, d')"
    using assms(1) by (auto simp: put_policy_tx_def bindE_eq_Inr guardE_eq_Inr)
  then show ?thesis
    by (rule update_policy_kept [OF _ assms(2)]) (auto simp: put_settings_def policy_step_def policy_ok_def policy_settings_def)
next
  case False
  show ?thesis
    by (rule policies_append [OF assms(2), of r])
      (use assms False in \<open>auto simp: put_policy_tx_def bindE_eq_Inr guardE_eq_Inr policy_ok_def default_policy_def Let_def\<close>)
qed

lemma policy_report_kept:
  assumes "policy_report vmid revision os f d = Inr (r, d')" "policies_inv d"
    "\<And>fam p. p_desired_revision p = revision \<Longrightarrow> policy_ok p \<Longrightarrow> policy_step p (f fam p) \<and> policy_ok (f fam p)"
  shows "policies_inv d' \<and> policies_advance d d'"
proof -
  obtain fam where "update_policy (\<lambda>p. p_vmid p = vmid \<and> p_desired_revision p = revision) (f fam) d = Inr (r, d')"
    using assms(1) by (auto simp: policy_report_def bindE_eq_Inr split: option.splits)
  then show ?thesis by (rule update_policy_kept [OF _ assms(2)]) (use assms(3) in auto)
qed

text \<open>The operations, and any step of the rest of the store.\<close>

inductive policy_run :: "db \<Rightarrow> db \<Rightarrow> bool" where
  ensure: "policy_run d (fst (EnsureDesktopAccessPolicy fault fault2 now vmid d))"
| put: "policy_run d (fst (PutDesktopAccessPolicy fault now vmid mode clipboard drive background actor d))"
| applied: "policy_run d (fst (MarkDesktopAccessPolicyApplied fault now vmid revision os d))"
| failed: "policy_run d (fst (MarkDesktopAccessPolicyFailed fault now vmid revision os message d))"
| other: "desktop_access_policies d' = desktop_access_policies d \<Longrightarrow> policy_run d d'"

lemma run_tx_policies:
  assumes "policies_inv d" "\<And>x d'. body d = Inr (x, d') \<Longrightarrow> policies_inv d' \<and> policies_advance d d'"
  shows "policies_inv (fst (run_tx fault body d)) \<and> policies_advance d (fst (run_tx fault body d))"
  by (rule run_tx_preserves) (use assms ph.advance_refl in auto)

lemma policy_run_kept:
  assumes "policy_run d d'" "policies_inv d"
  shows "policies_inv d' \<and> policies_advance d d'"
  using assms
proof cases
  case (ensure fault fault2 now vmid)
  let ?t = "run_tx fault (ensure_policy_tx now vmid) d"
  show ?thesis
  proof (cases "vmid \<le> 0")
    case True
    then show ?thesis using ensure assms(2) by (simp add: EnsureDesktopAccessPolicy_def ph.advance_refl)
  next
    case False
    then have "d' = fst ?t" using ensure by (cases ?t) (auto simp: EnsureDesktopAccessPolicy_def split: sum.splits)
    moreover have "policies_inv d1 \<and> policies_advance d d1" if "ensure_policy_tx now vmid d = Inr (x, d1)" for x d1
      using that assms(2) False policies_append [OF assms(2), of "default_policy now vmid" d1]
      by (auto simp: ensure_policy_tx_def ph.advance_refl policy_ok_def default_policy_def split: if_splits)
    ultimately show ?thesis using run_tx_policies [OF assms(2), of "ensure_policy_tx now vmid" fault] by simp
  qed
next
  case (put fault now vmid mode clipboard drive background actor)
  show ?thesis
  proof (cases "privilege_of_text mode = None \<or> vmid \<le> 0")
    case True
    then have "d' = d" unfolding put PutDesktopAccessPolicy_def by (auto split: option.splits)
    then show ?thesis using assms(2) by (simp add: ph.advance_refl)
  next
    case False
    then obtain m where m: "privilege_of_text mode = Some m" "0 < vmid" by auto
    have "d' = fst (run_tx fault (put_policy_tx now vmid m clipboard drive background actor) d)"
      using m unfolding put PutDesktopAccessPolicy_def by simp
    then show ?thesis using run_tx_policies [OF assms(2)] put_policy_kept [OF _ assms(2) m(2)] by metis
  qed
next
  case (applied fault now vmid revision os)
  have "policies_inv d1 \<and> policies_advance d d1" if "policy_report vmid revision os (applied_policy now revision) d = Inr (x, d1)" for x d1
    by (rule policy_report_kept [OF that assms(2)]) (auto simp: applied_policy_def policy_step_def policy_ok_def policy_settings_def)
  then show ?thesis using run_tx_policies [OF assms(2)] unfolding applied MarkDesktopAccessPolicyApplied_def by metis
next
  case (failed fault now vmid revision os message)
  let ?body = "\<lambda>d. bindE (guardE (SqlErr CharacterNotInRepertoire) (utf8_valid (take 500 message))) (\<lambda>_.
           policy_report vmid revision os (failed_policy now (take 500 message)) d)"
  have "policies_inv d1 \<and> policies_advance d d1" if "?body d = Inr (x, d1)" for x d1
  proof (rule policy_report_kept [OF _ assms(2)])
    show "policy_report vmid revision os (failed_policy now (take 500 message)) d = Inr (x, d1)"
      using that by (simp add: bindE_eq_Inr)
  qed (auto simp: failed_policy_def policy_step_def policy_ok_def policy_settings_def)
  then show ?thesis using run_tx_policies [OF assms(2), of ?body] unfolding failed MarkDesktopAccessPolicyFailed_def Let_def by metis
next
  case other
  then show ?thesis using assms(2) by (simp add: policies_inv_def ph.advance_refl)
qed

lemma policy_runs_kept: "policy_run\<^sup>*\<^sup>* d d' \<Longrightarrow> policies_inv d \<Longrightarrow> policies_inv d' \<and> policies_advance d d'"
  by (rule ph.advance_steps [of policy_run _ _ policies_inv desktop_access_policies]) (auto dest: policy_run_kept)

text \<open>
  C33. Over any run of the store a policy that counts as applied has the revision of its current settings:
  settings never change without a new revision, revisions and acknowledged revisions never go back, and an
  acknowledgement of older settings cannot make newer ones applied.
\<close>

theorem policy_history:
  assumes "policies_inv d" "policy_run\<^sup>*\<^sup>* d d'" "p \<in> set (desktop_access_policies d)"
  shows "\<exists>q\<in>set (desktop_access_policies d'). p_vmid q = p_vmid p \<and> p_desired_revision p \<le> p_desired_revision q \<and>
    p_applied_revision p \<le> p_applied_revision q \<and> p_applied_revision q \<le> p_desired_revision q \<and>
    (policy_settings q \<noteq> policy_settings p \<longrightarrow> p_desired_revision p < p_desired_revision q) \<and>
    (p_state q = PolicyApplied \<longrightarrow> p_applied_revision q = p_desired_revision q)"
proof -
  have k: "policies_inv d'" "policies_advance d d'" using policy_runs_kept [OF assms(2,1)] by simp_all
  obtain q where q: "q \<in> set (desktop_access_policies d')" "policy_step p q" using rows_advance_member [OF k(2) assms(3)] by blast
  then have "policy_ok q" using k(1) by (simp add: policies_inv_def list_all_iff)
  with q show ?thesis by (intro bexI [of _ q]) (auto simp: policy_step_def policy_ok_def)
qed

definition ex_policies :: db where
  "ex_policies = empty_db\<lparr>desktop_access_policies := [default_policy 0 100]\<rparr>"

theorem policy_history_witness:
  "\<exists>d' q. policy_run\<^sup>*\<^sup>* ex_policies d' \<and> q \<in> set (desktop_access_policies d') \<and> p_state q = PolicyApplied \<and> p_applied_revision q = p_desired_revision q"
proof -
  let ?d' = "fst (MarkDesktopAccessPolicyApplied NoFault 5 100 1 ''linux'' ex_policies)"
  have "policies_inv ex_policies" by (simp add: policies_inv_def policy_ok_def ex_policies_def default_policy_def)
  moreover have run: "policy_run\<^sup>*\<^sup>* ex_policies ?d'" by (rule r_into_rtranclp) (rule policy_run.applied)
  moreover have "default_policy 0 100 \<in> set (desktop_access_policies ex_policies)" by (simp add: ex_policies_def)
  ultimately obtain q where q: "q \<in> set (desktop_access_policies ?d')" "p_state q = PolicyApplied \<longrightarrow> p_applied_revision q = p_desired_revision q"
    using policy_history [of ex_policies ?d' "default_policy 0 100"] by blast
  moreover have "desktop_access_policies ?d' = [applied_policy 5 1 OsLinux (default_policy 0 100)]"
    by (simp add: MarkDesktopAccessPolicyApplied_def policy_report_def update_policy_def query_row_def ex_policies_def empty_db_def
        default_policy_def applied_policy_def)
  ultimately show ?thesis using run by (intro exI [of _ ?d'] exI [of _ q]) (simp add: applied_policy_def)
qed

section \<open>A message cut inside a character\<close>

text \<open>
  A failure report is lost when its message is cut inside a character: the update is refused and the policy
  stays as it was.
\<close>

lemma failure_report_lost:
  assumes "utf8_valid message" "\<not> utf8_valid (take 500 message)"
  shows "MarkDesktopAccessPolicyFailed NoFault now vmid revision os message d = (d, Inl (SqlErr CharacterNotInRepertoire))"
  using assms by (simp add: MarkDesktopAccessPolicyFailed_def)

lemma utf8_valid_ascii: "utf8_valid (replicate n (CHR ''x'') @ s) \<longleftrightarrow> utf8_valid s"
proof (induction n)
  case (Suc n)
  have "rune_len (CHR ''x'' # replicate n (CHR ''x'') @ s) = 1" by (rule rune_len_ascii) simp
  then have "runes (CHR ''x'' # replicate n (CHR ''x'') @ s) = ''x'' # runes (replicate n (CHR ''x'') @ s)" by simp
  then show ?case using Suc by (simp add: utf8_valid_def) (simp add: utf8_prefix_def)
qed simp


end
