(* ===== verification/Pve_Jobs.thy ===== *)
theory Pve_Jobs
  imports Audit_Trail Go_Json Row_History Sha256
begin

text \<open>
  Jobs of the hypervisor (store.go), reservation of clone targets (clone_reservation.go), recovery of a clone
  task (clone_recovery.go) and the list of pending clones (pending_clone_jobs.go).  Two functions stand for
  the database's JSON type: \<open>jsonb\<close> is the normal form it stores of a text, if the text is JSON, and
  \<open>json_field\<close> the operator \<open>->>\<close>.
\<close>

section \<open>Rows and the Go struct\<close>

record StoreJob =
  sj_RequestFingerprint :: string
  sj_ID :: string
  sj_IdempotencyKey :: string
  sj_Operation :: string
  sj_State :: string
  sj_SourceVMID :: int
  sj_TargetVMID :: int
  sj_TargetNode :: string
  sj_TaskNode :: string
  sj_UPID :: string
  sj_Request :: string
  sj_Progress :: int
  sj_Detail :: string
  sj_Error :: string
  sj_CreatedBy :: string
  sj_CreatedAt :: time
  sj_UpdatedAt :: time

definition nullableInt :: "int \<Rightarrow> int option" where
  "nullableInt n = (if n = 0 then None else Some n)"

definition nullableString :: "string \<Rightarrow> string option" where
  "nullableString s = (if s = [] then None else Some s)"

definition coalesce0 :: "int option \<Rightarrow> int" where
  "coalesce0 x = (case x of None \<Rightarrow> 0 | Some n \<Rightarrow> n)"

definition scan_job :: "Job \<Rightarrow> StoreJob" where
  "scan_job j =
     \<lparr>sj_RequestFingerprint = [], sj_ID = j_id j, sj_IdempotencyKey = j_idempotency_key j, sj_Operation = j_operation j,
      sj_State = j_state j, sj_SourceVMID = coalesce0 (j_source_vmid j), sj_TargetVMID = coalesce0 (j_target_vmid j),
      sj_TargetNode = coalesce (j_target_node j), sj_TaskNode = coalesce (j_task_node j), sj_UPID = coalesce (j_upid j),
      sj_Request = j_request j, sj_Progress = j_progress j, sj_Detail = j_detail j, sj_Error = coalesce (j_error j),
      sj_CreatedBy = coalesce (j_created_by j), sj_CreatedAt = j_created_at j, sj_UpdatedAt = j_updated_at j\<rparr>"

definition job_row :: "time \<Rightarrow> StoreJob \<Rightarrow> string \<Rightarrow> Job" where
  "job_row now job request =
     \<lparr>j_id = sj_ID job, j_idempotency_key = sj_IdempotencyKey job, j_operation = sj_Operation job, j_state = sj_State job,
      j_source_vmid = nullableInt (sj_SourceVMID job), j_target_vmid = nullableInt (sj_TargetVMID job),
      j_target_node = nullableString (sj_TargetNode job), j_task_node = nullableString (sj_TaskNode job), j_upid = None,
      j_request = request, j_progress = 0, j_detail = [], j_error = None, j_created_by = nullableString (sj_CreatedBy job),
      j_request_fingerprint = sj_RequestFingerprint job, j_created_at = now, j_updated_at = now\<rparr>"

text \<open>The keys of the table, and at most one active image build per profile.\<close>

definition active_build :: "(string \<Rightarrow> string \<Rightarrow> string option) \<Rightarrow> Job \<Rightarrow> bool" where
  "active_build json_field j \<longleftrightarrow>
     j_operation j = ''image.build'' \<and> (j_state j = ''accepted'' \<or> j_state j = ''running'') \<and>
     json_field (j_request j) ''image_profile_id'' \<noteq> None"

definition jobs_unique :: "(string \<Rightarrow> string \<Rightarrow> string option) \<Rightarrow> Job list \<Rightarrow> bool" where
  "jobs_unique json_field t \<longleftrightarrow>
     unique_by j_id t \<and> unique_by j_idempotency_key t \<and>
     unique_by (\<lambda>j. json_field (j_request j) ''image_profile_id'') (filter (active_build json_field) t)"

definition insert_job :: "(string \<Rightarrow> string \<Rightarrow> string option) \<Rightarrow> Job \<Rightarrow> db \<Rightarrow> err + db" where
  "insert_job json_field j d =
     bindE (guardE (SqlErr UniqueViolation) (jobs_unique json_field (pve_jobs d @ [j]))) (\<lambda>_.
     bindE (guardE (SqlErr ForeignKeyViolation) (user_ref_ok d (j_created_by j))) (\<lambda>_.
       Inr (d\<lparr>pve_jobs := pve_jobs d @ [j]\<rparr>)))"

definition update_jobs ::
  "(string \<Rightarrow> string \<Rightarrow> string option) \<Rightarrow> (Job \<Rightarrow> bool) \<Rightarrow> (Job \<Rightarrow> Job) \<Rightarrow> db \<Rightarrow> err + (nat \<times> db)" where
  "update_jobs json_field p f d =
     (let t = upd_where p f (pve_jobs d)
      in bindE (guardE (SqlErr CheckViolation) (list_all (\<lambda>j. 0 \<le> j_progress j \<and> j_progress j \<le> 100) t)) (\<lambda>_.
         bindE (guardE (SqlErr UniqueViolation) (jobs_unique json_field t)) (\<lambda>_.
           Inr (length (filter p (pve_jobs d)), d\<lparr>pve_jobs := t\<rparr>))))"

section \<open>Reading\<close>

definition jobByQuery :: "tx_fault \<Rightarrow> (db \<Rightarrow> Job list) \<Rightarrow> db \<Rightarrow> err + StoreJob" where
  "jobByQuery fault query d =
     run_query fault (\<lambda>d. case query d of [] \<Rightarrow> Inl ErrNotFound | j # _ \<Rightarrow> Inr (scan_job j)) d"

definition JobByIdempotencyKey :: "tx_fault \<Rightarrow> string \<Rightarrow> db \<Rightarrow> err + StoreJob" where
  "JobByIdempotencyKey fault key d =
     jobByQuery fault (\<lambda>d. filter (\<lambda>j. j_idempotency_key j = key) (pve_jobs d)) d"

definition JobByID :: "tx_fault \<Rightarrow> string \<Rightarrow> db \<Rightarrow> err + StoreJob" where
  "JobByID fault jid d = jobByQuery fault (\<lambda>d. filter (\<lambda>j. j_id j = jid) (pve_jobs d)) d"

definition JobForRequest :: "tx_fault \<Rightarrow> tx_fault \<Rightarrow> string \<Rightarrow> string \<Rightarrow> db \<Rightarrow> err + StoreJob" where
  "JobForRequest fault fault2 key fingerprint d =
     bindE (run_query fault (\<lambda>d. query_row ErrNotFound (\<lambda>j. j_idempotency_key j = key) (pve_jobs d)) d) (\<lambda>j.
       if j_request_fingerprint j \<noteq> fingerprint then Inl ErrConflict
       else JobByIdempotencyKey fault2 key d)"

definition ActiveImageBuildJob ::
  "(string \<Rightarrow> string \<Rightarrow> string option) \<Rightarrow> tx_fault \<Rightarrow> string \<Rightarrow> db \<Rightarrow> err + StoreJob" where
  "ActiveImageBuildJob json_field fault profileID d =
     jobByQuery fault (\<lambda>d. take 1 (order_by (desc_key j_created_at)
       (filter (\<lambda>j. j_operation j = ''image.build'' \<and> (j_state j = ''accepted'' \<or> j_state j = ''running'') \<and>
                    json_field (j_request j) ''image_profile_id'' = Some profileID) (pve_jobs d)))) d"

definition JobsByOperation :: "tx_fault \<Rightarrow> string \<Rightarrow> int \<Rightarrow> db \<Rightarrow> err + StoreJob list" where
  "JobsByOperation fault operation limit d =
     (let limit = (if limit < 1 \<or> limit > 100 then 20 else limit)
      in run_query fault (\<lambda>d. Inr (map scan_job (take (nat limit) (order_by (desc_key j_created_at)
           (filter (\<lambda>j. j_operation j = operation) (pve_jobs d)))))) d)"

definition Jobs :: "tx_fault \<Rightarrow> int \<Rightarrow> db \<Rightarrow> err + StoreJob list" where
  "Jobs fault limit d =
     (let limit = (if limit < 1 \<or> limit > 100 then 50 else limit)
      in run_query fault (\<lambda>d. Inr (map scan_job (take (nat limit) (order_by (desc_key j_created_at) (pve_jobs d))))) d)"

text \<open>Job identifiers are compared in the database's collation.\<close>

definition PendingCloneJobIDs ::
  "(string \<Rightarrow> string \<Rightarrow> bool) \<Rightarrow> tx_fault \<Rightarrow> string \<Rightarrow> int \<Rightarrow> db \<Rightarrow> err + string list" where
  "PendingCloneJobIDs coll fault after limit d =
     (let limit = (if limit < 1 \<or> limit > 100 then 32 else limit)
      in run_query fault (\<lambda>d. Inr (take (nat limit) (order_by coll (map j_id
           (filter (\<lambda>j. j_operation j = ''pve.template_clone'' \<and> j_state j = ''running'' \<and> j_upid j \<noteq> None \<and> j_upid j \<noteq> Some [] \<and>
                        \<not> coll (j_id j) after) (pve_jobs d)))))) d)"

section \<open>Creating and updating\<close>

definition create_job_tx ::
  "(string \<Rightarrow> string option) \<Rightarrow> (string \<Rightarrow> string \<Rightarrow> string option) \<Rightarrow> time \<Rightarrow> StoreJob \<Rightarrow> db \<Rightarrow> err + (bool \<times> db)" where
  "create_job_tx jsonb json_field now job d =
     (case jsonb (sj_Request job) of
        None \<Rightarrow> Inl (SqlErr InvalidText)
      | Some request \<Rightarrow>
          if list_ex (\<lambda>j. j_idempotency_key j = sj_IdempotencyKey job) (pve_jobs d) then Inr (False, d)
          else bindE (insert_job json_field (job_row now job request) d) (\<lambda>d1. Inr (True, d1)))"

definition CreateJob ::
  "(string \<Rightarrow> string option) \<Rightarrow> (string \<Rightarrow> string \<Rightarrow> string option) \<Rightarrow> tx_fault \<Rightarrow> tx_fault \<Rightarrow> tx_fault \<Rightarrow> time \<Rightarrow> StoreJob \<Rightarrow>
   db \<Rightarrow> db \<times> (err + (StoreJob \<times> bool))" where
  "CreateJob jsonb json_field fault fault2 fault3 now job d =
     (case run_tx fault (create_job_tx jsonb json_field now job) d of
        (d1, Inl e) \<Rightarrow> (d1, Inl e)
      | (d1, Inr created) \<Rightarrow>
          (d1, bindE (JobForRequest fault2 fault3 (sj_IdempotencyKey job) (sj_RequestFingerprint job) d1)
                 (\<lambda>stored. Inr (stored, created))))"

definition job_task :: "time \<Rightarrow> string \<Rightarrow> string \<Rightarrow> string \<Rightarrow> Job \<Rightarrow> Job" where
  "job_task now state upid message j =
     j\<lparr>j_state := state, j_upid := nullif upid, j_error := nullif message, j_updated_at := now\<rparr>"

definition UpdateJobTask ::
  "(string \<Rightarrow> string \<Rightarrow> string option) \<Rightarrow> tx_fault \<Rightarrow> time \<Rightarrow> string \<Rightarrow> string \<Rightarrow> string \<Rightarrow> string \<Rightarrow> db \<Rightarrow> db \<times> (err + unit)" where
  "UpdateJobTask json_field fault now jid state upid message d =
     then_check (run_tx fault (update_jobs json_field (\<lambda>j. j_id j = jid) (job_task now state upid message)) d) (\<lambda>_. Inr ())"

definition CompleteJobTask ::
  "(string \<Rightarrow> string \<Rightarrow> string option) \<Rightarrow> tx_fault \<Rightarrow> time \<Rightarrow> string \<Rightarrow> string \<Rightarrow> string \<Rightarrow> string \<Rightarrow> db \<Rightarrow> db \<times> (err + bool)" where
  "CompleteJobTask json_field fault now jid state upid message d =
     then_check (run_tx fault (update_jobs json_field (\<lambda>j. j_id j = jid \<and> j_state j = ''running'') (job_task now state upid message)) d)
       (\<lambda>n. Inr (n = 1))"

definition job_progress :: "time \<Rightarrow> string \<Rightarrow> int \<Rightarrow> string \<Rightarrow> string \<Rightarrow> Job \<Rightarrow> Job" where
  "job_progress now state progress detail message j =
     j\<lparr>j_state := state, j_progress := progress, j_detail := detail, j_error := nullif message, j_updated_at := now\<rparr>"

definition UpdateJobProgress ::
  "(string \<Rightarrow> string \<Rightarrow> string option) \<Rightarrow> tx_fault \<Rightarrow> time \<Rightarrow> string \<Rightarrow> string \<Rightarrow> int \<Rightarrow> string \<Rightarrow> string \<Rightarrow> db \<Rightarrow> db \<times> (err + unit)" where
  "UpdateJobProgress json_field fault now jid state progress detail message d =
     then_check (run_tx fault (update_jobs json_field (\<lambda>j. j_id j = jid) (job_progress now state progress detail message)) d) (\<lambda>_. Inr ())"

section \<open>Clone tasks\<close>

definition handle_request_ok :: "StoreJob \<Rightarrow> string \<Rightarrow> bool" where
  "handle_request_ok e upid \<longleftrightarrow>
     \<not> (sj_Operation e \<noteq> ''pve.template_clone'' \<or> sj_ID e = [] \<or> TrimSpace upid \<noteq> upid \<or> upid = [] \<or> length upid > 4096)"

definition same_clone :: "StoreJob \<Rightarrow> Job \<Rightarrow> bool" where
  "same_clone e j \<longleftrightarrow>
     j_id j = sj_ID e \<and> j_operation j = ''pve.template_clone'' \<and> j_source_vmid j = Some (sj_SourceVMID e) \<and>
     j_target_vmid j = Some (sj_TargetVMID e) \<and> j_target_node j = Some (sj_TargetNode e) \<and> j_task_node j = Some (sj_TaskNode e)"

definition clone_running :: "time \<Rightarrow> string \<Rightarrow> Job \<Rightarrow> Job" where
  "clone_running now upid j = j\<lparr>j_state := ''running'', j_upid := Some upid, j_error := None, j_updated_at := now\<rparr>"

definition RecordCloneTaskHandle ::
  "(string \<Rightarrow> string \<Rightarrow> string option) \<Rightarrow> tx_fault \<Rightarrow> time \<Rightarrow> StoreJob \<Rightarrow> string \<Rightarrow> db \<Rightarrow> db \<times> (err + unit)" where
  "RecordCloneTaskHandle json_field fault now e upid d =
     (if \<not> handle_request_ok e upid then (d, Inl ErrConflict)
      else then_check (run_tx fault (update_jobs json_field
             (\<lambda>j. same_clone e j \<and> ((j_state j = ''accepted'' \<and> j_upid j = None) \<or> (j_state j = ''running'' \<and> j_upid j = Some upid)))
             (clone_running now upid)) d)
             (\<lambda>n. guardE ErrConflict (n = 1)))"

section \<open>Reserving a target\<close>

definition reserve_request_ok :: "StoreJob \<Rightarrow> bool" where
  "reserve_request_ok job \<longleftrightarrow>
     \<not> (sj_Operation job \<noteq> ''pve.template_clone'' \<or> sj_State job \<noteq> ''accepted'' \<or> sj_TargetVMID job \<le> 0 \<or> sj_SourceVMID job \<le> 0 \<or>
        sj_TargetVMID job = sj_SourceVMID job \<or> sj_ID job = [] \<or> sj_IdempotencyKey job = [])"

definition vmid_free :: "int \<Rightarrow> int list \<Rightarrow> db \<Rightarrow> int \<Rightarrow> bool" where
  "vmid_free source occupied d candidate \<longleftrightarrow>
     candidate \<noteq> source \<and> candidate \<notin> set occupied \<and>
     \<not> list_ex (\<lambda>m. md_vmid m = candidate) (managed_desktops d) \<and>
     \<not> list_ex (\<lambda>j. j_target_vmid j = Some candidate \<and> (j_operation j = ''pve.template_clone'' \<or> j_operation j = ''image.build'')) (pve_jobs d)"

text \<open>The bounded range \<open>generate_series\<close> gives.\<close>

definition clone_candidates :: "int \<Rightarrow> int list" where
  "clone_candidates suggested = map (\<lambda>i. suggested + int i) [0..<1024]"

definition choose_target :: "StoreJob \<Rightarrow> int list option \<Rightarrow> db \<Rightarrow> err + int" where
  "choose_target job inventory d =
     (case inventory of
        None \<Rightarrow> Inr (sj_TargetVMID job)
      | Some occupied \<Rightarrow>
          if sj_TargetVMID job + 1023 > max_int64 then Inl (SqlErr NumericOutOfRange)
          else case find (vmid_free (sj_SourceVMID job) occupied d) (clone_candidates (sj_TargetVMID job)) of
                 None \<Rightarrow> Inl ErrConflict
               | Some vmid \<Rightarrow> Inr vmid)"

definition target_occupied :: "db \<Rightarrow> int \<Rightarrow> bool" where
  "target_occupied d vmid \<longleftrightarrow>
     list_ex (\<lambda>m. md_vmid m = vmid) (managed_desktops d) \<or>
     list_ex (\<lambda>j. j_target_vmid j = Some vmid \<and> j_operation j = ''pve.template_clone'') (pve_jobs d)"

definition reserve_tx ::
  "(string \<Rightarrow> string option) \<Rightarrow> (string \<Rightarrow> string \<Rightarrow> string option) \<Rightarrow> time \<Rightarrow> StoreJob \<Rightarrow> int list option \<Rightarrow> db \<Rightarrow> err + (bool \<times> db)" where
  "reserve_tx jsonb json_field now job inventory d =
     (case find (\<lambda>j. j_idempotency_key j = sj_IdempotencyKey job) (pve_jobs d) of
        Some j \<Rightarrow> if j_request_fingerprint j \<noteq> sj_RequestFingerprint job then Inl ErrConflict else Inr (False, d)
      | None \<Rightarrow>
          bindE (choose_target job inventory d) (\<lambda>vmid.
          bindE (guardE ErrConflict (\<not> target_occupied d vmid)) (\<lambda>_.
            case jsonb (sj_Request job) of
              None \<Rightarrow> Inl (SqlErr InvalidText)
            | Some request \<Rightarrow>
                bindE (mapErr (\<lambda>e. if e = SqlErr UniqueViolation then ErrConflict else e)
                  (insert_job json_field (job_row now (job\<lparr>sj_TargetVMID := vmid\<rparr>) request) d)) (\<lambda>d1. Inr (True, d1)))))"

definition reserveDesktopCloneJob ::
  "(string \<Rightarrow> string option) \<Rightarrow> (string \<Rightarrow> string \<Rightarrow> string option) \<Rightarrow> tx_fault \<Rightarrow> tx_fault \<Rightarrow> time \<Rightarrow> StoreJob \<Rightarrow> int list option \<Rightarrow>
   db \<Rightarrow> db \<times> (err + (StoreJob \<times> bool))" where
  "reserveDesktopCloneJob jsonb json_field fault fault2 now job inventory d =
     (if \<not> reserve_request_ok job then (d, Inl ErrConflict)
      else case run_tx fault (reserve_tx jsonb json_field now job inventory) d of
             (d1, Inl e) \<Rightarrow> (d1, Inl e)
           | (d1, Inr False) \<Rightarrow> (d1, bindE (JobByIdempotencyKey fault2 (sj_IdempotencyKey job) d1) (\<lambda>prior. Inr (prior, False)))
           | (d1, Inr True) \<Rightarrow> (d1, bindE (JobByID fault2 (sj_ID job) d1) (\<lambda>stored. Inr (stored, True))))"

definition ReserveDesktopCloneJob ::
  "(string \<Rightarrow> string option) \<Rightarrow> (string \<Rightarrow> string \<Rightarrow> string option) \<Rightarrow> tx_fault \<Rightarrow> tx_fault \<Rightarrow> time \<Rightarrow> StoreJob \<Rightarrow>
   db \<Rightarrow> db \<times> (err + (StoreJob \<times> bool))" where
  "ReserveDesktopCloneJob jsonb json_field fault fault2 now job d = reserveDesktopCloneJob jsonb json_field fault fault2 now job None d"

definition ReserveAvailableDesktopCloneJob ::
  "(string \<Rightarrow> string option) \<Rightarrow> (string \<Rightarrow> string \<Rightarrow> string option) \<Rightarrow> tx_fault \<Rightarrow> tx_fault \<Rightarrow> time \<Rightarrow> StoreJob \<Rightarrow> int list \<Rightarrow>
   db \<Rightarrow> db \<times> (err + (StoreJob \<times> bool))" where
  "ReserveAvailableDesktopCloneJob jsonb json_field fault fault2 now job occupied d =
     reserveDesktopCloneJob jsonb json_field fault fault2 now job (Some occupied) d"

section \<open>Recovering a task\<close>

definition recovery_job_ok :: "StoreJob \<Rightarrow> string \<Rightarrow> string \<Rightarrow> string \<Rightarrow> bool" where
  "recovery_job_ok e upid actor reason \<longleftrightarrow>
     \<not> (sj_Operation e \<noteq> ''pve.template_clone'' \<or> sj_ID e = [] \<or> sj_State e \<noteq> ''accepted'' \<or> sj_UPID e \<noteq> [] \<or> sj_SourceVMID e \<le> 0 \<or>
        sj_TargetVMID e \<le> 0 \<or> sj_SourceVMID e = sj_TargetVMID e \<or> sj_TargetNode e = [] \<or> sj_TaskNode e = [] \<or> \<not> json_Valid (sj_Request e) \<or>
        \<not> HasPrefix upid ''UPID:'' \<or> length upid > 1024 \<or>
        list_ex (\<lambda>c. c \<in> set [CHR ''/'', CHR 0x5C, CHR ''?'', CHR ''#'', CHR 0x0D, CHR 0x0A, CHR 0x00]) upid \<or>
        TrimSpace upid \<noteq> upid \<or> actor = [] \<or> reason = [] \<or> rune_count reason > 500)"

definition recovery_detail ::
  "(string \<Rightarrow> string) \<Rightarrow> ((string \<times> audit_value) list \<Rightarrow> (string \<times> audit_value) list) \<Rightarrow> StoreJob \<Rightarrow> string \<Rightarrow> string \<Rightarrow> audit_value" where
  "recovery_detail ulower visit e upid reason =
     json_normal (sanitizeAuditValue ulower visit
       (AObj [(''reason'', AText reason), (''task_handle_sha256'', AText (hex_encode (Sum256 upid))),
              (''source_vmid'', AInt (sj_SourceVMID e)), (''target_vmid'', AInt (sj_TargetVMID e))]) 0)"

definition clone_recovery_tx ::
  "(string \<Rightarrow> string) \<Rightarrow> ((string \<times> audit_value) list \<Rightarrow> (string \<times> audit_value) list) \<Rightarrow> (string \<Rightarrow> string option) \<Rightarrow>
   (string \<Rightarrow> string \<Rightarrow> string option) \<Rightarrow> time \<Rightarrow> StoreJob \<Rightarrow> string \<Rightarrow> string \<Rightarrow> string \<Rightarrow> db \<Rightarrow> err + (unit \<times> db)" where
  "clone_recovery_tx ulower visit jsonb json_field now e upid actor reason d =
     bindE (query_row ErrConflict (\<lambda>u. u_id u = actor) (users d)) (\<lambda>u.
     bindE (guardE ErrConflict (u_role u = PlatformAdmin \<and> \<not> u_disabled u)) (\<lambda>_.
       case jsonb (sj_Request e) of
         None \<Rightarrow> Inl (SqlErr InvalidText)
       | Some request \<Rightarrow>
           bindE (update_jobs json_field (\<lambda>j. same_clone e j \<and> j_state j = ''accepted'' \<and> j_upid j = None \<and> j_request j = request)
                    (clone_running now upid) d) (\<lambda>(n, d1).
           bindE (guardE ErrConflict (n = 1)) (\<lambda>_.
           bindE (guardE (SqlErr UntranslatableCharacter) (json_nul_free (recovery_detail ulower visit e upid reason))) (\<lambda>_.
             Inr ((), insert_audit now (Some actor) ''job.clone_recovered'' ''success'' (Some ''job'') (Some (sj_ID e))
                        (recovery_detail ulower visit e upid reason) d1))))))"

definition CommitCloneRecovery ::
  "(string \<Rightarrow> string) \<Rightarrow> ((string \<times> audit_value) list \<Rightarrow> (string \<times> audit_value) list) \<Rightarrow> (string \<Rightarrow> string option) \<Rightarrow>
   (string \<Rightarrow> string \<Rightarrow> string option) \<Rightarrow> tx_fault \<Rightarrow> time \<Rightarrow> StoreJob \<Rightarrow> string \<Rightarrow> string \<Rightarrow> string \<Rightarrow> db \<Rightarrow> db \<times> (err + unit)" where
  "CommitCloneRecovery ulower visit jsonb json_field fault now e upid actor reason d =
     (let reason = TrimSpace reason
      in if \<not> recovery_job_ok e upid actor reason then (d, Inl ErrConflict)
         else run_tx fault (clone_recovery_tx ulower visit jsonb json_field now e upid actor reason) d)"

end
