(* ===== verification/Clone_Laws.thy ===== *)
theory Clone_Laws
  imports Pve_Jobs
begin

text \<open>
  What holds of jobs: a request is carried out once however often it is sent, a clone gets a target nobody
  has, and nobody reaches the target before its clone has succeeded.
\<close>

section \<open>The history of a job\<close>

definition job_request :: "Job \<Rightarrow> string \<times> string \<times> string \<times> string \<times> int option \<times> int option \<times> string option \<times> string option \<times> string \<times> string option \<times> time" where
  "job_request j =
     (j_id j, j_idempotency_key j, j_operation j, j_request_fingerprint j, j_source_vmid j, j_target_vmid j, j_target_node j, j_task_node j,
      j_request j, j_created_by j, j_created_at j)"

definition job_step :: "Job \<Rightarrow> Job \<Rightarrow> bool" where
  "job_step j k \<longleftrightarrow> job_request k = job_request j"

interpretation jh: row_history job_step
  by unfold_locales (auto simp: job_step_def)

abbreviation jobs_advance :: "db \<Rightarrow> db \<Rightarrow> bool" where
  "jobs_advance d d' \<equiv> rows_advance job_step (pve_jobs d) (pve_jobs d')"

definition jobs_kept :: "(string \<Rightarrow> string \<Rightarrow> string option) \<Rightarrow> db \<Rightarrow> db \<Rightarrow> bool" where
  "jobs_kept json_field d d' \<longleftrightarrow>
     (jobs_unique json_field (pve_jobs d) \<longrightarrow> jobs_unique json_field (pve_jobs d')) \<and> jobs_advance d d'"

lemma jobs_kept_refl [simp]: "jobs_kept jf d d"
  by (simp add: jobs_kept_def jh.advance_refl)

lemma jobs_kept_same: "pve_jobs d' = pve_jobs d \<Longrightarrow> jobs_kept jf d d'"
  by (simp add: jobs_kept_def jh.advance_refl)

lemma update_jobs_Inr:
  "update_jobs jf p f d = Inr (n, d') \<longleftrightarrow>
     list_all (\<lambda>j. 0 \<le> j_progress j \<and> j_progress j \<le> 100) (upd_where p f (pve_jobs d)) \<and> jobs_unique jf (upd_where p f (pve_jobs d)) \<and>
     n = length (filter p (pve_jobs d)) \<and> d' = d\<lparr>pve_jobs := upd_where p f (pve_jobs d)\<rparr>"
  by (auto simp: update_jobs_def Let_def bindE_eq_Inr guardE_eq_Inr)

lemma update_jobs_kept:
  assumes "update_jobs jf p f d = Inr (n, d')" "\<And>j. job_step j (f j)"
  shows "jobs_kept jf d d'"
  using assms by (auto simp: update_jobs_Inr jobs_kept_def intro!: jh.advance_upd_where)

lemma insert_job_Inr:
  "insert_job jf j d = Inr d' \<longleftrightarrow>
     jobs_unique jf (pve_jobs d @ [j]) \<and> user_ref_ok d (j_created_by j) \<and> d' = d\<lparr>pve_jobs := pve_jobs d @ [j]\<rparr>"
  by (auto simp: insert_job_def bindE_eq_Inr guardE_eq_Inr)

lemma insert_job_kept: "insert_job jf j d = Inr d' \<Longrightarrow> jobs_kept jf d d'"
  by (auto simp: insert_job_Inr jobs_kept_def jh.advance_append)

lemma job_steps: "job_step j (job_task now st up msg j)" "job_step j (job_progress now st pr det msg j)" "job_step j (clone_running now up j)"
  by (simp_all add: job_step_def job_request_def job_task_def job_progress_def clone_running_def)

lemma run_tx_jobs: "(\<And>x d'. body d = Inr (x, d') \<Longrightarrow> jobs_kept jf d d') \<Longrightarrow> jobs_kept jf d (fst (run_tx fault body d))"
  by (rule run_tx_preserves) auto

lemma create_job_kept: "create_job_tx jsonb jf now job d = Inr (x, d') \<Longrightarrow> jobs_kept jf d d'"
  by (auto simp: create_job_tx_def bindE_eq_Inr insert_job_kept split: option.splits if_splits)

lemma reserve_kept: "reserve_tx jsonb jf now job inventory d = Inr (x, d') \<Longrightarrow> jobs_kept jf d d'"
  by (auto simp: reserve_tx_def bindE_eq_Inr mapErr_eq_Inr insert_job_kept split: option.splits if_splits)

lemma recovery_kept: "clone_recovery_tx ul visit jsonb jf now e upid actor reason d = Inr (x, d') \<Longrightarrow> jobs_kept jf d d'"
proof -
  assume "clone_recovery_tx ul visit jsonb jf now e upid actor reason d = Inr (x, d')"
  then obtain r n d1 where "update_jobs jf (\<lambda>j. same_clone e j \<and> j_state j = ''accepted'' \<and> j_upid j = None \<and> j_request j = r)
      (clone_running now upid) d = Inr (n, d1)" and "pve_jobs d' = pve_jobs d1"
    by (auto simp: clone_recovery_tx_def bindE_eq_Inr insert_audit_def split: option.splits)
  then show ?thesis using update_jobs_kept job_steps(3) by (fastforce simp: jobs_kept_def)
qed

text \<open>The operations, and any step of the rest of the store.\<close>

inductive job_run :: "(string \<Rightarrow> string \<Rightarrow> string option) \<Rightarrow> db \<Rightarrow> db \<Rightarrow> bool" for jf where
  create: "job_run jf d (fst (CreateJob jsonb jf fault fault2 fault3 now job d))"
| reserve: "job_run jf d (fst (reserveDesktopCloneJob jsonb jf fault fault2 now job inventory d))"
| update: "job_run jf d (fst (UpdateJobTask jf fault now jid state upid message d))"
| complete: "job_run jf d (fst (CompleteJobTask jf fault now jid state upid message d))"
| progress: "job_run jf d (fst (UpdateJobProgress jf fault now jid state pct detail message d))"
| handle: "job_run jf d (fst (RecordCloneTaskHandle jf fault now e upid d))"
| recover: "job_run jf d (fst (CommitCloneRecovery ul visit jsonb jf fault now e upid actor reason d))"
| other: "pve_jobs d' = pve_jobs d \<Longrightarrow> job_run jf d d'"

lemma CreateJob_state: "fst (CreateJob jsonb jf fault fault2 fault3 now job d) = fst (run_tx fault (create_job_tx jsonb jf now job) d)"
  by (simp add: CreateJob_def split: prod.splits sum.splits)

lemma reserve_state:
  "fst (reserveDesktopCloneJob jsonb jf fault fault2 now job inventory d) =
     (if reserve_request_ok job then fst (run_tx fault (reserve_tx jsonb jf now job inventory) d) else d)"
  by (simp add: reserveDesktopCloneJob_def split: prod.splits sum.splits bool.splits)

lemma job_run_kept: "job_run jf d d' \<Longrightarrow> jobs_kept jf d d'"
proof (induction rule: job_run.induct)
  case create
  then show ?case unfolding CreateJob_state by (rule run_tx_jobs) (rule create_job_kept)
next
  case reserve
  then show ?case unfolding reserve_state by (auto intro!: run_tx_jobs dest: reserve_kept)
next
  case update
  then show ?case by (auto simp: UpdateJobTask_def intro!: run_tx_jobs update_jobs_kept job_steps)
next
  case complete
  then show ?case by (auto simp: CompleteJobTask_def intro!: run_tx_jobs update_jobs_kept job_steps)
next
  case progress
  then show ?case by (auto simp: UpdateJobProgress_def intro!: run_tx_jobs update_jobs_kept job_steps)
next
  case handle
  then show ?case by (auto simp: RecordCloneTaskHandle_def intro!: run_tx_jobs update_jobs_kept job_steps)
next
  case recover
  then show ?case by (auto simp: CommitCloneRecovery_def Let_def intro!: run_tx_jobs dest: recovery_kept)
next
  case other
  then show ?case by (rule jobs_kept_same)
qed

lemma job_runs_kept:
  assumes "(job_run jf)\<^sup>*\<^sup>* d d'" "jobs_unique jf (pve_jobs d)"
  shows "jobs_unique jf (pve_jobs d') \<and> jobs_advance d d'"
  using jh.advance_steps [of "job_run jf" d d' "\<lambda>d. jobs_unique jf (pve_jobs d)" pve_jobs] assms job_run_kept
  by (auto simp: jobs_kept_def)

section \<open>One job per request\<close>

lemma find_key:
  assumes "jobs_unique jf (pve_jobs d)" "j \<in> set (pve_jobs d)" "j_idempotency_key j = key"
  shows "find (\<lambda>k. j_idempotency_key k = key) (pve_jobs d) = Some j"
  by (rule unique_by_find [of j_idempotency_key]) (use assms in \<open>auto simp: jobs_unique_def\<close>)

lemma filter_find: "find p t = Some r \<Longrightarrow> \<exists>q. filter p t = r # q"
  by (induction t) (auto split: if_splits)

lemma JobByIdempotencyKey_row:
  assumes "jobs_unique jf (pve_jobs d)" "j \<in> set (pve_jobs d)" "j_idempotency_key j = key"
  shows "JobByIdempotencyKey NoFault key d = Inr (scan_job j)"
  using filter_find [OF find_key [OF assms]] by (auto simp: JobByIdempotencyKey_def jobByQuery_def run_query_def)

lemma JobForRequest_row:
  assumes "jobs_unique jf (pve_jobs d)" "j \<in> set (pve_jobs d)" "j_idempotency_key j = key"
  shows "JobForRequest NoFault NoFault key fp d = (if j_request_fingerprint j = fp then Inr (scan_job j) else Inl ErrConflict)"
  using find_key [OF assms] JobByIdempotencyKey_row [OF assms] by (simp add: JobForRequest_def run_query_def query_row_def)

lemma JobForRequest_Inr:
  assumes "JobForRequest f1 f2 key fp d = Inr stored" "jobs_unique jf (pve_jobs d)"
  obtains j where "j \<in> set (pve_jobs d)" "j_idempotency_key j = key" "j_request_fingerprint j = fp" "stored = scan_job j"
proof -
  obtain j where j: "find (\<lambda>j. j_idempotency_key j = key) (pve_jobs d) = Some j" "j_request_fingerprint j = fp"
    "f1 = NoFault" "f2 = NoFault"
    using assms(1)
    by (auto simp: JobForRequest_def run_query_def query_row_def JobByIdempotencyKey_def jobByQuery_def bindE_eq_Inr split: if_splits option.splits)
  then have m: "j \<in> set (pve_jobs d)" "j_idempotency_key j = key" using find_SomeD by fastforce+
  then have "stored = scan_job j" using assms(1) j JobForRequest_row [OF assms(2) m] by simp
  with m j(2) that show thesis by blast
qed

text \<open>
  C29. A request is carried out once: after a job has been created or found for an idempotency key, sending
  the key again, whenever and after whatever happened to the jobs, changes nothing; it returns the same job
  when the fingerprint of the request is the same and is a conflict when it is not.
\<close>

theorem CreateJob_idempotent:
  assumes "jobs_unique jf (pve_jobs d)"
    and "CreateJob jsonb jf f1 f2 f3 now job d = (d1, Inr (stored, created))"
    and "(job_run jf)\<^sup>*\<^sup>* d1 d2"
    and "sj_IdempotencyKey again = sj_IdempotencyKey job" "jsonb2 (sj_Request again) \<noteq> None"
  shows "fst (CreateJob jsonb2 jf NoFault NoFault NoFault now2 again d2) = d2 \<and>
    (if sj_RequestFingerprint again = sj_RequestFingerprint job
     then (\<exists>same. snd (CreateJob jsonb2 jf NoFault NoFault NoFault now2 again d2) = Inr (same, False) \<and>
             sj_ID same = sj_ID stored \<and> sj_Operation same = sj_Operation stored \<and> sj_TargetVMID same = sj_TargetVMID stored)
     else snd (CreateJob jsonb2 jf NoFault NoFault NoFault now2 again d2) = Inl ErrConflict)"
proof -
  have tx: "create_job_tx jsonb jf now job d = Inr (created, d1)"
    and fr: "JobForRequest f2 f3 (sj_IdempotencyKey job) (sj_RequestFingerprint job) d1 = Inr stored"
    using assms(2) by (auto simp: CreateJob_def run_tx_eq_Inr bindE_eq_Inr split: prod.splits sum.splits)
  have u1: "jobs_unique jf (pve_jobs d1)" using create_job_kept [OF tx] assms(1) by (simp add: jobs_kept_def)
  obtain j where j: "j \<in> set (pve_jobs d1)" "j_idempotency_key j = sj_IdempotencyKey job" "j_request_fingerprint j = sj_RequestFingerprint job"
    "stored = scan_job j" by (rule JobForRequest_Inr [OF fr u1])
  have d2: "jobs_unique jf (pve_jobs d2)" "jobs_advance d1 d2" using job_runs_kept [OF assms(3) u1] by simp_all
  obtain k where k: "k \<in> set (pve_jobs d2)" "job_request k = job_request j"
    using rows_advance_member [OF d2(2) j(1)] by (auto simp: job_step_def)
  have kk: "j_idempotency_key k = sj_IdempotencyKey again" "j_request_fingerprint k = sj_RequestFingerprint job"
    using k(2) j(2,3) assms(4) by (auto simp: job_request_def)
  have "create_job_tx jsonb2 jf now2 again d2 = Inr (False, d2)"
    using assms(5) k(1) kk(1) by (auto simp: create_job_tx_def list_ex_iff)
  moreover note JobForRequest_row [OF d2(1) k(1) kk(1)]
  moreover have "sj_ID (scan_job k) = sj_ID stored" "sj_Operation (scan_job k) = sj_Operation stored" "sj_TargetVMID (scan_job k) = sj_TargetVMID stored"
    using k(2) j(4) by (auto simp: scan_job_def job_request_def)
  ultimately show ?thesis using kk(2) by (auto simp: CreateJob_def)
qed

section \<open>Clone targets\<close>

lemma reserve_Inr:
  assumes "reserveDesktopCloneJob jsonb jf f1 f2 now job inventory d = (d1, Inr (stored, True))"
  obtains vmid request where "reserve_request_ok job" "choose_target job inventory d = Inr vmid" "\<not> target_occupied d vmid"
    "jobs_unique jf (pve_jobs d1)" "d1 = d\<lparr>pve_jobs := pve_jobs d @ [job_row now (job\<lparr>sj_TargetVMID := vmid\<rparr>) request]\<rparr>"
    "stored = scan_job (job_row now (job\<lparr>sj_TargetVMID := vmid\<rparr>) request)"
proof -
  have ok: "reserve_request_ok job" and tx: "reserve_tx jsonb jf now job inventory d = Inr (True, d1)"
    and st: "JobByID f2 (sj_ID job) d1 = Inr stored"
    using assms by (auto simp: reserveDesktopCloneJob_def run_tx_eq_Inr bindE_eq_Inr split: if_splits prod.splits sum.splits bool.splits)
  from tx obtain vmid request where v: "choose_target job inventory d = Inr vmid" "\<not> target_occupied d vmid"
    "insert_job jf (job_row now (job\<lparr>sj_TargetVMID := vmid\<rparr>) request) d = Inr d1"
    by (auto simp: reserve_tx_def bindE_eq_Inr mapErr_eq_Inr guardE_eq_Inr split: option.splits if_splits)
  let ?r = "job_row now (job\<lparr>sj_TargetVMID := vmid\<rparr>) request"
  have i: "jobs_unique jf (pve_jobs d @ [?r])" "d1 = d\<lparr>pve_jobs := pve_jobs d @ [?r]\<rparr>" using v(3) by (auto simp: insert_job_Inr)
  have found: "find (\<lambda>j. j_id j = sj_ID job) (pve_jobs d1) = Some ?r"
    by (rule unique_by_find [of j_id]) (use i in \<open>auto simp: jobs_unique_def job_row_def\<close>)
  obtain q where "filter (\<lambda>j. j_id j = sj_ID job) (pve_jobs d1) = ?r # q" using filter_find [OF found] by auto
  then have "stored = scan_job ?r" using st by (simp add: JobByID_def jobByQuery_def run_query_def split: if_splits)
  moreover have "jobs_unique jf (pve_jobs d1)" using i by simp
  ultimately show thesis by (intro that [OF ok v(1,2) _ i(2)])
qed

lemma coalesce0_nullable [simp]: "coalesce0 (nullableInt n) = n"
  by (simp add: coalesce0_def nullableInt_def)

lemma choose_target_bounds:
  assumes "choose_target job inventory d = Inr vmid" "reserve_request_ok job"
  shows "0 < vmid \<and> vmid \<noteq> sj_SourceVMID job"
proof (cases inventory)
  case None
  then show ?thesis using assms by (auto simp: choose_target_def reserve_request_ok_def)
next
  case (Some occupied)
  then have "vmid \<in> set (clone_candidates (sj_TargetVMID job))" "vmid_free (sj_SourceVMID job) occupied d vmid"
    using assms(1) by (auto simp: choose_target_def split: if_splits option.splits dest!: find_SomeD)
  then show ?thesis using assms(2) by (auto simp: reserve_request_ok_def vmid_free_def clone_candidates_def)
qed


lemma find_window:
  assumes "find p (map (\<lambda>i. (a :: int) + int i) [0..<n]) = Some v"
  shows "a \<le> v \<and> v < a + int n \<and> p v \<and> (\<forall>c. a \<le> c \<and> c < v \<longrightarrow> \<not> p c)"
proof -
  obtain i where i: "i < n" "v = a + int i" "p v" "\<forall>j<i. \<not> p (a + int j)"
    using assms by (auto simp: find_Some_iff)
  have "\<not> p c" if "a \<le> c" "c < v" for c
  proof -
    have "c = a + int (nat (c - a))" "nat (c - a) < i" using that i(2) by auto
    then show ?thesis using i(4) by metis
  qed
  then show ?thesis using i by auto
qed

text \<open>
  With the inventory of the cluster the reservation takes the least free identifier of the 1024 from the
  suggested one: free of desktops, of clone and image build targets, of the machines in the inventory and
  not the source.
\<close>

theorem ReserveAvailableDesktopCloneJob_least:
  assumes "ReserveAvailableDesktopCloneJob jsonb jf f1 f2 now job occupied d = (d1, Inr (stored, True))"
  shows "sj_TargetVMID job \<le> sj_TargetVMID stored \<and> sj_TargetVMID stored < sj_TargetVMID job + 1024 \<and>
    vmid_free (sj_SourceVMID job) occupied d (sj_TargetVMID stored) \<and>
    (\<forall>c. sj_TargetVMID job \<le> c \<and> c < sj_TargetVMID stored \<longrightarrow> \<not> vmid_free (sj_SourceVMID job) occupied d c)"
proof -
  obtain vmid request where r: "choose_target job (Some occupied) d = Inr vmid"
    "stored = scan_job (job_row now (job\<lparr>sj_TargetVMID := vmid\<rparr>) request)"
    by (rule reserve_Inr [OF assms [unfolded ReserveAvailableDesktopCloneJob_def]])
  have "find (vmid_free (sj_SourceVMID job) occupied d) (clone_candidates (sj_TargetVMID job)) = Some vmid"
    using r(1) by (auto simp: choose_target_def split: if_splits option.splits)
  from find_window [OF this [unfolded clone_candidates_def]] show ?thesis by (simp add: r(2) scan_job_def job_row_def)
qed

section \<open>Witnesses\<close>

definition ex_job :: StoreJob where
  "ex_job = \<lparr>sj_RequestFingerprint = ''f1'', sj_ID = ''job_1'', sj_IdempotencyKey = ''k1'', sj_Operation = ''pve.template_clone'',
     sj_State = ''accepted'', sj_SourceVMID = 9000, sj_TargetVMID = 100, sj_TargetNode = ''pve1'', sj_TaskNode = ''pve1'', sj_UPID = [],
     sj_Request = ''{}'', sj_Progress = 0, sj_Detail = [], sj_Error = [], sj_CreatedBy = [], sj_CreatedAt = 0, sj_UpdatedAt = 0\<rparr>"

definition ex_jobs_db :: db where
  "ex_jobs_db = empty_db\<lparr>managed_desktops := [ex_desktop]\<rparr>"

lemma ex_jobs_unique: "jobs_unique jf (pve_jobs ex_jobs_db)"
  by (simp add: jobs_unique_def ex_jobs_db_def empty_db_def)

lemma ex_create:
  "\<exists>d1 stored. CreateJob Some (\<lambda>_ _. None) NoFault NoFault NoFault 5 ex_job ex_jobs_db = (d1, Inr (stored, True)) \<and> sj_ID stored = ''job_1''"
proof -
  let ?r = "job_row 5 ex_job ''{}''"
  let ?d1 = "ex_jobs_db\<lparr>pve_jobs := [?r]\<rparr>"
  have no: "pve_jobs ex_jobs_db = []" by (simp add: ex_jobs_db_def empty_db_def)
  have u: "jobs_unique (\<lambda>_ _. None) (pve_jobs ?d1)" by (simp add: jobs_unique_def active_build_def)
  have "create_job_tx Some (\<lambda>_ _. None) 5 ex_job ex_jobs_db = Inr (True, ?d1)"
    using u no by (simp add: create_job_tx_def insert_job_def user_ref_ok_def) (simp add: ex_job_def job_row_def nullableString_def)
  moreover have "j_idempotency_key ?r = sj_IdempotencyKey ex_job" "j_request_fingerprint ?r = sj_RequestFingerprint ex_job"
    by (simp_all add: job_row_def)
  then have "JobForRequest NoFault NoFault (sj_IdempotencyKey ex_job) (sj_RequestFingerprint ex_job) ?d1 = Inr (scan_job ?r)"
    using JobForRequest_row [OF u, of ?r] by simp
  ultimately show ?thesis by (simp add: CreateJob_def) (simp add: scan_job_def job_row_def ex_job_def)
qed

theorem CreateJob_idempotent_witness:
  "\<exists>d1 stored same. CreateJob Some (\<lambda>_ _. None) NoFault NoFault NoFault 5 ex_job ex_jobs_db = (d1, Inr (stored, True)) \<and>
     snd (CreateJob Some (\<lambda>_ _. None) NoFault NoFault NoFault 6 (ex_job\<lparr>sj_ID := ''job_2''\<rparr>) d1) = Inr (same, False) \<and> sj_ID same = ''job_1''"
proof -
  obtain d1 stored where c: "CreateJob Some (\<lambda>_ _. None) NoFault NoFault NoFault 5 ex_job ex_jobs_db = (d1, Inr (stored, True))" "sj_ID stored = ''job_1''"
    using ex_create by blast
  from CreateJob_idempotent [OF ex_jobs_unique c(1) rtranclp.rtrancl_refl, of "ex_job\<lparr>sj_ID := ''job_2''\<rparr>" Some 6] c show ?thesis
    by auto
qed

lemma ex_window: "find (vmid_free 9000 [101] ex_jobs_db) (clone_candidates 100) = Some 102"
proof -
  obtain xs where "[0..<3 + 1021] = [0..<3] @ xs" using upt_add_eq_append [of 0 3 1021] by blast
  moreover have "(3 :: nat) + 1021 = 1024" "[0..<3] = [0, 1, 2]" by (simp_all add: upt_rec)
  ultimately have w: "[0..<1024] = [0, 1, 2] @ xs" by (simp only:)
  show ?thesis unfolding clone_candidates_def w by (simp add: vmid_free_def ex_jobs_db_def empty_db_def ex_desktop_def)
qed

lemma ex_reserve:
  "\<exists>d1 stored. ReserveAvailableDesktopCloneJob Some (\<lambda>_ _. None) NoFault NoFault 5 ex_job [101] ex_jobs_db = (d1, Inr (stored, True)) \<and>
     sj_TargetVMID stored = 102"
proof -
  let ?r = "job_row 5 (ex_job\<lparr>sj_TargetVMID := 102\<rparr>) ''{}''"
  let ?d1 = "ex_jobs_db\<lparr>pve_jobs := [?r]\<rparr>"
  have "choose_target ex_job (Some [101]) ex_jobs_db = Inr 102"
    using ex_window by (simp add: choose_target_def ex_job_def)
  moreover have "\<not> target_occupied ex_jobs_db 102" by (simp add: target_occupied_def ex_jobs_db_def empty_db_def ex_desktop_def)
  moreover have "pve_jobs ex_jobs_db = []" by (simp add: ex_jobs_db_def empty_db_def)
  moreover have "sj_Request ex_job = ''{}''" "sj_CreatedBy ex_job = []" by (simp_all add: ex_job_def)
  ultimately have "reserve_tx Some (\<lambda>_ _. None) 5 ex_job (Some [101]) ex_jobs_db = Inr (True, ?d1)"
    by (simp add: reserve_tx_def insert_job_def jobs_unique_def active_build_def user_ref_ok_def) (simp add: job_row_def nullableString_def)
  moreover have "reserve_request_ok ex_job" by (simp add: reserve_request_ok_def ex_job_def)
  moreover have "JobByID NoFault (sj_ID ex_job) ?d1 = Inr (scan_job ?r)"
    by (simp add: JobByID_def jobByQuery_def run_query_def) (simp add: job_row_def)
  ultimately show ?thesis
    by (simp add: ReserveAvailableDesktopCloneJob_def reserveDesktopCloneJob_def) (simp add: scan_job_def job_row_def)
qed

theorem ReserveAvailableDesktopCloneJob_least_witness:
  "\<exists>d1 stored. ReserveAvailableDesktopCloneJob Some (\<lambda>_ _. None) NoFault NoFault 5 ex_job [101] ex_jobs_db = (d1, Inr (stored, True)) \<and>
     sj_TargetVMID stored = 102 \<and> \<not> vmid_free 9000 [101] ex_jobs_db 101"
proof -
  obtain d1 stored where r: "ReserveAvailableDesktopCloneJob Some (\<lambda>_ _. None) NoFault NoFault 5 ex_job [101] ex_jobs_db = (d1, Inr (stored, True))"
    "sj_TargetVMID stored = 102" using ex_reserve by blast
  have "sj_SourceVMID ex_job = 9000" "sj_TargetVMID ex_job = 100" by (simp_all add: ex_job_def)
  with ReserveAvailableDesktopCloneJob_least [OF r(1)] r show ?thesis by auto
qed


end
