(* ===== verification/Images.thy ===== *)
theory Images
  imports Pve_Jobs
begin

text \<open>
  Image and GPU profiles (src/internal/store/store.go) and the reserved virtual machine identifiers
  (image_inventory.go).  The two tables of migrations 006 to 010 are the record \<open>catalog\<close>; only
  \<open>ImageReservedVMIDs\<close> also reads the jobs.
\<close>

section \<open>Tables\<close>

text \<open>A profile; the template is an integer in Go, with 0 for none, and nullable in the table.\<close>

record 'v image_columns =
  im_ID :: string
  im_DisplayName :: string
  im_OSFamily :: string
  im_OSVersion :: string
  im_Architecture :: string
  im_Lifecycle :: string
  im_Enabled :: bool
  im_SourceNode :: string
  im_SourceISO :: string
  im_SourceISOChecksum :: string
  im_DriverISO :: string
  im_DriverISOChecksum :: string
  im_TemplateVMID :: 'v
  im_MirrorURL :: string
  im_SecurityMirrorURL :: string
  im_StoragePool :: string
  im_Bridge :: string
  im_WindowsImageName :: string
  im_DefaultCores :: int
  im_DefaultMemoryMB :: int
  im_DefaultDiskGB :: int
  im_Firmware :: string
  im_TPMVersion :: string
  im_AgentKind :: string
  im_DesktopProtocol :: string
  im_DefaultGPUProfileID :: string
  im_BuildStatus :: string
  im_StatusDetail :: string
  im_UpdatedAt :: time

type_synonym ImageProfile = "int image_columns"
type_synonym ImageProfileRow = "int option image_columns"

record GPUProfile =
  gp_ID :: string
  gp_DisplayName :: string
  gp_Mode :: string
  gp_VendorID :: string
  gp_DeviceClass :: string
  gp_ResourceMapping :: string
  gp_MDevType :: string
  gp_Enabled :: bool
  gp_Exclusive :: bool
  gp_AllowLiveMigration :: bool
  gp_UpdatedAt :: time

record catalog =
  image_profiles :: "ImageProfileRow list"
  gpu_profiles :: "GPUProfile list"

definition with_template :: "'v \<Rightarrow> 'u image_columns \<Rightarrow> 'v image_columns" where
  "with_template v p =
     \<lparr>im_ID = im_ID p, im_DisplayName = im_DisplayName p, im_OSFamily = im_OSFamily p, im_OSVersion = im_OSVersion p,
      im_Architecture = im_Architecture p, im_Lifecycle = im_Lifecycle p, im_Enabled = im_Enabled p,
      im_SourceNode = im_SourceNode p, im_SourceISO = im_SourceISO p, im_SourceISOChecksum = im_SourceISOChecksum p,
      im_DriverISO = im_DriverISO p, im_DriverISOChecksum = im_DriverISOChecksum p, im_TemplateVMID = v,
      im_MirrorURL = im_MirrorURL p, im_SecurityMirrorURL = im_SecurityMirrorURL p, im_StoragePool = im_StoragePool p,
      im_Bridge = im_Bridge p, im_WindowsImageName = im_WindowsImageName p, im_DefaultCores = im_DefaultCores p,
      im_DefaultMemoryMB = im_DefaultMemoryMB p, im_DefaultDiskGB = im_DefaultDiskGB p, im_Firmware = im_Firmware p,
      im_TPMVersion = im_TPMVersion p, im_AgentKind = im_AgentKind p, im_DesktopProtocol = im_DesktopProtocol p,
      im_DefaultGPUProfileID = im_DefaultGPUProfileID p, im_BuildStatus = im_BuildStatus p,
      im_StatusDetail = im_StatusDetail p, im_UpdatedAt = im_UpdatedAt p\<rparr>"

definition scan_image :: "ImageProfileRow \<Rightarrow> ImageProfile" where
  "scan_image p = with_template (coalesce0 (im_TemplateVMID p)) p"

definition image_check :: "ImageProfileRow \<Rightarrow> bool" where
  "image_check p \<longleftrightarrow>
     im_OSFamily p \<in> set [''linux'', ''windows''] \<and> im_Lifecycle p \<in> set [''supported'', ''legacy''] \<and>
     im_AgentKind p \<in> set [''linux'', ''windows''] \<and> im_DesktopProtocol p = ''rdp'' \<and>
     im_BuildStatus p \<in> set [''draft'', ''blocked'', ''building'', ''testing'', ''ready'', ''failed'']"

definition hardware_check :: "ImageProfileRow \<Rightarrow> bool" where
  "hardware_check p \<longleftrightarrow>
     1 \<le> im_DefaultCores p \<and> im_DefaultCores p \<le> 256 \<and> 512 \<le> im_DefaultMemoryMB p \<and> im_DefaultMemoryMB p \<le> 1048576 \<and>
     8 \<le> im_DefaultDiskGB p \<and> im_DefaultDiskGB p \<le> 16384 \<and> im_Firmware p \<in> set [''seabios'', ''uefi''] \<and>
     im_TPMVersion p \<in> set [''none'', ''2.0'']"

section \<open>Image profiles\<close>

definition family_rank :: "ImageProfileRow \<Rightarrow> nat" where
  "family_rank p = (if im_OSFamily p = ''linux'' then 0 else 1)"

definition ImageProfiles :: "(string \<Rightarrow> string \<Rightarrow> bool) \<Rightarrow> tx_fault \<Rightarrow> catalog \<Rightarrow> err + ImageProfile list" where
  "ImageProfiles coll fault k =
     run_query fault (\<lambda>k. Inr (map scan_image
       (order_by (then_by (by_key (\<le>) family_rank) (by_key coll im_ID)) (image_profiles k)))) k"

definition ImageProfileByID :: "tx_fault \<Rightarrow> string \<Rightarrow> catalog \<Rightarrow> err + ImageProfile" where
  "ImageProfileByID fault pid k =
     run_query fault (\<lambda>k. bindE (query_row ErrNotFound (\<lambda>p. im_ID p = pid) (image_profiles k)) (\<lambda>p. Inr (scan_image p))) k"

text \<open>\<open>count(*) OVER ()\<close> is the number of rows selected.\<close>

definition template_rows :: "int \<Rightarrow> catalog \<Rightarrow> ImageProfileRow list" where
  "template_rows vmid k = filter (\<lambda>p. im_TemplateVMID p = Some vmid \<and> vmid > 0) (image_profiles k)"

definition ImageProfileByTemplateVMID :: "tx_fault \<Rightarrow> int \<Rightarrow> catalog \<Rightarrow> err + ImageProfile" where
  "ImageProfileByTemplateVMID fault vmid k =
     run_query fault (\<lambda>k.
       (case template_rows vmid k of
          [] \<Rightarrow> Inl ErrNotFound
        | p # _ \<Rightarrow> if length (template_rows vmid k) \<noteq> 1 then Inl ErrConflict else Inr (scan_image p))) k"

definition edited_image :: "time \<Rightarrow> ImageProfile \<Rightarrow> ImageProfileRow \<Rightarrow> ImageProfileRow" where
  "edited_image now p row =
     row\<lparr>im_DisplayName := im_DisplayName p, im_Enabled := im_Enabled p, im_SourceNode := im_SourceNode p,
         im_SourceISO := im_SourceISO p, im_SourceISOChecksum := im_SourceISOChecksum p, im_DriverISO := im_DriverISO p,
         im_DriverISOChecksum := im_DriverISOChecksum p, im_TemplateVMID := nullableInt (im_TemplateVMID p),
         im_MirrorURL := im_MirrorURL p, im_SecurityMirrorURL := im_SecurityMirrorURL p, im_StoragePool := im_StoragePool p,
         im_Bridge := im_Bridge p, im_WindowsImageName := im_WindowsImageName p,
         im_DefaultGPUProfileID := im_DefaultGPUProfileID p, im_BuildStatus := im_BuildStatus p,
         im_StatusDetail := im_StatusDetail p, im_DefaultCores := im_DefaultCores p, im_DefaultMemoryMB := im_DefaultMemoryMB p,
         im_DefaultDiskGB := im_DefaultDiskGB p, im_Firmware := im_Firmware p, im_TPMVersion := im_TPMVersion p,
         im_UpdatedAt := now\<rparr>"

text \<open>One \<open>UPDATE\<close> of the table: the constraints and the reference to a GPU profile.\<close>

definition update_images ::
  "(ImageProfileRow \<Rightarrow> bool) \<Rightarrow> (ImageProfileRow \<Rightarrow> ImageProfileRow) \<Rightarrow> catalog \<Rightarrow> err + (ImageProfileRow list \<times> catalog)" where
  "update_images q f k =
     (let new = map f (filter q (image_profiles k)) in
      bindE (guardE (SqlErr CheckViolation) (list_all (\<lambda>p. image_check p \<and> hardware_check p) new)) (\<lambda>_.
      bindE (guardE (SqlErr ForeignKeyViolation)
               (list_all (\<lambda>p. list_ex (\<lambda>g. gp_ID g = im_DefaultGPUProfileID p) (gpu_profiles k)) new)) (\<lambda>_.
        Inr (new, k\<lparr>image_profiles := upd_where q f (image_profiles k)\<rparr>))))"

definition UpdateImageProfile :: "tx_fault \<Rightarrow> time \<Rightarrow> ImageProfile \<Rightarrow> catalog \<Rightarrow> catalog \<times> (err + ImageProfile)" where
  "UpdateImageProfile fault now p k =
     run_tx fault (\<lambda>k.
       bindE (bindE (update_images (\<lambda>row. im_ID row = im_ID p) (edited_image now p) k) (first_row ErrNotFound)) (\<lambda>(row, k1).
         Inr (scan_image row, k1))) k"

definition UpdateImageBuildState :: "tx_fault \<Rightarrow> time \<Rightarrow> string \<Rightarrow> string \<Rightarrow> string \<Rightarrow> catalog \<Rightarrow> catalog \<times> (err + unit)" where
  "UpdateImageBuildState fault now pid state detail k =
     run_tx fault (\<lambda>k.
       bindE (update_images (\<lambda>row. im_ID row = pid)
                (\<lambda>row. row\<lparr>im_BuildStatus := state, im_StatusDetail := detail, im_UpdatedAt := now\<rparr>) k) (\<lambda>(_, k1). Inr ((), k1))) k"

section \<open>GPU profiles\<close>

definition mode_rank :: "GPUProfile \<Rightarrow> nat" where
  "mode_rank g = (if gp_Mode g = ''none'' then 0 else 1)"

definition GPUProfiles :: "(string \<Rightarrow> string \<Rightarrow> bool) \<Rightarrow> tx_fault \<Rightarrow> catalog \<Rightarrow> err + GPUProfile list" where
  "GPUProfiles coll fault k =
     run_query fault (\<lambda>k. Inr (order_by (then_by (by_key (\<le>) mode_rank) (by_key coll gp_ID)) (gpu_profiles k))) k"

definition GPUProfileByID :: "tx_fault \<Rightarrow> string \<Rightarrow> catalog \<Rightarrow> err + GPUProfile" where
  "GPUProfileByID fault pid k = run_query fault (\<lambda>k. query_row ErrNotFound (\<lambda>g. gp_ID g = pid) (gpu_profiles k)) k"

definition edited_gpu :: "time \<Rightarrow> GPUProfile \<Rightarrow> GPUProfile \<Rightarrow> GPUProfile" where
  "edited_gpu now p g =
     g\<lparr>gp_DisplayName := gp_DisplayName p, gp_ResourceMapping := gp_ResourceMapping p, gp_Enabled := gp_Enabled p, gp_UpdatedAt := now\<rparr>"

definition UpdateGPUProfile :: "tx_fault \<Rightarrow> time \<Rightarrow> GPUProfile \<Rightarrow> catalog \<Rightarrow> catalog \<times> (err + GPUProfile)" where
  "UpdateGPUProfile fault now p k =
     run_tx fault (\<lambda>k.
       bindE (query_row ErrNotFound (\<lambda>g. gp_ID g = gp_ID p) (gpu_profiles k)) (\<lambda>g.
         Inr (edited_gpu now p g,
              k\<lparr>gpu_profiles := upd_where (\<lambda>g. gp_ID g = gp_ID p) (edited_gpu now p) (gpu_profiles k)\<rparr>))) k"

section \<open>Reserved identifiers\<close>

definition build_reserves :: "Job \<Rightarrow> bool" where
  "build_reserves j \<longleftrightarrow>
     j_operation j = ''image.build'' \<and> j_state j \<in> set [''accepted'', ''running'', ''failed''] \<and>
     (case j_target_vmid j of None \<Rightarrow> False | Some vmid \<Rightarrow> vmid > 0)"

text \<open>The keys of the map.\<close>

definition ImageReservedVMIDs :: "tx_fault \<Rightarrow> catalog \<Rightarrow> db \<Rightarrow> err + int set" where
  "ImageReservedVMIDs fault k d =
     (if fault \<noteq> NoFault then Inl DriverErr
      else Inr (set (filter (\<lambda>vmid. vmid > 0) (List.map_filter im_TemplateVMID (image_profiles k))) \<union>
                set (List.map_filter j_target_vmid (filter build_reserves (pve_jobs d)))))"

section \<open>Properties\<close>

text \<open>The profiles keep their keys, satisfy the constraints and refer to GPU profiles.\<close>

definition catalog_inv :: "catalog \<Rightarrow> bool" where
  "catalog_inv k \<longleftrightarrow>
     unique_by im_ID (image_profiles k) \<and> unique_by gp_ID (gpu_profiles k) \<and>
     list_all (\<lambda>p. image_check p \<and> hardware_check p) (image_profiles k) \<and>
     list_all (\<lambda>p. list_ex (\<lambda>g. gp_ID g = im_DefaultGPUProfileID p) (gpu_profiles k)) (image_profiles k)"

lemma map_upd_where: "(\<And>r. q r \<Longrightarrow> key (f r) = key r) \<Longrightarrow> map key (upd_where q f t) = map key t"
  by (simp add: upd_where_def)

lemma update_images_Inr:
  assumes "update_images q f k = Inr (rows, k')"
  shows "rows = map f (filter q (image_profiles k)) \<and> k' = k\<lparr>image_profiles := upd_where q f (image_profiles k)\<rparr>"
  using assms by (auto simp: update_images_def Let_def bindE_eq_Inr)

lemma update_images_inv:
  assumes "update_images q f k = Inr (rows, k')" "catalog_inv k" "\<And>p. im_ID (f p) = im_ID p"
  shows "catalog_inv k'"
proof -
  have new: "list_all (\<lambda>p. image_check p \<and> hardware_check p) (map f (filter q (image_profiles k)))"
      "list_all (\<lambda>p. list_ex (\<lambda>g. gp_ID g = im_DefaultGPUProfileID p) (gpu_profiles k)) (map f (filter q (image_profiles k)))"
    and k': "k' = k\<lparr>image_profiles := upd_where q f (image_profiles k)\<rparr>"
    using assms(1) by (auto simp: update_images_def Let_def bindE_eq_Inr guardE_def split: if_splits)
  have "unique_by im_ID (image_profiles k')" using assms(2,3) by (simp add: k' catalog_inv_def map_upd_where)
  moreover have "list_all ok (image_profiles k')" if "list_all ok (image_profiles k)" "list_all ok (map f (filter q (image_profiles k)))" for ok
    using that by (auto simp: k' upd_where_def list_all_iff)
  moreover have "gpu_profiles k' = gpu_profiles k" by (simp add: k')
  ultimately show ?thesis using new assms(2) by (simp add: catalog_inv_def)
qed

lemma gpu_edit_inv:
  assumes "catalog_inv k"
  shows "catalog_inv (k\<lparr>gpu_profiles := upd_where q (edited_gpu now p) (gpu_profiles k)\<rparr>)"
proof -
  have ids: "map gp_ID (upd_where q (edited_gpu now p) (gpu_profiles k)) = map gp_ID (gpu_profiles k)"
    by (rule map_upd_where) (simp add: edited_gpu_def)
  then have "gp_ID ` set (upd_where q (edited_gpu now p) (gpu_profiles k)) = gp_ID ` set (gpu_profiles k)"
    by (metis list.set_map)
  moreover have "list_ex (\<lambda>g. gp_ID g = x) t \<longleftrightarrow> x \<in> gp_ID ` set t" for x and t :: "GPUProfile list" by (auto simp: list_ex_iff)
  ultimately show ?thesis using assms ids by (simp add: catalog_inv_def)
qed

lemma updated_image:
  assumes "bindE (bindE (update_images q f k) (first_row ErrNotFound)) (\<lambda>(row, k1). Inr (scan_image row, k1)) = Inr (x, k')"
  obtains row rows where "update_images q f k = Inr (row # rows, k')" "x = scan_image row"
proof -
  obtain row rows k1 where "update_images q f k = Inr (rows, k1)" "first_row ErrNotFound (rows, k1) = Inr (row, k')" "x = scan_image row"
    using assms by (auto simp: bindE_eq_Inr)
  then show thesis using that by (auto simp: first_row_eq_Inr)
qed


text \<open>
  No edit breaks the catalogue: an update of an image profile, of its build state or of a GPU profile,
  whatever the driver does, leaves unique keys, hardware and states within their bounds and every default
  GPU profile in place; and once an image was given a positive template, the template is a reserved
  identifier.
\<close>

theorem catalog_kept:
  assumes "catalog_inv k"
  shows "catalog_inv (fst (UpdateImageProfile fault now p k)) \<and> catalog_inv (fst (UpdateImageBuildState fault now pid state detail k)) \<and>
    catalog_inv (fst (UpdateGPUProfile fault now g k)) \<and>
    (\<forall>k' row. UpdateImageProfile fault now p k = (k', Inr row) \<longrightarrow> im_TemplateVMID p > 0 \<longrightarrow>
       (\<exists>vmids. ImageReservedVMIDs NoFault k' d = Inr vmids \<and> im_TemplateVMID p \<in> vmids))"
proof (intro conjI allI impI)
  show "catalog_inv (fst (UpdateImageProfile fault now p k))"
    unfolding UpdateImageProfile_def
  proof (rule run_tx_preserves [where P = catalog_inv, OF assms])
    fix x k'
    assume "bindE (bindE (update_images (\<lambda>row. im_ID row = im_ID p) (edited_image now p) k) (first_row ErrNotFound)) (\<lambda>(row, k1). Inr (scan_image row, k1)) = Inr (x, k')"
    then obtain row rows where "update_images (\<lambda>row. im_ID row = im_ID p) (edited_image now p) k = Inr (row # rows, k')" by (rule updated_image)
    then show "catalog_inv k'" by (rule update_images_inv [OF _ assms]) (simp add: edited_image_def)
  qed
  show "catalog_inv (fst (UpdateImageBuildState fault now pid state detail k))"
    unfolding UpdateImageBuildState_def
  proof (rule run_tx_preserves [where P = catalog_inv, OF assms])
    fix x k'
    assume "bindE (update_images (\<lambda>row. im_ID row = pid) (\<lambda>row. row\<lparr>im_BuildStatus := state, im_StatusDetail := detail, im_UpdatedAt := now\<rparr>) k)
      (\<lambda>(_, k1). Inr ((), k1)) = Inr (x, k')"
    then obtain rows where "update_images (\<lambda>row. im_ID row = pid) (\<lambda>row. row\<lparr>im_BuildStatus := state, im_StatusDetail := detail, im_UpdatedAt := now\<rparr>) k = Inr (rows, k')"
      by (auto simp: bindE_eq_Inr)
    then show "catalog_inv k'" by (rule update_images_inv [OF _ assms]) simp
  qed
  show "catalog_inv (fst (UpdateGPUProfile fault now g k))"
    unfolding UpdateGPUProfile_def
  proof (rule run_tx_preserves [where P = catalog_inv, OF assms])
    fix x k'
    assume "bindE (query_row ErrNotFound (\<lambda>g'. gp_ID g' = gp_ID g) (gpu_profiles k)) (\<lambda>g'. Inr (edited_gpu now g g',
        k\<lparr>gpu_profiles := upd_where (\<lambda>g'. gp_ID g' = gp_ID g) (edited_gpu now g) (gpu_profiles k)\<rparr>)) = Inr (x, k')"
    then have "k' = k\<lparr>gpu_profiles := upd_where (\<lambda>g'. gp_ID g' = gp_ID g) (edited_gpu now g) (gpu_profiles k)\<rparr>" by (auto simp: bindE_eq_Inr)
    then show "catalog_inv k'" using gpu_edit_inv [OF assms] by simp
  qed
next
  fix k' row
  assume "UpdateImageProfile fault now p k = (k', Inr row)" and pos: "im_TemplateVMID p > 0"
  then have "bindE (bindE (update_images (\<lambda>row. im_ID row = im_ID p) (edited_image now p) k) (first_row ErrNotFound)) (\<lambda>(row, k1). Inr (scan_image row, k1)) = Inr (row, k')"
    by (simp add: UpdateImageProfile_def run_tx_eq_Inr)
  then obtain new rows where "update_images (\<lambda>row. im_ID row = im_ID p) (edited_image now p) k = Inr (new # rows, k')" by (rule updated_image)
  note u = update_images_Inr [OF this]
  then have "filter (\<lambda>row. im_ID row = im_ID p) (image_profiles k) \<noteq> []" by force
  then obtain r where r: "r \<in> set (image_profiles k)" "im_ID r = im_ID p" by (auto simp: filter_empty_conv)
  have "edited_image now p r \<in> set (image_profiles k')" using u r by (force simp: upd_where_def)
  moreover have "im_TemplateVMID (edited_image now p r) = Some (im_TemplateVMID p)" using pos by (simp add: edited_image_def nullableInt_def)
  ultimately have "im_TemplateVMID p \<in> set (List.map_filter im_TemplateVMID (image_profiles k'))"
    by (force simp: List.map_filter_def)
  then show "\<exists>vmids. ImageReservedVMIDs NoFault k' d = Inr vmids \<and> im_TemplateVMID p \<in> vmids"
    using pos by (simp add: ImageReservedVMIDs_def)
qed

section \<open>Witness\<close>

definition ex_image :: ImageProfileRow where
  "ex_image = \<lparr>im_ID = ''debian'', im_DisplayName = ''Debian'', im_OSFamily = ''linux'', im_OSVersion = ''13'', im_Architecture = ''amd64'',
     im_Lifecycle = ''supported'', im_Enabled = True, im_SourceNode = [], im_SourceISO = [], im_SourceISOChecksum = [], im_DriverISO = [],
     im_DriverISOChecksum = [], im_TemplateVMID = None, im_MirrorURL = [], im_SecurityMirrorURL = [], im_StoragePool = ''ceph-pve'',
     im_Bridge = ''vmbr0'', im_WindowsImageName = [], im_DefaultCores = 4, im_DefaultMemoryMB = 4096, im_DefaultDiskGB = 32,
     im_Firmware = ''seabios'', im_TPMVersion = ''none'', im_AgentKind = ''linux'', im_DesktopProtocol = ''rdp'',
     im_DefaultGPUProfileID = ''none'', im_BuildStatus = ''draft'', im_StatusDetail = [], im_UpdatedAt = 0\<rparr>"

definition ex_catalog :: catalog where
  "ex_catalog = \<lparr>image_profiles = [ex_image], gpu_profiles = [\<lparr>gp_ID = ''none'', gp_DisplayName = ''CPU only'', gp_Mode = ''none'',
     gp_VendorID = [], gp_DeviceClass = [], gp_ResourceMapping = [], gp_MDevType = [], gp_Enabled = True, gp_Exclusive = False,
     gp_AllowLiveMigration = True, gp_UpdatedAt = 0\<rparr>]\<rparr>"

abbreviation ex_edit :: ImageProfile where
  "ex_edit \<equiv> with_template 9000 ex_image"

lemma ex_catalog_inv: "catalog_inv ex_catalog"
  by (simp add: catalog_inv_def ex_catalog_def ex_image_def image_check_def hardware_check_def)

theorem catalog_kept_witness:
  "catalog_inv (fst (UpdateImageProfile NoFault 7 ex_edit ex_catalog)) \<and>
   (\<exists>k' row vmids. UpdateImageProfile NoFault 7 ex_edit ex_catalog = (k', Inr row) \<and>
      ImageReservedVMIDs NoFault k' empty_db = Inr vmids \<and> 9000 \<in> vmids)"
proof -
  obtain k' row where run: "UpdateImageProfile NoFault 7 ex_edit ex_catalog = (k', Inr row)"
    by (simp add: UpdateImageProfile_def update_images_def Let_def first_row_def ex_catalog_def edited_image_def with_template_def
        ex_image_def image_check_def hardware_check_def nullableInt_def)
  have "im_TemplateVMID ex_edit = 9000" by (simp add: with_template_def)
  then show ?thesis
    using catalog_kept [OF ex_catalog_inv, of NoFault 7 ex_edit "[]" "[]" "[]" "hd (gpu_profiles ex_catalog)" empty_db] run by auto
qed

end
