(* ===== verification/Clone_Recovery.thy ===== *)
theory Clone_Recovery
  imports Clone_Laws Images Guest_Identity Auth "HOL-Library.Multiset"
begin

text \<open>
  Recovering a clone whose task handle was lost: the evidence read from the hypervisor
  (src/internal/pve/task_evidence.go, clone_task_candidates.go, clone_log.go, gpu_config_match.go), the observation of
  the target and the handler that puts them together (src/internal/httpapi/clone_inspection.go, clone_recovery.go), and the desktop
  inventory (desktop_inventory.go).  The hypervisor is an argument: what it answers to each question.
\<close>

section \<open>The hypervisor\<close>

record TaskEvidence =
  te_UPID :: string
  te_Node :: string
  te_Type :: string
  te_ID :: string
  te_User :: string
  te_TokenID :: string
  te_StartTime :: int
  te_Status :: string
  te_ExitStatus :: string

record VM =
  vm_VMID :: int
  vm_Name :: string
  vm_Kind :: string
  vm_Node :: string
  vm_Status :: string
  vm_Template :: bool
  vm_Managed :: bool
  vm_CPUCount :: int
  vm_MemoryTotal :: int
  vm_Tags :: "string list"

text \<open>The fields of \<open>VMConfiguration\<close> that the observation reads.\<close>

record VMConfiguration =
  vc_Description :: string
  vc_Lock :: string
  vc_Template :: bool
  vc_Name :: string

text \<open>The answers of the API: the status and the log of a task, the machines, the configuration of one.\<close>

record hypervisor =
  hv_status :: "string \<Rightarrow> string \<Rightarrow> string + TaskEvidence"
  hv_log :: "string \<Rightarrow> string \<Rightarrow> string + (int \<times> string) list"
  hv_machines :: "string + VM list"
  hv_config :: "string \<Rightarrow> int \<Rightarrow> string + VMConfiguration"

section \<open>Evidence of a task\<close>

text \<open>\<open>^[A-Za-z0-9][A-Za-z0-9_.-]{0,127}$\<close>\<close>

definition node_re :: "string \<Rightarrow> bool" where
  "node_re node =
     (case node of
        [] \<Rightarrow> False
      | c # r \<Rightarrow> (is_lower c \<or> is_upper c \<or> is_digit c) \<and> list_all (\<lambda>c. is_token_char c \<or> c = CHR ''.'') r \<and> length r \<le> 127)"

definition upid_ok :: "string \<Rightarrow> bool" where
  "upid_ok upid \<longleftrightarrow>
     HasPrefix upid ''UPID:'' \<and> \<not> length upid > 1024 \<and>
     \<not> list_ex (\<lambda>c. c \<in> set [CHR ''/'', CHR 0x5C, CHR ''?'', CHR ''#'', CHR 0x0D, CHR 0x0A, CHR 0x00]) upid"

definition evidence_ok :: "string \<Rightarrow> string \<Rightarrow> TaskEvidence \<Rightarrow> bool" where
  "evidence_ok node upid e \<longleftrightarrow>
     \<not> (te_UPID e \<noteq> upid \<or> te_Node e \<noteq> node \<or> te_Type e = [] \<or> te_User e = [] \<or> te_StartTime e \<le> 0 \<or>
        (te_Status e \<noteq> ''running'' \<and> te_Status e \<noteq> ''stopped'') \<or>
        (te_Status e = ''stopped'' \<and> te_ExitStatus e = []) \<or>
        (te_Status e = ''running'' \<and> te_ExitStatus e \<noteq> []))"

definition InspectTask :: "hypervisor \<Rightarrow> string \<Rightarrow> string \<Rightarrow> string + TaskEvidence" where
  "InspectTask hv node upid =
     (if \<not> node_re node \<or> \<not> upid_ok upid then Inl ''invalid task inspection target''
      else bindE (hv_status hv node upid) (\<lambda>e.
        if \<not> evidence_ok node upid e then Inl ''task inspection returned incomplete or mismatched evidence'' else Inr e))"

record CloneTaskCandidate =
  ca_UPID :: string
  ca_Node :: string
  ca_Type :: string
  ca_ID :: string
  ca_User :: string
  ca_TokenID :: string
  ca_StartTime :: int

fun candidates_ok :: "string \<Rightarrow> int \<Rightarrow> int \<Rightarrow> int \<Rightarrow> string list \<Rightarrow> CloneTaskCandidate list \<Rightarrow> bool" where
  "candidates_ok node sourceVMID since until seen [] = True"
| "candidates_ok node sourceVMID since until seen (c # cs) =
     (if ca_Node c \<noteq> node \<or> ca_Type c \<noteq> ''qmclone'' \<or> ca_ID c \<noteq> Itoa sourceVMID \<or> ca_User c = [] \<or> ca_StartTime c < since \<or>
         ca_StartTime c > until \<or> \<not> upid_ok (ca_UPID c) \<or> ca_UPID c \<in> set seen
      then False else candidates_ok node sourceVMID since until (ca_UPID c # seen) cs)"

text \<open>\<open>listing\<close> is the answer of the API to the query for the node, the source and the window.\<close>

definition CloneTaskCandidates ::
  "(string \<Rightarrow> int \<Rightarrow> int \<Rightarrow> int \<Rightarrow> string + CloneTaskCandidate list) \<Rightarrow> string \<Rightarrow> int \<Rightarrow> int \<Rightarrow> int \<Rightarrow> string + CloneTaskCandidate list" where
  "CloneTaskCandidates listing node sourceVMID since until =
     (if \<not> node_re node \<or> sourceVMID \<le> 0 \<or> since \<le> 0 \<or> until < since \<or> until - since > 3600
      then Inl ''clone task discovery requires a source and a window of at most one hour''
      else bindE (listing node sourceVMID since until) (\<lambda>found.
        if length found > 50 then Inl ''clone task discovery exceeded its candidate limit; narrow the time window''
        else if \<not> candidates_ok node sourceVMID since until [] found
        then Inl ''clone task discovery returned incomplete, duplicate or mismatched evidence''
        else Inr found))"

section \<open>The declaration in a log\<close>

text \<open>\<open>^creating a clone of VM ([1-9][0-9]*) with ID ([1-9][0-9]*)$\<close> and its two groups\<close>

definition clone_prefix :: string where "clone_prefix = ''creating a clone of VM ''"
definition clone_middle :: string where "clone_middle = '' with ID ''"

definition positive_decimal :: "string \<Rightarrow> bool" where
  "positive_decimal s \<longleftrightarrow> s \<noteq> [] \<and> in_range 49 57 (hd s) \<and> list_all is_digit s"

definition clone_declaration :: "string \<Rightarrow> (string \<times> string) option" where
  "clone_declaration line =
     (let r = drop (length clone_prefix) line; a = takeWhile is_digit r; m = dropWhile is_digit r; b = drop (length clone_middle) m
      in if HasPrefix line clone_prefix \<and> positive_decimal a \<and> HasPrefix m clone_middle \<and> positive_decimal b
         then Some (a, b) else None)"

fun log_scan :: "int \<Rightarrow> (int \<times> string) list \<Rightarrow> (int \<times> int) option \<Rightarrow> string + (int \<times> int) option" where
  "log_scan i [] found = Inr found"
| "log_scan i ((n, text) # rest) found =
     (if n \<noteq> i + 1 \<or> length text > 16384 then Inl ''invalid clone log prefix''
      else case clone_declaration text of
             None \<Rightarrow> log_scan (i + 1) rest found
           | Some (a, b) \<Rightarrow>
               if found \<noteq> None then Inl ''ambiguous clone log declarations''
               else case (Atoi a, Atoi b) of
                      (None, _) \<Rightarrow> Inl ''invalid clone source''
                    | (Some _, None) \<Rightarrow> Inl ''invalid clone target''
                    | (Some source, Some target) \<Rightarrow>
                        if target = source then Inl ''invalid clone target'' else log_scan (i + 1) rest (Some (source, target)))"

text \<open>The pair of the declaration, if one is recognized.\<close>

definition CloneLogTarget :: "hypervisor \<Rightarrow> string \<Rightarrow> string \<Rightarrow> string + (int \<times> int) option" where
  "CloneLogTarget hv node upid =
     (if \<not> node_re node \<or> \<not> upid_ok upid then Inl ''invalid clone log target''
      else bindE (hv_log hv node upid) (\<lambda>lines.
        if length lines > 32 then Inl ''clone log prefix exceeded limit'' else log_scan 0 lines None))"

section \<open>Observing the target\<close>

record desktopCloneRequest =
  cq_Name :: string
  cq_SourceVMID :: int
  cq_TargetNode :: string
  cq_Storage :: string
  cq_Full :: bool
  cq_GPUProfileID :: string
  cq_PCIResourceMapping :: string
  cq_MDevType :: string
  cq_ValidationImageProfileID :: string
  cq_SourceOSFamily :: string
  cq_PVEPrincipal :: string

definition clone_marker :: "StoreJob \<Rightarrow> string" where
  "clone_marker job = ''VC Workspace clone job: '' @ sj_ID job"

definition marker_status :: "StoreJob \<Rightarrow> desktopCloneRequest \<Rightarrow> VMConfiguration \<Rightarrow> string" where
  "marker_status job request c =
     (if vc_Template c \<or> vc_Name c \<noteq> cq_Name request \<or> vc_Description c \<noteq> clone_marker job then ''target_mismatch''
      else if vc_Lock c \<noteq> [] then ''target_locked'' else ''marker_matches'')"

definition observeCloneTarget :: "hypervisor \<Rightarrow> StoreJob \<Rightarrow> desktopCloneRequest \<Rightarrow> string + string" where
  "observeCloneTarget hv job request =
     bindE (hv_machines hv) (\<lambda>vms.
       let found = filter (\<lambda>vm. vm_VMID vm = sj_TargetVMID job) vms in
       if length found > 1 then Inl ''ambiguous clone target''
       else case found of
              [] \<Rightarrow> Inr ''target_absent''
            | vm # _ \<Rightarrow>
                if vm_Node vm \<noteq> sj_TargetNode job \<or> vm_Kind vm \<noteq> ''qemu'' \<or> vm_Template vm then Inr ''target_mismatch''
                else bindE (hv_config hv (vm_Node vm) (vm_VMID vm)) (\<lambda>c. Inr (marker_status job request c)))"

definition requireCloneTarget :: "hypervisor \<Rightarrow> StoreJob \<Rightarrow> desktopCloneRequest \<Rightarrow> string + unit" where
  "requireCloneTarget hv job request =
     bindE (observeCloneTarget hv job request) (\<lambda>status.
       if status \<noteq> ''marker_matches'' then Inl (''clone target is not verified: '' @ status) else Inr ())"

section \<open>The handler\<close>

text \<open>Go's zero time, the first of January of the year 1, and \<open>Unix\<close>.\<close>

definition zero_time :: time where "zero_time = - 62135596800 * 1000000"

definition Unix :: "time \<Rightarrow> int" where "Unix t = t div 1000000"

definition principal_of :: "TaskEvidence \<Rightarrow> string" where
  "principal_of e = te_User e @ (if te_TokenID e \<noteq> [] then ''!'' @ te_TokenID e else [])"

definition unresolved_clone :: "StoreJob \<Rightarrow> bool" where
  "unresolved_clone job \<longleftrightarrow>
     \<not> (sj_Operation job \<noteq> ''pve.template_clone'' \<or> sj_State job \<noteq> ''accepted'' \<or> sj_UPID job \<noteq> [] \<or> sj_SourceVMID job \<le> 0 \<or>
        sj_TargetVMID job \<le> 0 \<or> sj_TaskNode job = [] \<or> sj_TargetNode job = [] \<or> sj_CreatedAt job = zero_time)"

definition task_matches :: "StoreJob \<Rightarrow> desktopCloneRequest \<Rightarrow> TaskEvidence \<Rightarrow> bool" where
  "task_matches job request e \<longleftrightarrow>
     \<not> (te_Type e \<noteq> ''qmclone'' \<or> te_ID e \<noteq> Itoa (sj_SourceVMID job) \<or> principal_of e \<noteq> cq_PVEPrincipal request \<or>
        te_StartTime e < Unix (sj_CreatedAt job - seconds 30) \<or> te_StartTime e > Unix (sj_CreatedAt job + seconds 900) \<or>
        te_Status e \<noteq> ''stopped'' \<or> te_ExitStatus e \<noteq> ''OK'')"

text \<open>
  The request: the token of the header, the decoded body (handle and reason) if it decodes, the job of the
  path.  \<open>decoded\<close> is the job's stored request as \<open>json.Unmarshal\<close> reads it, \<open>pve\<close> the hypervisor if one is
  configured, \<open>locked\<close> whether the lock of the desktop was obtained, \<open>others\<close> what other transactions do to the
  database between the handler's reading of the job and its commit.  An accepted recovery answers 202 with the job
  and starts the watcher of the job; a refusal is a status and a code.
\<close>

record recover_request =
  rr_csrf :: string
  rr_input :: "(string \<times> string) option"
  rr_job :: string

datatype recover_answer = Refused nat string | Accepted StoreJob

definition recoverCloneTask ::
  "(string \<Rightarrow> string) \<Rightarrow> ((string \<times> audit_value) list \<Rightarrow> (string \<times> audit_value) list) \<Rightarrow> (string \<Rightarrow> string option) \<Rightarrow>
   (string \<Rightarrow> string \<Rightarrow> string option) \<Rightarrow> (string \<Rightarrow> desktopCloneRequest option) \<Rightarrow> hypervisor option \<Rightarrow> bool \<Rightarrow>
   tx_fault \<Rightarrow> tx_fault \<Rightarrow> (db \<Rightarrow> db) \<Rightarrow> time \<Rightarrow> Session \<Rightarrow> recover_request \<Rightarrow> db \<Rightarrow> db \<times> recover_answer" where
  "recoverCloneTask ulower visit jsonb json_field decoded pve locked fault fault2 others now session r d =
     (if u_role (se_user session) \<noteq> PlatformAdmin then (d, Refused 403 ''permission_denied'')
      else if se_csrf_token session = [] \<or> \<not> ConstantTimeEqual (rr_csrf r) (se_csrf_token session) then (d, Refused 403 ''invalid_csrf_token'')
      else case rr_input r of
        None \<Rightarrow> (d, Refused 400 ''invalid_request'')
      | Some (upid, reason) \<Rightarrow>
        let reason = TrimSpace reason in
        if \<not> upid_ok upid \<or> reason = [] \<or> rune_count reason > 500 then (d, Refused 422 ''invalid_recovery'')
        else case JobByID fault (rr_job r) d of
          Inl e \<Rightarrow> (d, if e = ErrNotFound then Refused 404 ''job_not_found'' else Refused 503 ''recovery_unavailable'')
        | Inr job \<Rightarrow>
          (case decoded (sj_Request job) of
             None \<Rightarrow> (d, Refused 409 ''recovery_state_changed'')
           | Some request \<Rightarrow>
             if \<not> unresolved_clone job \<or> cq_Name request = [] \<or> cq_PVEPrincipal request = [] then (d, Refused 409 ''recovery_state_changed'')
             else case pve of
               None \<Rightarrow> (d, Refused 503 ''recovery_unavailable'')
             | Some hv \<Rightarrow>
               if \<not> locked then (d, Refused 503 ''recovery_unavailable'')
               else case InspectTask hv (sj_TaskNode job) upid of
                 Inl _ \<Rightarrow> (d, Refused 503 ''recovery_unavailable'')
               | Inr e \<Rightarrow>
                 if \<not> task_matches job request e then (d, Refused 409 ''recovery_evidence_mismatch'')
                 else case CloneLogTarget hv (sj_TaskNode job) upid of
                   Inl _ \<Rightarrow> (d, Refused 503 ''recovery_unavailable'')
                 | Inr declared \<Rightarrow>
                   if declared \<noteq> Some (sj_SourceVMID job, sj_TargetVMID job) then (d, Refused 409 ''recovery_evidence_mismatch'')
                   else case observeCloneTarget hv job request of
                     Inl _ \<Rightarrow> (d, Refused 503 ''recovery_unavailable'')
                   | Inr status \<Rightarrow>
                     if status \<noteq> ''marker_matches'' then (d, Refused 409 ''recovery_evidence_mismatch'')
                     else case CommitCloneRecovery ulower visit jsonb json_field fault2 now job upid (u_id (se_user session)) reason (others d) of
                       (d', Inl e) \<Rightarrow>
                         (d', if e = ErrConflict then Refused 409 ''recovery_state_changed'' else Refused 503 ''recovery_commit_uncertain'')
                     | (d', Inr _) \<Rightarrow> (d', Accepted (job\<lparr>sj_State := ''running'', sj_UPID := upid, sj_Error := []\<rparr>))))"

section \<open>GPU mappings and the inventory\<close>

definition gpu_expected :: "string \<Rightarrow> string \<Rightarrow> (string \<times> string) list" where
  "gpu_expected mapping mdev =
     (if mdev \<noteq> [] then [(''mapping'', mapping), (''mdev'', mdev)]
      else [(''mapping'', mapping), (''pcie'', ''1''), (''x-vga'', ''1'')])"

fun gpu_parts :: "(string \<times> string) list \<Rightarrow> string list \<Rightarrow> bool" where
  "gpu_parts expected [] = (expected = [])"
| "gpu_parts expected (part # parts) =
     (let (key, text, ok) = Cut (CHR ''='') part
      in case map_of expected key of
           None \<Rightarrow> False
         | Some want \<Rightarrow> ok \<and> text = want \<and> gpu_parts (filter (\<lambda>f. fst f \<noteq> key) expected) parts)"

definition MatchesGPUResourceMapping :: "string \<Rightarrow> string \<Rightarrow> string \<Rightarrow> bool" where
  "MatchesGPUResourceMapping raw mapping mdev =
     (if mapping = [] \<or> length raw > 1024 then False
      else let expected = gpu_expected mapping mdev; parts = Split (CHR '','') raw
           in length parts = length expected \<and> gpu_parts expected parts)"

definition isManagedDesktop :: "VM \<Rightarrow> bool" where
  "isManagedDesktop vm \<longleftrightarrow>
     vm_Kind vm = ''qemu'' \<and> \<not> vm_Template vm \<and> (''vc-workspace'' \<in> set (vm_Tags vm) \<or> ''vc-vdi'' \<in> set (vm_Tags vm))"

datatype inventory_error = NoDependencies | PveErr string | StoreErr err

text \<open>The virtual machines of the summary, which are all that changes in it.\<close>

definition desktopInventory :: "tx_fault \<Rightarrow> hypervisor option \<Rightarrow> catalog \<Rightarrow> db \<Rightarrow> inventory_error + VM list" where
  "desktopInventory fault pve k d =
     (case pve of
        None \<Rightarrow> Inl NoDependencies
      | Some hv \<Rightarrow>
          bindE (mapErr PveErr (hv_machines hv)) (\<lambda>vms.
          bindE (mapErr StoreErr (ImageReservedVMIDs fault k d)) (\<lambda>reserved.
            Inr (map (\<lambda>vm. vm\<lparr>vm_Managed := isManagedDesktop vm \<and> vm_VMID vm \<notin> reserved\<rparr>) vms))))"

section \<open>What a declaration says\<close>

definition declaration_line :: "int \<Rightarrow> int \<Rightarrow> string" where
  "declaration_line source target = clone_prefix @ Itoa source @ clone_middle @ Itoa target"

lemma Atoi_positive:
  assumes "positive_decimal a" "Atoi a = Some n"
  shows "a = Itoa n"
proof -
  from assms(1) obtain v where v: "parse_from 10 0 a = Some v" "FormatUint v = a"
    using digits_canonical unfolding positive_decimal_def by blast
  from assms(1) obtain c r where c: "a = c # r" "in_range 49 57 c"
    by (cases a) (auto simp: positive_decimal_def)
  then have "c \<noteq> CHR ''-''" "c \<noteq> CHR ''+''" by (auto simp: in_range_def)
  with c v assms(2) have "n = int v" by (auto simp: Atoi_def Let_def split: if_splits)
  with v show ?thesis by (simp add: Itoa_def)
qed

lemma clone_declaration_text:
  assumes "clone_declaration line = Some (a, b)"
  shows "line = clone_prefix @ a @ clone_middle @ b \<and> positive_decimal a \<and> positive_decimal b"
proof -
  define r where "r = drop (length clone_prefix) line"
  define m where "m = dropWhile is_digit r"
  have d: "HasPrefix line clone_prefix" "positive_decimal a" "HasPrefix m clone_middle" "positive_decimal b"
    "a = takeWhile is_digit r" "b = drop (length clone_middle) m"
    using assms by (auto simp: clone_declaration_def Let_def r_def m_def split: if_splits)
  have "line = clone_prefix @ r" using d(1) unfolding r_def HasPrefix_def by (metis append_take_drop_id)
  moreover have "m = clone_middle @ b" using d(3) unfolding d(6) HasPrefix_def by (metis append_take_drop_id)
  moreover have "r = a @ m" unfolding d(5) m_def by simp
  ultimately show ?thesis using d(2,4) by (metis append.assoc)
qed

lemma log_scan_found: "log_scan i ls (Some p) = Inr q \<Longrightarrow> q = Some p \<and> filter (\<lambda>l. clone_declaration (snd l) \<noteq> None) ls = []"
  by (induction i ls "Some p" rule: log_scan.induct) (auto split: if_splits option.splits)

lemma log_scan_declares:
  "log_scan i ls None = Inr (Some (s, t)) \<Longrightarrow>
     s \<noteq> t \<and> map snd (filter (\<lambda>l. clone_declaration (snd l) \<noteq> None) ls) = [declaration_line s t]"
proof (induction ls arbitrary: i)
  case (Cons l ls)
  obtain n x where l: "l = (n, x)" by (cases l)
  show ?case
  proof (cases "clone_declaration x")
    case None
    with Cons l show ?thesis by (auto split: if_splits)
  next
    case (Some ab)
    obtain a b where ab: "ab = (a, b)" by (cases ab)
    from Cons.prems Some l ab obtain s' t' where
      at: "Atoi a = Some s'" "Atoi b = Some t'" "t' \<noteq> s'" "log_scan (i + 1) ls (Some (s', t')) = Inr (Some (s, t))"
      by (auto split: if_splits option.splits)
    with log_scan_found [OF at(4)] clone_declaration_text [of x a b] Some ab l Atoi_positive
    show ?thesis by (auto simp: declaration_line_def)
  qed
qed simp

section \<open>The GPU mapping as a set of properties\<close>

lemma Cut_first: "c \<notin> set k \<Longrightarrow> Cut c (k @ c # v) = (k, v, True)"
  by (induction k) auto

lemma Cut_found: "Cut c p = (k, v, True) \<Longrightarrow> p = k @ c # v \<and> c \<notin> set k"
  by (induction p arbitrary: k) (auto split: if_splits prod.splits)

definition property_text :: "string \<times> string \<Rightarrow> string" where
  "property_text f = fst f @ CHR ''='' # snd f"

lemma mset_remove_key:
  assumes "distinct (map fst fs)" "(k, v) \<in> set fs"
  shows "mset fs = add_mset (k, v) (mset (filter (\<lambda>f. fst f \<noteq> k) fs))"
  using assms
proof (induction fs)
  case (Cons f fs)
  show ?case
  proof (cases "f = (k, v)")
    case True
    with Cons.prems have "filter (\<lambda>f. fst f \<noteq> k) fs = fs" by (auto simp: filter_id_conv image_iff)
    with True show ?thesis by simp
  next
    case False
    with Cons.prems have "(k, v) \<in> set fs" "fst f \<notin> fst ` set fs" by auto
    then have "fst f \<noteq> k" by (metis fst_conv imageI)
    with False Cons show ?thesis by auto
  qed
qed simp

lemma gpu_parts_iff:
  "distinct (map fst fs) \<Longrightarrow> \<forall>f \<in> set fs. CHR ''='' \<notin> set (fst f) \<Longrightarrow>
     gpu_parts fs parts \<longleftrightarrow> mset parts = mset (map property_text fs)"
proof (induction parts arbitrary: fs)
  case (Cons p ps)
  have rest: "distinct (map fst (filter g fs)) \<and> (\<forall>f \<in> set (filter g fs). CHR ''='' \<notin> set (fst f))" for g
    using Cons.prems by (auto simp: distinct_map_filter)
  have step: "gpu_parts fs (p # ps) \<longleftrightarrow> mset (p # ps) = mset (map property_text fs)"
    if kv: "(k, v) \<in> set fs" "p = property_text (k, v)" for k v
  proof -
    let ?fs = "filter (\<lambda>f. fst f \<noteq> k) fs"
    have "CHR ''='' \<notin> set k" using kv(1) Cons.prems(2) by (metis fst_conv)
    then have "Cut (CHR ''='') p = (k, v, True)" by (simp add: kv(2) property_text_def Cut_first)
    then have "gpu_parts fs (p # ps) \<longleftrightarrow> gpu_parts ?fs ps"
      using map_of_is_SomeI [OF Cons.prems(1) kv(1)] by simp
    also have "\<dots> \<longleftrightarrow> mset ps = mset (map property_text ?fs)"
      by (rule Cons.IH) (use rest [of "\<lambda>f. fst f \<noteq> k"] in \<open>blast+\<close>)
    also have "\<dots> \<longleftrightarrow> mset (p # ps) = mset (map property_text fs)"
      using arg_cong [OF mset_remove_key [OF Cons.prems(1) kv(1)], of "image_mset property_text"]
      by (simp add: kv(2) del: mset_filter)
    finally show ?thesis .
  qed
  show ?case
  proof (cases "p \<in> property_text ` set fs")
    case True
    then obtain k v where "(k, v) \<in> set fs" "p = property_text (k, v)" by auto
    then show ?thesis by (rule step)
  next
    case False
    then have "\<not> gpu_parts fs (p # ps)"
      by (auto simp: property_text_def image_iff split: prod.splits option.splits dest!: map_of_SomeD Cut_found)
    moreover have "mset (p # ps) \<noteq> mset (map property_text fs)"
      using False by (metis list.set_intros(1) list.set_map set_mset_mset)
    ultimately show ?thesis by simp
  qed
qed auto


section \<open>What a recovery rests on\<close>

lemma InspectTask_eq_Inr: "InspectTask hv node upid = Inr e \<Longrightarrow> hv_status hv node upid = Inr e \<and> evidence_ok node upid e"
  by (auto simp: InspectTask_def bindE_eq_Inr split: if_splits)

lemma CloneLogTarget_eq_Some:
  assumes "CloneLogTarget hv node upid = Inr (Some (s, t))"
  shows "\<exists>lines. hv_log hv node upid = Inr lines \<and>
    map snd (filter (\<lambda>l. clone_declaration (snd l) \<noteq> None) lines) = [declaration_line s t]"
proof -
  from assms obtain lines where "hv_log hv node upid = Inr lines" "log_scan 0 lines None = Inr (Some (s, t))"
    by (auto simp: CloneLogTarget_def bindE_eq_Inr split: if_splits)
  with log_scan_declares show ?thesis by blast
qed

text \<open>The target of a job: one machine of that number, on the node, unlocked and carrying the marker of the job.\<close>

definition target_marked :: "hypervisor \<Rightarrow> StoreJob \<Rightarrow> string \<Rightarrow> bool" where
  "target_marked hv job name \<longleftrightarrow>
     (\<exists>vms vm c. hv_machines hv = Inr vms \<and> filter (\<lambda>vm. vm_VMID vm = sj_TargetVMID job) vms = [vm] \<and>
        vm_Node vm = sj_TargetNode job \<and> vm_Kind vm = ''qemu'' \<and> \<not> vm_Template vm \<and>
        hv_config hv (vm_Node vm) (vm_VMID vm) = Inr c \<and> \<not> vc_Template c \<and> vc_Name c = name \<and>
        vc_Description c = clone_marker job \<and> vc_Lock c = [])"

lemma marker_status_matches:
  "marker_status job request c = ''marker_matches'' \<longleftrightarrow>
     \<not> vc_Template c \<and> vc_Name c = cq_Name request \<and> vc_Description c = clone_marker job \<and> vc_Lock c = []"
  by (auto simp: marker_status_def)

lemma observeCloneTarget_matches:
  assumes "observeCloneTarget hv job request = Inr ''marker_matches''"
  shows "target_marked hv job (cq_Name request)"
proof -
  from assms obtain vms where vms: "hv_machines hv = Inr vms"
    and found: "\<not> length (filter (\<lambda>vm. vm_VMID vm = sj_TargetVMID job) vms) > 1"
    and res: "(case filter (\<lambda>vm. vm_VMID vm = sj_TargetVMID job) vms of
              [] \<Rightarrow> Inr ''target_absent''
            | vm # _ \<Rightarrow>
                if vm_Node vm \<noteq> sj_TargetNode job \<or> vm_Kind vm \<noteq> ''qemu'' \<or> vm_Template vm then Inr ''target_mismatch''
                else bindE (hv_config hv (vm_Node vm) (vm_VMID vm)) (\<lambda>c. Inr (marker_status job request c))) = Inr ''marker_matches''"
    by (auto simp: observeCloneTarget_def bindE_eq_Inr Let_def split: if_splits)
  from res obtain vm q where f: "filter (\<lambda>vm. vm_VMID vm = sj_TargetVMID job) vms = vm # q"
    by (cases "filter (\<lambda>vm. vm_VMID vm = sj_TargetVMID job) vms") auto
  with found have "q = []" by simp
  moreover from res f obtain c where "vm_Node vm = sj_TargetNode job" "vm_Kind vm = ''qemu''" "\<not> vm_Template vm"
    "hv_config hv (vm_Node vm) (vm_VMID vm) = Inr c" "marker_status job request c = ''marker_matches''"
    by (auto simp: bindE_eq_Inr split: if_splits)
  ultimately show ?thesis using vms f unfolding target_marked_def marker_status_matches by blast
qed

lemma requireCloneTarget_eq_Inr: "requireCloneTarget hv job request = Inr () \<Longrightarrow> target_marked hv job (cq_Name request)"
  by (auto simp: requireCloneTarget_def bindE_eq_Inr split: if_splits intro: observeCloneTarget_matches)

text \<open>What the commit finds in the database, and what it leaves.\<close>

definition recovered_row :: "time \<Rightarrow> StoreJob \<Rightarrow> string \<Rightarrow> db \<Rightarrow> db \<Rightarrow> bool" where
  "recovered_row now job upid d d' \<longleftrightarrow>
     (\<exists>j \<in> set (pve_jobs d). same_clone job j \<and> j_state j = ''accepted'' \<and> j_upid j = None \<and>
        pve_jobs d' = upd_where (\<lambda>k. k = j) (clone_running now upid) (pve_jobs d))"

lemma upd_where_one:
  assumes "length (filter p t) = 1"
  shows "\<exists>r \<in> set t. p r \<and> upd_where p f t = upd_where (\<lambda>k. k = r) f t"
proof -
  from assms obtain r where "filter p t = [r]" by (auto simp: length_Suc_conv)
  then have "set (filter p t) = {r}" by simp
  then have "{x \<in> set t. p x} = {r}" by simp
  then have "r \<in> set t" "p r" and only: "\<And>k. k \<in> set t \<Longrightarrow> p k \<longleftrightarrow> k = r" by blast+
  moreover have "upd_where p f t = upd_where (\<lambda>k. k = r) f t" by (simp add: upd_where_def only)
  ultimately show ?thesis by blast
qed

lemma CommitCloneRecovery_row:
  assumes "CommitCloneRecovery ul visit jsonb jf fault now e upid actor reason d = (d', Inr u)"
  shows "recovered_row now e upid d d' \<and>
    (\<exists>a \<in> set (users d). u_id a = actor \<and> u_role a = PlatformAdmin \<and> \<not> u_disabled a)"
proof -
  from assms have tx: "clone_recovery_tx ul visit jsonb jf now e upid actor (TrimSpace reason) d = Inr (u, d')"
    by (auto simp: CommitCloneRecovery_def Let_def run_tx_eq_Inr split: if_splits)
  then obtain a rq n d1 where a: "find (\<lambda>u. u_id u = actor) (users d) = Some a" "u_role a = PlatformAdmin" "\<not> u_disabled a"
    and up: "update_jobs jf (\<lambda>j. same_clone e j \<and> j_state j = ''accepted'' \<and> j_upid j = None \<and> j_request j = rq)
        (clone_running now upid) d = Inr (n, d1)" and n: "n = 1" and d': "pve_jobs d' = pve_jobs d1"
    by (auto simp: clone_recovery_tx_def result_simps insert_audit_def split: option.splits)
  from a have "\<exists>a \<in> set (users d). u_id a = actor \<and> u_role a = PlatformAdmin \<and> \<not> u_disabled a"
    by (auto simp: find_Some_iff)
  moreover have "recovered_row now e upid d d'"
    using up n d' upd_where_one [of "\<lambda>j. same_clone e j \<and> j_state j = ''accepted'' \<and> j_upid j = None \<and> j_request j = rq"
        "pve_jobs d" "clone_running now upid"]
    by (auto simp: update_jobs_def result_simps Let_def recovered_row_def)
  ultimately show ?thesis by simp
qed

lemma recoverCloneTask_Accepted:
  assumes "recoverCloneTask ul visit jsonb jf decoded pve locked fault fault2 others now session r d = (d', Accepted job')"
  shows "\<exists>hv upid reason job request e.
    u_role (se_user session) = PlatformAdmin \<and> ConstantTimeEqual (rr_csrf r) (se_csrf_token session) \<and>
    pve = Some hv \<and> locked \<and> rr_input r = Some (upid, reason) \<and> JobByID fault (rr_job r) d = Inr job \<and>
    decoded (sj_Request job) = Some request \<and>
    job' = job\<lparr>sj_State := ''running'', sj_UPID := upid, sj_Error := []\<rparr> \<and> unresolved_clone job \<and>
    InspectTask hv (sj_TaskNode job) upid = Inr e \<and> task_matches job request e \<and>
    CloneLogTarget hv (sj_TaskNode job) upid = Inr (Some (sj_SourceVMID job, sj_TargetVMID job)) \<and>
    observeCloneTarget hv job request = Inr ''marker_matches'' \<and>
    CommitCloneRecovery ul visit jsonb jf fault2 now job upid (u_id (se_user session)) (TrimSpace reason) (others d) = (d', Inr ())"
  using assms unfolding recoverCloneTask_def Let_def
  by (simp split: if_splits option.splits sum.splits prod.splits)

text \<open>
  C30.  An accepted recovery rests on evidence for the very job: an administrator asked with the token of their
  session; the hypervisor reports the task as a finished clone of the job's source by the principal that submitted it,
  started within the window; its log declares the job's source and target and no other pair; the target exists once, unlocked
  and with the job's marker; and at the commit, whatever other transactions did since the job was read, the requester is
  still an enabled administrator and the job still has no task, and that job alone is changed.
\<close>

theorem recoverCloneTask_evidence:
  assumes "recoverCloneTask ul visit jsonb jf decoded pve locked fault fault2 others now session r d = (d', Accepted job)"
  shows "\<exists>hv e lines request.
    pve = Some hv \<and> locked \<and> decoded (sj_Request job) = Some request \<and> rr_csrf r = se_csrf_token session \<and>
    hv_status hv (sj_TaskNode job) (sj_UPID job) = Inr e \<and> te_Type e = ''qmclone'' \<and> te_ID e = Itoa (sj_SourceVMID job) \<and>
    te_Status e = ''stopped'' \<and> te_ExitStatus e = ''OK'' \<and> principal_of e = cq_PVEPrincipal request \<and>
    Unix (sj_CreatedAt job - seconds 30) \<le> te_StartTime e \<and> te_StartTime e \<le> Unix (sj_CreatedAt job + seconds 900) \<and>
    hv_log hv (sj_TaskNode job) (sj_UPID job) = Inr lines \<and>
    map snd (filter (\<lambda>l. clone_declaration (snd l) \<noteq> None) lines) = [declaration_line (sj_SourceVMID job) (sj_TargetVMID job)] \<and>
    target_marked hv job (cq_Name request) \<and> recovered_row now job (sj_UPID job) (others d) d' \<and>
    (\<exists>a \<in> set (users (others d)). u_id a = u_id (se_user session) \<and> u_role a = PlatformAdmin \<and> \<not> u_disabled a)"
proof -
  from recoverCloneTask_Accepted [OF assms] obtain hv upid reason j request e where
    h: "pve = Some hv" "locked" "decoded (sj_Request j) = Some request" "ConstantTimeEqual (rr_csrf r) (se_csrf_token session)"
    and job: "job = j\<lparr>sj_State := ''running'', sj_UPID := upid, sj_Error := []\<rparr>"
    and e: "InspectTask hv (sj_TaskNode j) upid = Inr e" "task_matches j request e"
    and l: "CloneLogTarget hv (sj_TaskNode j) upid = Inr (Some (sj_SourceVMID j, sj_TargetVMID j))"
    and t: "observeCloneTarget hv j request = Inr ''marker_matches''"
    and c: "CommitCloneRecovery ul visit jsonb jf fault2 now j upid (u_id (se_user session)) (TrimSpace reason) (others d) = (d', Inr ())"
    by blast
  have "target_marked hv job (cq_Name request)"
    using observeCloneTarget_matches [OF t] by (simp add: target_marked_def job clone_marker_def)
  moreover have "recovered_row now job (sj_UPID job) (others d) d'"
    using CommitCloneRecovery_row [OF c] by (simp add: recovered_row_def same_clone_def job)
  moreover have "\<exists>a \<in> set (users (others d)). u_id a = u_id (se_user session) \<and> u_role a = PlatformAdmin \<and> \<not> u_disabled a"
    using CommitCloneRecovery_row [OF c] by blast
  moreover obtain lines where "hv_log hv (sj_TaskNode j) upid = Inr lines"
    "map snd (filter (\<lambda>l. clone_declaration (snd l) \<noteq> None) lines) = [declaration_line (sj_SourceVMID j) (sj_TargetVMID j)]"
    using CloneLogTarget_eq_Some [OF l] by (elim exE conjE)
  moreover have "rr_csrf r = se_csrf_token session" using h(4) by (simp add: ConstantTimeEqual_def split: if_splits)
  moreover have "sj_TaskNode job = sj_TaskNode j" "sj_UPID job = upid" "sj_Request job = sj_Request j" "sj_CreatedAt job = sj_CreatedAt j"
    "sj_SourceVMID job = sj_SourceVMID j" "sj_TargetVMID job = sj_TargetVMID j" by (simp_all add: job)
  moreover have "hv_status hv (sj_TaskNode j) upid = Inr e" using InspectTask_eq_Inr [OF e(1)] by blast
  ultimately show ?thesis using h(1-3) e(2) unfolding task_matches_def
    by (intro exI [of _ hv] exI [of _ e] exI [of _ lines] exI [of _ request]) (simp only: not_less de_Morgan_disj not_not simp_thms)
qed

definition ex_recovery_job :: Job where
  "ex_recovery_job = (job_row 100000000 ex_job ''{}'')\<lparr>j_source_vmid := Some 9, j_target_vmid := Some 7, j_target_node := Some ''pve2''\<rparr>"

definition ex_recovery_db :: db where
  "ex_recovery_db = empty_db\<lparr>users := [ex_user\<lparr>u_role := PlatformAdmin\<rparr>], pve_jobs := [ex_recovery_job]\<rparr>"

definition ex_hypervisor :: hypervisor where
  "ex_hypervisor =
     \<lparr>hv_status = (\<lambda>node upid. Inr \<lparr>te_UPID = upid, te_Node = node, te_Type = ''qmclone'', te_ID = ''9'', te_User = ''vcw@pve'',
        te_TokenID = ''api'', te_StartTime = 105, te_Status = ''stopped'', te_ExitStatus = ''OK''\<rparr>),
      hv_log = (\<lambda>node upid. Inr [(1, ''creating a clone of VM 9 with ID 7''), (2, ''done'')]),
      hv_machines = Inr [\<lparr>vm_VMID = 7, vm_Name = ''d'', vm_Kind = ''qemu'', vm_Node = ''pve2'', vm_Status = ''stopped'',
        vm_Template = False, vm_Managed = False, vm_CPUCount = 2, vm_MemoryTotal = 1024, vm_Tags = []\<rparr>],
      hv_config = (\<lambda>node vmid. Inr \<lparr>vc_Description = ''VC Workspace clone job: job_1'', vc_Lock = [], vc_Template = False, vc_Name = ''d''\<rparr>)\<rparr>"

definition ex_clone_request :: desktopCloneRequest where
  "ex_clone_request =
     \<lparr>cq_Name = ''d'', cq_SourceVMID = 9, cq_TargetNode = ''pve2'', cq_Storage = [], cq_Full = True, cq_GPUProfileID = [],
      cq_PCIResourceMapping = [], cq_MDevType = [], cq_ValidationImageProfileID = [], cq_SourceOSFamily = [], cq_PVEPrincipal = ''vcw@pve!api''\<rparr>"

abbreviation ex_recovery :: "db \<times> recover_answer" where
  "ex_recovery \<equiv> recoverCloneTask (\<lambda>s. s) (\<lambda>fs. fs) Some (\<lambda>_ _. None) (\<lambda>_. Some ex_clone_request) (Some ex_hypervisor) True
     NoFault NoFault (\<lambda>d. d) 200000000
     \<lparr>se_user = ex_user\<lparr>u_role := PlatformAdmin\<rparr>, se_csrf_token = ''t'', se_expires_at = 0, se_auth_kind = AuthWeb, se_credential_id = []\<rparr>
     \<lparr>rr_csrf = ''t'', rr_input = Some (''UPID:1'', '' lost ''), rr_job = ''job_1''\<rparr> ex_recovery_db"

text \<open>The detail of a recovery is stored as it is written when the reason has no zero byte.\<close>

lemma runes_bytes: "r \<in> set (runes s) \<Longrightarrow> set r \<subseteq> set s"
  by (metis UN_upper concat_runes set_concat)

lemma json_coerce_nul: "CHR 0x00 \<notin> set s \<Longrightarrow> CHR 0x00 \<notin> set (json_coerce s)"
  using runes_bytes [of _ s] by (fastforce simp: json_coerce_def split: if_splits)

lemma put_field_all: "list_all P fs \<Longrightarrow> P (k, v) \<Longrightarrow> list_all P (put_field k v fs)"
  by (induction fs) auto

lemma fold_put_all: "list_all P gs \<Longrightarrow> list_all P fs \<Longrightarrow> list_all P (fold (\<lambda>(k, v). put_field k v) gs fs)"
  by (induction gs arbitrary: fs) (auto intro: put_field_all)

lemma json_normal_nul: "json_nul_free v \<Longrightarrow> json_nul_free (json_normal v)"
proof (induction v rule: json_normal.induct)
  case (3 fs)
  have "list_all (\<lambda>f. CHR 0x00 \<notin> set (fst f) \<and> json_nul_free (snd f)) (map (\<lambda>f. (json_coerce (fst f), json_normal (snd f))) fs)"
    using 3 by (auto simp: list_all_iff json_coerce_nul)
  then show ?case using fold_put_all [of "\<lambda>f. CHR 0x00 \<notin> set (fst f) \<and> json_nul_free (snd f)"] by simp
qed (auto simp: list_all_iff json_coerce_nul)

lemma hex_encode_nul: "CHR 0x00 \<notin> set (hex_encode s)"
  using hex_encode_lower_hex [of s] by (auto simp: list_all_iff byte_class_defs)

lemma sanitize_text_nul: "CHR 0x00 \<notin> set s \<Longrightarrow> json_nul_free (sanitizeAuditValue ul visit (AText s) (Suc 0))"
  by (subst sanitizeAuditValue.simps) (auto dest: in_set_takeD)

lemma sanitize_int: "sanitizeAuditValue ul visit (AInt n) (Suc 0) = AInt n"
  by (subst sanitizeAuditValue.simps) simp

lemma recovery_detail_nul_free:
  assumes "CHR 0x00 \<notin> set reason"
  shows "json_nul_free (recovery_detail ul (\<lambda>fs. fs) e upid reason)"
  unfolding recovery_detail_def
  by (rule json_normal_nul, subst sanitizeAuditValue.simps)
    (simp add: Let_def sanitize_text_nul sanitize_int assms hex_encode_nul)

lemma ex_recovery_commit:
  "\<exists>d'. CommitCloneRecovery (\<lambda>s. s) (\<lambda>fs. fs) Some (\<lambda>_ _. None) NoFault 200000000 (scan_job ex_recovery_job) ''UPID:1'' ''u1'' ''lost''
     ex_recovery_db = (d', Inr ())"
proof -
  have "recovery_job_ok (scan_job ex_recovery_job) ''UPID:1'' ''u1'' ''lost''" by code_simp
  moreover have "TrimSpace ''lost'' = ''lost''" by code_simp
  moreover have "find (\<lambda>u. u_id u = ''u1'') (users ex_recovery_db) = Some (ex_user\<lparr>u_role := PlatformAdmin\<rparr>)"
    by (simp add: ex_recovery_db_def ex_user_def)
  moreover have "u_role (ex_user\<lparr>u_role := PlatformAdmin\<rparr>) = PlatformAdmin" "\<not> u_disabled (ex_user\<lparr>u_role := PlatformAdmin\<rparr>)"
    by (simp_all add: ex_user_def)
  moreover have "\<exists>d1. update_jobs (\<lambda>_ _. None)
      (\<lambda>j. same_clone (scan_job ex_recovery_job) j \<and> j_state j = ''accepted'' \<and> j_upid j = None \<and> j_request j = sj_Request (scan_job ex_recovery_job))
      (clone_running 200000000 ''UPID:1'') ex_recovery_db = Inr (1, d1)"
    by (simp add: update_jobs_def ex_recovery_db_def ex_recovery_job_def scan_job_def job_row_def ex_job_def same_clone_def
        nullableInt_def nullableString_def coalesce0_def coalesce_def clone_running_def jobs_unique_def active_build_def guardE_def)
  ultimately show ?thesis
    by (auto simp: CommitCloneRecovery_def clone_recovery_tx_def query_row_def recovery_detail_nul_free guardE_def)
qed

lemma ex_recovery_accepted: "\<exists>d' job. ex_recovery = (d', Accepted job) \<and> sj_UPID job = ''UPID:1''"
proof -
  let ?job = "scan_job ex_recovery_job"
  obtain e where e: "InspectTask ex_hypervisor (sj_TaskNode ?job) ''UPID:1'' = Inr e" "task_matches ?job ex_clone_request e"
  proof
    show "InspectTask ex_hypervisor (sj_TaskNode ?job) ''UPID:1'' =
      Inr \<lparr>te_UPID = ''UPID:1'', te_Node = ''pve1'', te_Type = ''qmclone'', te_ID = ''9'', te_User = ''vcw@pve'',
        te_TokenID = ''api'', te_StartTime = 105, te_Status = ''stopped'', te_ExitStatus = ''OK''\<rparr>" by code_simp
  qed code_simp
  have log: "CloneLogTarget ex_hypervisor (sj_TaskNode ?job) ''UPID:1'' = Inr (Some (sj_SourceVMID ?job, sj_TargetVMID ?job))" by code_simp
  have target: "observeCloneTarget ex_hypervisor ?job ex_clone_request = Inr ''marker_matches''" by code_simp
  have job: "JobByID NoFault ''job_1'' ex_recovery_db = Inr ?job" by code_simp
  have ok: "unresolved_clone ?job" "cq_Name ex_clone_request \<noteq> []" "cq_PVEPrincipal ex_clone_request \<noteq> []" by code_simp+
  have input: "TrimSpace '' lost '' = ''lost''" "upid_ok ''UPID:1''" "\<not> rune_count ''lost'' > 500" by code_simp+
  have uid: "u_id (ex_user\<lparr>u_role := PlatformAdmin\<rparr>) = ''u1''" by (simp add: ex_user_def)
  from ex_recovery_commit obtain d' where "CommitCloneRecovery (\<lambda>s. s) (\<lambda>fs. fs) Some (\<lambda>_ _. None) NoFault 200000000 ?job
      ''UPID:1'' ''u1'' ''lost'' ex_recovery_db = (d', Inr ())" by blast
  then have "ex_recovery = (d', Accepted (?job\<lparr>sj_State := ''running'', sj_UPID := ''UPID:1'', sj_Error := []\<rparr>))"
    using e log target job ok input uid by (simp add: recoverCloneTask_def ConstantTimeEqual_def)
  then show ?thesis by simp
qed

theorem recoverCloneTask_evidence_witness:
  "\<exists>d' job. ex_recovery = (d', Accepted job) \<and> sj_UPID job = ''UPID:1'' \<and> target_marked ex_hypervisor job ''d'' \<and>
     recovered_row 200000000 job ''UPID:1'' ex_recovery_db d'"
proof -
  obtain d' job where r: "ex_recovery = (d', Accepted job)" "sj_UPID job = ''UPID:1''" using ex_recovery_accepted by blast
  from recoverCloneTask_evidence [OF r(1)] r have "target_marked ex_hypervisor job ''d''" "recovered_row 200000000 job ''UPID:1'' ex_recovery_db d'"
    by (auto simp: ex_clone_request_def)
  with r show ?thesis by blast
qed

end
