(* ===== verification/Spec2Isabelle.thy ===== *)
theory Spec2Isabelle
  imports Gateway_Http Ticket_Spec Computer_Protocol Policies Clone_Recovery
begin

text \<open>
  A verification development of the control plane of vc-workspace, a service that hands out desktops of a Proxmox
  cluster to people and to computer-use agents.

  \<^bold>\<open>The program.\<close>  The control plane keeps its state in PostgreSQL.  Package store (src/internal/store, with its migrations)
  is the only code that touches the tables: accounts and sessions, desktops and who may use them, leases of agents, the
  accounts the Guests hold for people and agents, connections, one-time tickets of Gateways, jobs of the hypervisor, image
  profiles, access policies and the audit trail.  A Gateway (src/internal/gateway) carries the traffic of a person to a desktop.
  It redeems a ticket at the control plane and keeps asking for renewals of a few seconds; a Gateway that hears nothing stops.
  What a change of authority takes away in the tables, workers later take away in the Guests; two queues of revisions connect
  the two.  Handlers (src/internal/httpapi) check requests, ask the hypervisor (src/internal/pve) and call the store.

  \<^bold>\<open>Conventions.\<close>  A table is the list of its rows and the database is the record \<open>db\<close>.  A transaction is a function into
  \<open>err + ('a \<times> db)\<close> run by \<open>run_tx\<close>, whose first argument is what the driver does: nothing goes wrong, the transaction is rolled
  back, or it commits and the answer is lost.  Constraints, unique indexes and triggers of the migrations are part of the statements that
  meet them.  Time is an integer of microseconds.  A Go string is its list of bytes, an error is \<open>Inl\<close>.  Concurrent transactions
  appear as sequences of steps, since the store serializes the ones that conflict with locks.

  \<^bold>\<open>Foundations.\<close>
  \<^item> \<open>Prelude\<close>: results, transactions, tables and time, with the lemmas that the components share (\<open>result_simps\<close>).
  \<^item> \<open>Go_Strings\<close>, \<open>Go_Text\<close>, \<open>Go_Json\<close>, \<open>Sha256\<close>: what the code uses of Go's strings, strconv, unicode/utf8, encoding/json and
    crypto/sha256.
  \<^item> \<open>Store_Schema\<close>: the rows, the sentinel errors, the view of effective access and the fence around unfinished clones.
  \<^item> \<open>Revision_Queue\<close> and \<open>Row_History\<close>: the contracts of a queue of revisions and of a table whose rows only move forward, as locales.
    The first is interpreted by the fencing queue (\<open>cq\<close>) and the identity queue (\<open>iq\<close>), the second by tickets (\<open>gt\<close>),
    policies (\<open>ph\<close>) and jobs (\<open>jh\<close>).

  \<^bold>\<open>Agents.\<close>
  \<^item> \<open>Computer_Authority\<close>, \<open>Authority_Laws\<close>, \<open>Authority_Invariant\<close>: the triggers of migrations 023 to 028 around leases, epochs and agent
    sessions, what they do as equations, and the invariants under which closing leases cannot fail.
  \<^item> \<open>Leases\<close> (store.go, computer_revocation.go): a granted lease outranks every earlier one and every queued fence, excludes people, and a
    revocation queues the next epoch; a fence requested during older work is not lost.
  \<^item> \<open>Agent_Sessions\<close> (agent_guest_session.go, agent_guest_login.go): a login is not replayed and readiness needs evidence and a live lease.
  \<^item> \<open>Computer_Protocol\<close> (computer/protocol.go): a validated request has the payload of its operation and a defined audit detail.

  \<^bold>\<open>People.\<close>
  \<^item> \<open>Guest_Identity\<close> (guestidentity/session.go) and \<open>Auth\<close> (auth/password.go): validators of operating-system identities, the Go and the SQL
    one of Windows SIDs agreeing, and password hashes that verify.
  \<^item> \<open>Access_Control\<close>, \<open>Accounts\<close>, \<open>Desktops\<close>, \<open>Connections\<close> (store.go, access_transaction.go, session_issuance.go, guest_revocation.go): every change of authority
    leaves nothing behind that the new grants do not permit; codes work once; the list and the check of a user's desktops agree.
  \<^item> \<open>Native_Accounts\<close>, \<open>Native_Laws\<close> (native_guest_account.go, native_guest_recovery.go): credentials are exclusive, never reused and can be revoked.

  \<^bold>\<open>Gateways.\<close>
  \<^item> \<open>Gateway_Tickets\<close>, \<open>Gateway_Laws\<close>, \<open>Ticket_Spec\<close> (gateway_ticket.go): single use, grants of at most five seconds, and the refinement of
    the abstract machine issued, tunnelled, closed by every run of the store.
  \<^item> \<open>Relay\<close>, \<open>Relay_Laws\<close> (relay.go): the tunnel as a state machine together with the calls it makes.  Its interface to the store is the locale
    \<open>gateway_authority\<close>, interpreted by the store (\<open>sa\<close>).  Every forwarded byte is backed by an answer of the store less than five seconds old.
  \<^item> \<open>Gateway_Http\<close> (control.go, tls.go, transport.go, broker.go): only pinned Gateways are served.

  \<^bold>\<open>Hypervisor and records.\<close>
  \<^item> \<open>Pve_Jobs\<close>, \<open>Clone_Laws\<close> (store.go, clone_reservation.go, clone_recovery.go, pending_clone_jobs.go): a request is carried out once; a clone's target is nobody else's.
  \<^item> \<open>Clone_Recovery\<close> (httpapi/clone_recovery.go, clone_inspection.go, desktop_inventory.go, pve/task_evidence.go, clone_log.go,
    clone_task_candidates.go, gpu_config_match.go): an accepted recovery rests on evidence for the very job, with other transactions running between its
    reading and its commit; the GPU attribute is compared as a set of properties.
  \<^item> \<open>Images\<close>, \<open>Policies\<close>, \<open>Audit_Trail\<close> (store.go, image_inventory.go): profiles found by template, revisions of policies, bounded and
    redacted details, pages that lose nothing.

  This theory joins accounts, store and relay: a disabled user's traffic ends within five seconds.

  \<^bold>\<open>Bounds.\<close>  Every function is total and no definition takes fuel.  Loops that are not structural have termination proofs (\<open>runes\<close>,
  \<open>FormatBase\<close>, \<open>sanitizeAuditValue\<close>, whose depth is cut at 5 by the code).  The numbers in the definitions are the code's: 1024 clone
  candidates, grants of 5 seconds, 32 log lines, 50 task candidates, 64 fields and 1024 bytes of an audit detail.

  \<^bold>\<open>Arguments.\<close>  Code outside src/ and the surroundings are arguments: \<open>ulower\<close> (Go's Unicode tables), \<open>sql_lower\<close> and \<open>coll\<close> (the database's lower-casing and
  collation), \<open>jsonb\<close> and \<open>json_field\<close> (its JSON type), \<open>argon2id\<close>, \<open>entropy\<close>, the WebSocket library, the clocks with their \<open>skew\<close>, the driver's \<open>tx_fault\<close>,
  \<open>visit\<close> (the order of a range over a map), \<open>decoded\<close> (a stored clone request read back from JSON) and \<open>hypervisor\<close> (what the client reads from the cluster).

  \<^bold>\<open>Not modelled.\<close>  Routing, rendering and the remaining handlers of src/internal/httpapi, which pass requests to the operations above and to
  the hypervisor; the HTTP client of the hypervisor (pve/client.go) and of the control plane (control_client.go, agentapi, oidcauth); the programs run inside Guests and the
  image builder, which are commands to an operating system; listeners, certificate files and environment variables (runtime.go, tls_reload.go, config); the copying of
  bytes itself, which is one event of the relay; the command-line programs and the Terraform provider, which wire these together.  Deadlocks and timing of database locks are
  outside the model.
\<close>

section \<open>From the account to the wire\<close>

lemma SetUserDisabled_disables:
  assumes "fenced d" "SetUserDisabled fault now uid True d = (d', Inr acc)"
  shows "user_disabled uid d'"
proof -
  from assms(2) obtain d1 where b: "disable_user_tx now uid True d = Inr (acc, d1)" and c: "commitAccessChange now d1 = Inr d'"
    by (auto simp: SetUserDisabled_def run_tx_eq_Inr access_tx_Inr)
  have f: "fenced d1" by (rule same_authority_fenced [OF disable_user_tx_authority [OF b] assms(1)])
  from b obtain u where "d1 = (delete_user_sessions uid (\<lambda>_. False) (d\<lparr>users := upd_where (\<lambda>u. u_id u = uid)
               (\<lambda>u. u\<lparr>u_disabled := True, u_updated_at := now\<rparr>) (users d)\<rparr>))
             \<lparr>desktop_connection_sessions := upd_where (\<lambda>c. c_user_id c = uid \<and> c_state c = ConnActive)
                (revoking_connection now) (desktop_connection_sessions d)\<rparr>"
    by (auto simp: disable_user_tx_def update_user_def bindE_eq_Inr)
  then have "user_disabled uid d1" by (simp add: user_disabled_def delete_user_sessions_def list_all_iff ball_upd_where)
  then show ?thesis by (simp add: user_disabled_def commitAccessChange_accounts [OF f c])
qed

text \<open>
  C1. A disabled user is cut off.  An administrator disables a user; a Gateway runs a tunnel for one of the
  connections of that user.  If from time T on the tunnel's calls find the accounts as the administrator left
  them, the Gateway forwards no byte of that user at T plus five seconds or later, whatever else happens in
  the database, on the network and to the timers, and however the clocks of the two machines differ.
\<close>

theorem disabled_user_cut_off:
  assumes "fenced d0" "SetUserDisabled fault now uid True d0 = (d1, Inr acc)"
    and "tunnel store_redeem store_renew store_stamp skew r h l" "loop_step r l (Forward t) = Some (Inr l')"
    and owner: "\<And>e d c. (e, d) \<in> set h \<Longrightarrow> c \<in> set (desktop_connection_sessions d) \<Longrightarrow> c_id c = gg_ConnectionID (lp_grant l) \<Longrightarrow> c_user_id c = uid"
    and after: "\<And>e d. (e, d) \<in> set h \<Longrightarrow> T \<le> store_stamp e \<Longrightarrow> users d = users d1"
  shows "t + skew < T + seconds 5"
proof (rule relay_revocation_bound [OF assms(3,4)])
  fix e d c
  assume a: "(e, d) \<in> set h" "T \<le> store_stamp e" "c \<in> set (desktop_connection_sessions d)" "c_id c = gg_ConnectionID (lp_grant l)"
  have "user_disabled uid d" using SetUserDisabled_disables [OF assms(1,2)] after [OF a(1,2)] by (simp add: user_disabled_def)
  then show "\<not> effective_user_desktop_access d (c_user_id c) (c_desktop_vmid c)"
    using user_disabled_no_access owner [OF a(1,3,4)] by simp
qed

theorem disabled_user_cut_off_witness:
  "(\<exists>d1 acc. SetUserDisabled NoFault 61 ''u1'' True ex_users_db = (d1, Inr acc)) \<and>
   tunnel store_redeem store_renew store_stamp 60 ex_relay [(ex_call, ex_gateway_db [ex_ticket])] ex_loop \<and>
   loop_step ex_relay ex_loop (Forward 10) = Some (Inr ex_loop) \<and> (10 :: time) + 60 < 61 + seconds 5"
proof -
  have "\<not> isl (snd (SetUserDisabled NoFault 61 ''u1'' True ex_users_db))" by code_simp
  then obtain d1 acc where ok: "SetUserDisabled NoFault 61 ''u1'' True ex_users_db = (d1, Inr acc)"
    using succeeds by blast
  have "(10 :: time) + 60 < 61 + seconds 5"
  proof (rule disabled_user_cut_off [OF ex_users_fenced ok ex_tunnel_run ex_forward])
    show "c_user_id c = ''u1''" if "(e, d) \<in> set [(ex_call, ex_gateway_db [ex_ticket])]" "c \<in> set (desktop_connection_sessions d)" for e d c
      using that by (auto simp: ex_gateway_db_def ex_open_connection_def)
    show "users d = users d1" if "(e, d) \<in> set [(ex_call, ex_gateway_db [ex_ticket])]" "61 \<le> store_stamp e" for e d
      using that by (simp add: ex_call_def store_stamp_def)
  qed
  then show ?thesis using ok ex_tunnel_run ex_forward by blast
qed

end
